(* ===== verification/Prelude.thy ===== *)
theory Prelude
  imports Main "HOL-Library.Word" "HOL-Library.Sublist"
begin

text \<open>
  Shared vocabulary of the development: the C integer types, the error numbers of the C library
  the firmware compares against, C division, \<open>strncmp\<close> on NUL-terminated memory, the pattern
  "call, stop at the first error", and the locale \<open>machine\<close> that turns a one-step invariant into
  an invariant of every run. The collection \<open>fw_defs\<close> holds the small definitions that proofs
  unfold together.
\<close>

unbundle bit_operations_syntax

named_theorems fw_defs \<open>small definitions unfolded together\<close>

section \<open>C integers and error numbers\<close>

type_synonym u8 = "8 word"

abbreviation NUL :: char where "NUL \<equiv> CHR 0x00"

definition ENOENT :: int where [fw_defs]: "ENOENT = 2"
definition ENXIO :: int where [fw_defs]: "ENXIO = 6"
definition ENOEXEC :: int where [fw_defs]: "ENOEXEC = 8"
definition EAGAIN :: int where [fw_defs]: "EAGAIN = 11"
definition ENOMEM :: int where [fw_defs]: "ENOMEM = 12"
definition ENODEV :: int where [fw_defs]: "ENODEV = 19"
definition EINVAL :: int where [fw_defs]: "EINVAL = 22"
definition EOPNOTSUPP :: int where [fw_defs]: "EOPNOTSUPP = 95"
definition EALREADY :: int where [fw_defs]: "EALREADY = 120"
definition EMSGSIZE :: int where [fw_defs]: "EMSGSIZE = 122"

text \<open>C integer division truncates towards zero.\<close>

definition c_div :: "int \<Rightarrow> int \<Rightarrow> int" where
  "c_div a b = sgn a * sgn b * (\<bar>a\<bar> div \<bar>b\<bar>)"

lemma c_div_nonneg: "0 \<le> a \<Longrightarrow> 0 < b \<Longrightarrow> c_div a b = a div b"
  by (cases "a = 0") (auto simp: c_div_def)

lemma c_div_neg: "a < 0 \<Longrightarrow> 0 < b \<Longrightarrow> c_div a b = - ((- a) div b)"
  by (simp add: c_div_def)

text \<open>The value a signed 32-bit variable holds after it is assigned \<open>x\<close>.\<close>

definition s32 :: "int \<Rightarrow> int" where
  "s32 x = (x + 2 ^ 31) mod 2 ^ 32 - 2 ^ 31"

lemma s32_id: "- (2 ^ 31) \<le> x \<Longrightarrow> x < 2 ^ 31 \<Longrightarrow> s32 x = x"
  by (simp add: s32_def)

lemma s32_range: "- (2 ^ 31) \<le> s32 x \<and> s32 x < 2 ^ 31"
  using pos_mod_bound [of "2 ^ 32 :: int" "x + 2 ^ 31"] pos_mod_sign [of "2 ^ 32 :: int" "x + 2 ^ 31"]
  by (simp add: s32_def)

section \<open>C strings\<close>

text \<open>
  A C string is the list of its characters without the terminator; reading at its end gives NUL.
  \<open>strncmp_eq a b n\<close> is \<open>strncmp(a, b, n) == 0\<close>: at most \<open>n\<close> characters are compared and the
  comparison stops after a NUL common to both.
\<close>

definition c_hd :: "string \<Rightarrow> char" where
  "c_hd s = (case s of [] \<Rightarrow> NUL | c # _ \<Rightarrow> c)"

fun strncmp_eq :: "string \<Rightarrow> string \<Rightarrow> nat \<Rightarrow> bool" where
  "strncmp_eq a b 0 = True"
| "strncmp_eq a b (Suc n) =
     (c_hd a = c_hd b \<and> (c_hd a = NUL \<or> strncmp_eq (tl a) (tl b) n))"

lemma c_hd_simps [simp]: "c_hd [] = NUL" "c_hd (c # cs) = c"
  by (simp_all add: c_hd_def)

lemma strncmp_eq_prefix:
  assumes "NUL \<notin> set a" and "n \<le> length a"
  shows "strncmp_eq a b n \<longleftrightarrow> prefix (take n a) b"
  using assms
proof (induction n arbitrary: a b)
  case 0
  then show ?case by simp
next
  case (Suc n)
  then obtain x xs where a: "a = x # xs" and x: "x \<noteq> NUL" by (cases a) auto
  show ?case
  proof (cases b)
    case Nil
    then show ?thesis using a x by simp
  next
    case (Cons y ys)
    then show ?thesis using Suc a x by auto
  qed
qed

text \<open>The C string at the start of an array.\<close>

definition c_str :: "string \<Rightarrow> string" where
  "c_str bs = takeWhile (\<lambda>c. c \<noteq> NUL) bs"

text \<open>\<open>strcmp(a, b) == 0\<close> on C strings.\<close>

definition strcmp_eq :: "string \<Rightarrow> string \<Rightarrow> bool" where
  [fw_defs]: "strcmp_eq a b \<longleftrightarrow> a = b"

text \<open>The text \<open>printf\<close> writes for \<open>%d\<close>.\<close>

fun dec_nat :: "nat \<Rightarrow> string" where
  "dec_nat n = (if n < 10 then [char_of (48 + n)] else dec_nat (n div 10) @ [char_of (48 + n mod 10)])"

declare dec_nat.simps [simp del]

definition dec_str :: "int \<Rightarrow> string" where
  "dec_str i = (if i < 0 then CHR ''-'' # dec_nat (nat (- i)) else dec_nat (nat i))"

lemma dec_nat_length: "n < 10 ^ Suc k \<Longrightarrow> length (dec_nat n) \<le> Suc k"
proof (induction k arbitrary: n)
  case 0
  then show ?case by (simp add: dec_nat.simps [of n])
next
  case (Suc k)
  then have "length (dec_nat (n div 10)) \<le> Suc k" by (intro Suc.IH) (simp add: less_mult_imp_div_less)
  then show ?case by (simp add: dec_nat.simps [of n])
qed

lemma dec_str_length: "- (2 ^ 31) \<le> i \<Longrightarrow> i < 2 ^ 31 \<Longrightarrow> length (dec_str i) \<le> 11"
  using dec_nat_length [of "nat i" 9] dec_nat_length [of "nat (- i)" 9]
  by (cases "i < 0") (simp_all add: dec_str_def nat_less_iff)

text \<open>\<open>atoi\<close>: white space, a sign, digits; the value is clamped to the 32 bits of \<open>long\<close>.\<close>

definition is_dec_digit :: "char \<Rightarrow> bool" where
  "is_dec_digit c \<longleftrightarrow> 48 \<le> (of_char c :: nat) \<and> (of_char c :: nat) \<le> 57"

fun dec_value :: "int \<Rightarrow> string \<Rightarrow> int" where
  "dec_value acc [] = acc"
| "dec_value acc (c # cs) = (if is_dec_digit c then dec_value (10 * acc + (of_char c - 48)) cs else acc)"

definition atoi :: "string \<Rightarrow> int" where
  "atoi s =
     (let t = dropWhile (\<lambda>c. (of_char c :: nat) = 32 \<or> 9 \<le> (of_char c :: nat) \<and> (of_char c :: nat) \<le> 13) s;
          v = (case t of
                 [] \<Rightarrow> 0
               | c # cs \<Rightarrow> if c = CHR ''-'' then - dec_value 0 cs
                           else if c = CHR ''+'' then dec_value 0 cs
                           else dec_value 0 t)
      in max (- (2 ^ 31)) (min (2 ^ 31 - 1) v))"

section \<open>Calls that stop at the first error\<close>

text \<open>
  The C pattern \<open>err = f(); if (err) return err; err = g(); ...\<close>: the calls are made in order, each
  is appended to the log of external calls, and the first nonzero result ends the sequence.
  \<open>res n c\<close> is what the environment returns to call \<open>c\<close> when it is the \<open>n\<close>-th call of the log.
\<close>

fun seq_calls :: "(nat \<Rightarrow> 'c \<Rightarrow> int) \<Rightarrow> 'c list \<Rightarrow> 'c list \<Rightarrow> int \<times> 'c list" where
  "seq_calls res [] log = (0, log)"
| "seq_calls res (c # cs) log =
     (let r = res (length log) c; log' = log @ [c]
      in if r \<noteq> 0 then (r, log') else seq_calls res cs log')"

lemma seq_calls_ok:
  assumes "fst (seq_calls res cs log) = 0"
  shows "snd (seq_calls res cs log) = log @ cs"
  using assms by (induction cs arbitrary: log) (auto simp: Let_def split: if_splits)

lemma seq_calls_prefix:
  "\<exists>done. prefix done cs \<and> snd (seq_calls res cs log) = log @ done"
proof (induction cs arbitrary: log)
  case Nil
  then show ?case by simp
next
  case (Cons c cs)
  show ?case
  proof (cases "res (length log) c = 0")
    case True
    from Cons [of "log @ [c]"] obtain d where
      "prefix d cs" "snd (seq_calls res cs (log @ [c])) = log @ [c] @ d" by auto
    then show ?thesis using True by (intro exI [of _ "c # d"]) (simp add: Let_def)
  next
    case False
    then show ?thesis by (intro exI [of _ "[c]"]) (simp add: Let_def)
  qed
qed

lemma seq_calls_all_ok:
  assumes "\<And>n c. c \<in> set cs \<Longrightarrow> res n c = 0"
  shows "seq_calls res cs log = (0, log @ cs)"
  using assms by (induction cs arbitrary: log) (auto simp: Let_def)

section \<open>Machines and their invariants\<close>

locale machine =
  fixes start :: "'s \<Rightarrow> bool"
    and step :: "'e \<Rightarrow> 's \<Rightarrow> 's"
    and inv :: "'s \<Rightarrow> bool"
  assumes inv_start: "start s \<Longrightarrow> inv s"
    and inv_step: "inv s \<Longrightarrow> inv (step e s)"
begin

lemma inv_fold: "inv s \<Longrightarrow> inv (fold step es s)"
  by (induction es arbitrary: s) (auto intro: inv_step)

lemma inv_run: "start s \<Longrightarrow> inv (fold step es s)"
  by (blast intro: inv_start inv_fold)

end

section \<open>Lists\<close>

lemma take_list_update_prefix: "n \<le> i \<Longrightarrow> take n (xs[i := v]) = take n xs"
  by simp

lemma sum_list_replicate_int: "sum_list (replicate n (x :: int)) = int n * x"
  by (induction n) (auto simp: algebra_simps)

lemma sum_list_update_int:
  fixes xs :: "int list"
  assumes "i < length xs"
  shows "sum_list (xs[i := v]) = sum_list xs - xs ! i + v"
  using assms
proof (induction xs arbitrary: i)
  case Nil
  then show ?case by simp
next
  case (Cons x xs)
  then show ?case by (cases i) (auto simp: algebra_simps)
qed

end
