(* ===== verification/Utils.thy ===== *)
theory Utils
  imports Prelude
begin

text \<open>
  The helpers of src/utils (of both firmware images, which are identical there): bounded string
  copy, \<open>strnlen\<close>, the ASCII test, the nearest-element search with the NTC conversion of src/bsp
  that uses it, and the jitter helper.
\<close>

section \<open>string\_utils.c\<close>

text \<open>
  \<open>safe_strlcpy\<close>: the first loop copies while \<open>--left \<noteq> 0\<close> and stops after a NUL. \<open>strlcpy_loop n s\<close>
  is that loop entered with \<open>left = n + 1\<close>; it returns the bytes stored through \<open>dest\<close>, the value of
  \<open>left\<close> at its end and the unread source. The source memory is \<open>s\<close> followed by its terminator.
\<close>

fun strlcpy_loop :: "nat \<Rightarrow> string \<Rightarrow> string \<times> nat \<times> string" where
  "strlcpy_loop 0 s = ([], 0, s)"
| "strlcpy_loop (Suc n) [] = ([NUL], Suc n, [])"
| "strlcpy_loop (Suc n) (c # cs) =
     (if c = NUL then ([NUL], Suc n, cs)
      else let (w, l, r) = strlcpy_loop n cs in (c # w, l, r))"

text \<open>The bytes written to \<open>dest\<close>, in order, and the returned \<open>s - src - 1\<close>.\<close>

definition safe_strlcpy :: "string \<Rightarrow> nat \<Rightarrow> string \<times> nat" where
  "safe_strlcpy src siz =
     (let (w, left, rest) = (if siz \<noteq> 0 then strlcpy_loop (siz - 1) src else ([], 0, src))
      in if left = 0
         then (if siz \<noteq> 0 then w @ [NUL] else w,
               (length src - length rest) + length (takeWhile (\<lambda>c. c \<noteq> NUL) rest))
         else (w, length w - 1))"

definition strnlen :: "string \<Rightarrow> nat \<Rightarrow> nat" where
  "strnlen s maxlen = length (takeWhile (\<lambda>c. c \<noteq> NUL) (take maxlen s))"

text \<open>
  \<open>is_ascii_str\<close>. A byte above 127 fails one of the tests \<open>*str < 0\<close> and \<open>*str > 127\<close>, whichever
  signedness \<open>char\<close> has; \<open>len\<close> counts the characters passed, and the test \<open>len > max_len\<close> comes
  after the increment.
\<close>

fun is_ascii_loop :: "string \<Rightarrow> nat \<Rightarrow> nat \<Rightarrow> bool" where
  "is_ascii_loop [] max_len len = True"
| "is_ascii_loop (c # cs) max_len len =
     (if c = NUL then True
      else if of_char c > (127 :: nat) then False
      else if len + 1 > max_len then False
      else is_ascii_loop cs max_len (len + 1))"

definition is_ascii_str :: "string \<Rightarrow> nat \<Rightarrow> bool" where
  "is_ascii_str s max_len = is_ascii_loop s max_len 0"

lemma strlcpy_loop_spec:
  assumes "NUL \<notin> set s"
  shows "strlcpy_loop n s =
    (if length s < n then (s @ [NUL], n - length s, []) else (take n s, 0, drop n s))"
  using assms
proof (induction n s rule: strlcpy_loop.induct)
  case (3 n c cs)
  then show ?case by auto
qed auto

lemma is_ascii_loop_iff:
  "NUL \<notin> set s \<Longrightarrow> is_ascii_loop s m k \<longleftrightarrow>
     (\<forall>c\<in>set s. of_char c \<le> (127 :: nat)) \<and> (s = [] \<or> k + length s \<le> m)"
  by (induction s arbitrary: k) auto

lemma safe_strlcpy_spec:
  assumes "NUL \<notin> set src" and "0 < siz"
  shows "safe_strlcpy src siz = (take (siz - 1) src @ [NUL], length src)"
proof -
  have "length (takeWhile (\<lambda>c. c \<noteq> NUL) (drop n src)) = length src - n" for n
    using assms(1) by (subst takeWhile_eq_all_conv [THEN iffD2]) (auto dest: in_set_dropD)
  then show ?thesis using assms by (auto simp: safe_strlcpy_def strlcpy_loop_spec)
qed

text \<open>
  Further: \<open>safe_strlcpy\<close> into a buffer of \<open>siz > 0\<close> bytes writes the longest prefix of the source that
  leaves room for the terminator, always terminates it, never writes more than \<open>siz\<close> bytes, and
  returns the length of the source.
\<close>

theorem safe_strlcpy_correct:
  assumes "NUL \<notin> set src" and "0 < siz"
  shows "safe_strlcpy src siz = (take (siz - 1) src @ [NUL], length src)
    \<and> length (fst (safe_strlcpy src siz)) \<le> siz"
  using assms by (auto simp: safe_strlcpy_spec)

theorem safe_strlcpy_correct_witness:
  "safe_strlcpy ''abcdef'' 4 = (take (4 - 1) ''abcdef'' @ [NUL], length ''abcdef'')
    \<and> length (fst (safe_strlcpy ''abcdef'' 4)) \<le> 4"
  by (rule safe_strlcpy_correct) simp_all

section \<open>get\_nearest\_element\_index.c\<close>

definition get_nearest :: "int \<Rightarrow> int \<Rightarrow> int \<Rightarrow> int" where
  "get_nearest x y target = (if target - x \<ge> y - target then y else x)"

text \<open>
  The search loop. Every read is at an index below \<open>right \<le> length\<close>, or at \<open>mid + 1\<close> under the guard
  \<open>mid < length - 1\<close>. The last argument is \<open>mid\<close>, returned if the loop ends.
\<close>

function nearest_loop :: "int list \<Rightarrow> int \<Rightarrow> nat \<Rightarrow> nat \<Rightarrow> nat \<Rightarrow> nat" where
  "nearest_loop arr target left right mid0 =
     (if left < right
      then let mid = (left + right) div 2 in
        (if arr ! mid = target then mid
         else if target < arr ! mid
         then (if mid > 0 \<and> target > arr ! (mid - 1)
               then (if get_nearest (arr ! (mid - 1)) (arr ! mid) target = arr ! (mid - 1)
                     then mid - 1 else mid)
               else nearest_loop arr target left mid mid)
         else (if mid < length arr - 1 \<and> target < arr ! (mid + 1)
               then (if get_nearest (arr ! mid) (arr ! (mid + 1)) target = arr ! mid
                     then mid else mid + 1)
               else nearest_loop arr target (mid + 1) right mid))
      else mid0)"
  by pat_completeness auto
termination
  by (relation "measure (\<lambda>(arr, t, left, right, m). right - left)") auto

declare nearest_loop.simps [simp del]

text \<open>An empty array is read out of range by \<open>arr[0]\<close>: no result.\<close>

definition get_nearest_element_index :: "int list \<Rightarrow> int \<Rightarrow> nat option" where
  "get_nearest_element_index arr target =
     (if arr = [] then None
      else if target \<le> arr ! 0 then Some 0
      else if target \<ge> arr ! (length arr - 1) then Some (length arr - 1)
      else Some (nearest_loop arr target 0 (length arr) 0))"

definition nearest_at :: "int list \<Rightarrow> int \<Rightarrow> nat \<Rightarrow> bool" where
  "nearest_at arr t i \<longleftrightarrow> i < length arr \<and> (\<forall>x\<in>set arr. \<bar>arr ! i - t\<bar> \<le> \<bar>x - t\<bar>)"

lemma nearest_at_between:
  assumes "sorted arr" and "i < length arr" and "arr ! i \<le> t" and "Suc i < length arr"
    and "t \<le> arr ! Suc i"
  shows "get_nearest (arr ! i) (arr ! Suc i) t = arr ! i \<Longrightarrow> nearest_at arr t i"
    and "get_nearest (arr ! i) (arr ! Suc i) t \<noteq> arr ! i \<Longrightarrow> nearest_at arr t (Suc i)"
proof -
  have far: "arr ! j \<le> arr ! i \<or> arr ! Suc i \<le> arr ! j" if "j < length arr" for j
    using that assms(1,2,4) by (cases "j \<le> i") (auto intro: sorted_nth_mono)
  have ivl: "\<And>x. x \<in> set arr \<Longrightarrow> x \<le> arr ! i \<or> arr ! Suc i \<le> x"
    using far by (auto simp: in_set_conv_nth)
  show "get_nearest (arr ! i) (arr ! Suc i) t = arr ! i \<Longrightarrow> nearest_at arr t i"
    using assms ivl by (auto simp: nearest_at_def get_nearest_def split: if_splits dest!: ivl)
  show "get_nearest (arr ! i) (arr ! Suc i) t \<noteq> arr ! i \<Longrightarrow> nearest_at arr t (Suc i)"
    using assms ivl by (auto simp: nearest_at_def get_nearest_def split: if_splits dest!: ivl)
qed

lemma nearest_loop_nearest:
  assumes "sorted arr" and "left < right" and "right \<le> length arr"
    and "arr ! left \<le> t" and "t \<le> arr ! (right - 1)"
    and "arr ! 0 < t" and "t < arr ! (length arr - 1)"
  shows "nearest_at arr t (nearest_loop arr t left right m0)"
  using assms
proof (induction arr t left right m0 rule: nearest_loop.induct)
  case (1 arr t left right m0)
  define mid where "mid = (left + right) div 2"
  have mid: "left \<le> mid" "mid < right" "mid < length arr" using "1.prems"(2,3) by (auto simp: mid_def)
  consider (eq) "arr ! mid = t" | (lt) "t < arr ! mid" | (gt) "arr ! mid < t" by linarith
  then show ?case
  proof cases
    case eq
    then have "nearest_at arr t mid" using mid by (simp add: nearest_at_def)
    then show ?thesis using eq "1.prems"(2)
      by (simp add: nearest_loop.simps [of arr t left right m0] mid_def [symmetric] Let_def)
  next
    case lt
    have mid0: "left < mid" using lt "1.prems"(4) mid(1) by (cases "left = mid") auto
    then obtain k where k: "mid = Suc k" by (cases mid) auto
    show ?thesis
    proof (cases "t > arr ! k")
      case True
      with nearest_at_between [OF "1.prems"(1), of k t] lt mid k show ?thesis
        by (auto simp: nearest_loop.simps [of arr t left right m0] mid_def [symmetric] Let_def
            "1.prems"(2))
    next
      case False
      have "nearest_at arr t (nearest_loop arr t left mid mid)"
        using "1.IH"(1) [OF "1.prems"(2) mid_def] "1.prems" mid mid0 lt False k by auto
      then show ?thesis using lt False k "1.prems"(2)
        by (simp add: nearest_loop.simps [of arr t left right m0] mid_def [symmetric] Let_def)
    qed
  next
    case gt
    have last: "mid < length arr - 1"
      using gt "1.prems"(7) mid by (cases "mid = length arr - 1") auto
    show ?thesis
    proof (cases "t < arr ! Suc mid")
      case True
      with nearest_at_between [OF "1.prems"(1), of mid t] gt mid last show ?thesis
        by (auto simp: nearest_loop.simps [of arr t left right m0] mid_def [symmetric] Let_def
            "1.prems"(2))
    next
      case False
      have "Suc mid < right" using gt mid "1.prems"(5) by (cases "Suc mid = right") auto
      then have "nearest_at arr t (nearest_loop arr t (mid + 1) right mid)"
        using "1.IH"(2) [OF "1.prems"(2) mid_def] "1.prems" gt False mid by auto
      then show ?thesis using gt False "1.prems"(2)
        by (simp add: nearest_loop.simps [of arr t left right m0] mid_def [symmetric] Let_def)
    qed
  qed
qed

section \<open>Tables searched by nearest value\<close>

text \<open>What a caller of the search relies on: a sorted table with at least one entry.\<close>

locale nearest_table =
  fixes arr :: "int list"
  assumes table_sorted: "sorted arr"
    and table_nonempty: "arr \<noteq> []"
begin

lemma index_found: "\<exists>i. get_nearest_element_index arr t = Some i \<and> nearest_at arr t i"
proof -
  have first: "\<And>x. x \<in> set arr \<Longrightarrow> arr ! 0 \<le> x"
    using table_sorted table_nonempty by (auto simp: in_set_conv_nth intro: sorted_nth_mono)
  have last: "\<And>x. x \<in> set arr \<Longrightarrow> x \<le> arr ! (length arr - 1)"
    using table_sorted table_nonempty by (auto simp: in_set_conv_nth intro!: sorted_nth_mono)
  consider (lo) "t \<le> arr ! 0" | (hi) "\<not> t \<le> arr ! 0" "arr ! (length arr - 1) \<le> t"
    | (mid) "arr ! 0 < t" "t < arr ! (length arr - 1)" by linarith
  then show ?thesis
  proof cases
    case lo
    then show ?thesis using table_nonempty first
      by (fastforce simp: get_nearest_element_index_def nearest_at_def)
  next
    case hi
    then show ?thesis using table_nonempty last
      by (fastforce simp: get_nearest_element_index_def nearest_at_def)
  next
    case mid
    then have "nearest_at arr t (nearest_loop arr t 0 (length arr) 0)"
      using table_sorted table_nonempty by (intro nearest_loop_nearest) auto
    then show ?thesis using mid table_nonempty by (auto simp: get_nearest_element_index_def)
  qed
qed

lemma index_in_range: "get_nearest_element_index arr t = Some i \<Longrightarrow> i < length arr"
  using index_found [of t] by (auto simp: nearest_at_def)

end

text \<open>
  Further: on a sorted array the binary search returns an index inside the array whose element is at least
  as near to the target as every other element.
\<close>

theorem nearest_index_correct:
  assumes "sorted arr" and "arr \<noteq> []"
  shows "\<exists>i. get_nearest_element_index arr t = Some i \<and> i < length arr
    \<and> (\<forall>x\<in>set arr. \<bar>arr ! i - t\<bar> \<le> \<bar>x - t\<bar>)"
proof -
  have "nearest_table arr" using assms by unfold_locales
  from nearest_table.index_found [OF this, of t] show ?thesis by (auto simp: nearest_at_def)
qed

theorem nearest_index_correct_witness:
  "\<exists>i. get_nearest_element_index [10, 20, 30] 24 = Some i \<and> \<bar>[10, 20, 30] ! i - 24\<bar> \<le> (4 :: int)"
  using nearest_index_correct [of "[10, 20, 30]" 24] by auto

section \<open>jitter.c\<close>

text \<open>\<open>rnd\<close> is the value \<open>sys_rand32_get\<close> returns; arithmetic is on \<open>uint32_t\<close>, with its wrap-around.\<close>

definition GetUint32InRange :: "nat \<Rightarrow> nat \<Rightarrow> nat \<Rightarrow> nat" where
  "GetUint32InRange rnd aMin aMax =
     (if aMax \<le> aMin then aMin else (aMin + rnd mod (aMax - aMin)) mod 2 ^ 32)"

definition AddJitter :: "nat \<Rightarrow> nat \<Rightarrow> nat \<Rightarrow> nat" where
  "AddJitter rnd aValue aJitter =
     (let j = (if aJitter \<le> aValue then aJitter else aValue mod 2 ^ 16)
      in (aValue + GetUint32InRange rnd 0 (2 * j + 1) + (2 ^ 32 - j)) mod 2 ^ 32)"

text \<open>
  Further: \<open>AddJitter\<close> returns a value within \<open>min aJitter aValue\<close> of \<open>aValue\<close>, so no jitter makes it
  wrap below zero; every value of that interval is reached by some random number.
\<close>

theorem AddJitter_bounds:
  assumes "aValue + aJitter < 2 ^ 32" and "aJitter < 2 ^ 16"
  shows "aValue - min aJitter aValue \<le> AddJitter rnd aValue aJitter
    \<and> AddJitter rnd aValue aJitter \<le> aValue + min aJitter aValue
    \<and> (\<forall>x. aValue - min aJitter aValue \<le> x \<and> x \<le> aValue + min aJitter aValue \<longrightarrow>
          (\<exists>r. AddJitter r aValue aJitter = x))"
proof -
  define j where "j = min aJitter aValue"
  have j: "(if aJitter \<le> aValue then aJitter else aValue mod 2 ^ 16) = j"
    using assms(2) by (auto simp: j_def min_def)
  have jb: "j \<le> aValue" "j < 2 ^ 16" "aValue + j < 2 ^ 32" using assms by (auto simp: j_def)
  have eq: "AddJitter r aValue aJitter = aValue + r mod (2 * j + 1) - j" for r
  proof -
    have m: "r mod (2 * j + 1) \<le> 2 * j" using mod_less_divisor [of "2 * j + 1" r] by linarith
    define k where "k = r mod (2 * j + 1)"
    have "k mod 2 ^ 32 = k" using m jb by (intro mod_less) (unfold k_def, linarith)
    moreover have "(aValue + k + (2 ^ 32 - j)) mod 2 ^ 32 = aValue + k - j"
    proof -
      have "aValue + k + (2 ^ 32 - j) = (aValue + k - j) + 2 ^ 32" using jb by simp
      moreover have "aValue + k - j < 2 ^ 32" using m jb unfolding k_def by linarith
      ultimately show ?thesis by simp
    qed
    ultimately show ?thesis unfolding AddJitter_def GetUint32InRange_def j Let_def
      by (simp add: k_def)
  qed
  have "\<exists>r. AddJitter r aValue aJitter = x" if "aValue - j \<le> x" "x \<le> aValue + j" for x
    using that jb by (intro exI [of _ "x + j - aValue"]) (simp add: eq)
  moreover have "aValue - j \<le> AddJitter rnd aValue aJitter
      \<and> AddJitter rnd aValue aJitter \<le> aValue + j"
    unfolding eq using jb mod_less_divisor [of "2 * j + 1" rnd] by linarith
  ultimately show ?thesis by (simp flip: j_def)
qed

theorem AddJitter_bounds_witness: "95 \<le> AddJitter 7 100 5 \<and> AddJitter 7 100 5 \<le> 105"
  using AddJitter_bounds [of 100 5 7] by simp

end
