(* ===== verification/Ntc.thy ===== *)
theory Ntc
  imports Utils
begin

text \<open>
  src/bsp/helio\_ntc.c: conversion of an ADC count of the battery thermistor to a temperature, by
  nearest-value lookup in \<open>counts\<close>. The C table \<open>temperature\<close> holds \<open>float\<close> multiples of 0.5, which
  are exact; it is modelled in half degrees Celsius (\<open>249\<close> stands for 124.5).
\<close>

definition ntc_counts :: "int list" where
  "ntc_counts = [
     65, 66, 66, 67, 68, 69, 70, 70, 71, 72, 73, 74, 75, 75, 76, 77, 78, 79, 80, 81, 82, 83, 84,
     85, 86, 87, 88, 89, 90, 91, 92, 94, 95, 96, 97, 98, 99, 101, 102, 103, 105, 106, 107, 108,
     110, 111, 113, 114, 116, 117, 118, 120, 122, 123, 125, 126, 128, 130, 131, 133, 135, 137,
     138, 140, 142, 144, 146, 148, 150, 152, 154, 156, 158, 160, 162, 164, 167, 169, 171, 173,
     176, 178, 181, 183, 186, 188, 191, 193, 196, 199, 202, 204, 207, 210, 213, 216, 219, 222,
     225, 229, 232, 235, 239, 242, 246, 249, 253, 256, 260, 264, 268, 272, 276, 280, 284, 288,
     292, 296, 301, 305, 310, 314, 319, 324, 329, 334, 339, 344, 349, 354, 359, 365, 371, 376,
     382, 388, 394, 400, 407, 413, 419, 426, 433, 440, 446, 454, 461, 468, 475, 483, 491, 499,
     507, 515, 523, 531, 540, 549, 558, 567, 576, 585, 595, 604, 614, 624, 634, 645, 655, 666,
     677, 688, 700, 711, 723, 735, 747, 760, 772, 785, 798, 812, 825, 839, 853, 867, 882, 897,
     912, 927, 943, 959, 975, 992, 1009, 1026, 1044, 1062, 1080, 1098, 1117, 1136, 1155, 1175,
     1195, 1216, 1237, 1258, 1280, 1302, 1324, 1347, 1370, 1394, 1418, 1443, 1468, 1493, 1519,
     1545, 1572, 1600, 1627, 1656, 1684, 1714, 1743, 1774, 1804, 1836, 1867, 1900, 1933, 1967,
     2000, 2035, 2070, 2106, 2142, 2180, 2217, 2256, 2294, 2334, 2374, 2415, 2456, 2498, 2541,
     2585, 2628, 2674, 2719, 2766, 2812, 2860, 2909, 2958, 3008, 3059, 3110, 3162, 3215, 3269,
     3323, 3378, 3434, 3490, 3547, 3606, 3664, 3724, 3784, 3845, 3906, 3968, 4031, 4095]"

definition ntc_temperature :: "int list" where
  "ntc_temperature = [
     250, 249, 248, 247, 246, 245, 244, 243, 242, 241, 240, 239, 238, 237, 236, 235, 234, 233,
     232, 231, 230, 229, 228, 227, 226, 225, 224, 223, 222, 221, 220, 219, 218, 217, 216, 215,
     214, 213, 212, 211, 210, 209, 208, 207, 206, 205, 204, 203, 202, 201, 200, 199, 198, 197,
     196, 195, 194, 193, 192, 191, 190, 189, 188, 187, 186, 185, 184, 183, 182, 181, 180, 179,
     178, 177, 176, 175, 174, 173, 172, 171, 170, 169, 168, 167, 166, 165, 164, 163, 162, 161,
     160, 159, 158, 157, 156, 155, 154, 153, 152, 151, 150, 149, 148, 147, 146, 145, 144, 143,
     142, 141, 140, 139, 138, 137, 136, 135, 134, 133, 132, 131, 130, 129, 128, 127, 126, 125,
     124, 123, 122, 121, 120, 119, 118, 117, 116, 115, 114, 113, 112, 111, 110, 109, 108, 107,
     106, 105, 104, 103, 102, 101, 100, 99, 98, 97, 96, 95, 94, 93, 92, 91, 90, 89, 88, 87, 86,
     85, 84, 83, 82, 81, 80, 79, 78, 77, 76, 75, 74, 73, 72, 71, 70, 69, 68, 67, 66, 65, 64, 63,
     62, 61, 60, 59, 58, 57, 56, 55, 54, 53, 52, 51, 50, 49, 48, 47, 46, 45, 44, 43, 42, 41, 40,
     39, 38, 37, 36, 35, 34, 33, 32, 31, 30, 29, 28, 27, 26, 25, 24, 23, 22, 21, 20, 19, 18, 17,
     16, 15, 14, 13, 12, 11, 10, 9, 8, 7, 6, 5, 4, 3, 2, 1, 0, -1, -2, -3, -4, -5, -6, -7, -8,
     -9, -10, -11, -12, -13, -14, -15, -16, -17, -18, -19, -20, -21, -22, -23, -24, -25, -26,
     -27]"

definition helio_ntc_adc_to_temp :: "int \<Rightarrow> int" where
  "helio_ntc_adc_to_temp adc_count =
     (case get_nearest_element_index ntc_counts adc_count of
        None \<Rightarrow> 0
      | Some index \<Rightarrow> if index < length ntc_temperature then ntc_temperature ! index else 0)"

lemma ntc_counts_sorted: "sorted ntc_counts"
  unfolding ntc_counts_def
  by (simp only: sorted1 sorted2 numeral_le_iff semiring_norm simp_thms)

lemma ntc_lengths: "length ntc_counts = 278" "length ntc_temperature = 278"
  by (simp_all add: ntc_counts_def ntc_temperature_def)

lemma ntc_temperature_all: "list_all (\<lambda>x. - 27 \<le> x \<and> x \<le> 250) ntc_temperature"
  by code_simp

lemma ntc_temperature_bounds: "x \<in> set ntc_temperature \<Longrightarrow> - 27 \<le> x \<and> x \<le> 250"
  using ntc_temperature_all by (simp add: list_all_iff)

interpretation ntc: nearest_table ntc_counts
  by unfold_locales (simp_all add: ntc_counts_sorted ntc_lengths flip: length_0_conv)

lemma ntc_lookup:
  "\<exists>i. nearest_at ntc_counts adc i \<and> helio_ntc_adc_to_temp adc = ntc_temperature ! i \<and> i < 278"
  using ntc.index_found [of adc] by (auto simp: helio_ntc_adc_to_temp_def nearest_at_def ntc_lengths)

text \<open>
  Further: every ADC count is converted to the temperature of a table entry whose count is nearest to it,
  and the result lies between -13.5 and 125 degrees (half degrees here), whatever the count.
\<close>

theorem ntc_conversion:
  "\<exists>i < length ntc_counts. (\<forall>c\<in>set ntc_counts. \<bar>ntc_counts ! i - adc\<bar> \<le> \<bar>c - adc\<bar>)
     \<and> helio_ntc_adc_to_temp adc = ntc_temperature ! i
     \<and> - 27 \<le> helio_ntc_adc_to_temp adc \<and> helio_ntc_adc_to_temp adc \<le> 250"
proof -
  obtain i where i: "nearest_at ntc_counts adc i" "helio_ntc_adc_to_temp adc = ntc_temperature ! i"
    "i < 278" using ntc_lookup by blast
  then show ?thesis using ntc_temperature_bounds [of "ntc_temperature ! i"]
    by (intro exI [of _ i]) (auto simp: nearest_at_def ntc_lengths)
qed

theorem ntc_conversion_witness:
  "- 27 \<le> helio_ntc_adc_to_temp 1000 \<and> helio_ntc_adc_to_temp 1000 \<le> 250"
  using ntc_conversion [of 1000] by blast

end
