(* ===== verification/EsbIpc.thy ===== *)
theory EsbIpc
  imports Prelude
begin

text \<open>
  What the two network-core images (cluster head and cluster node) share: the layout of the message
  exchanged with the application core (\<open>struct esb_ipc_msg\<close>), the payload and configuration types
  of the radio driver as far as the firmware sets their fields, the log of calls into the driver and
  the kernel, and the two initialisation routines both images contain (\<open>clocks_start\<close>, the IPC
  endpoint set-up). The radio driver, the IPC service and the kernel are not part of the repository:
  what they answer is an argument of the definitions.
\<close>

section \<open>Messages between the cores\<close>

text \<open>
  A received message: the two header bytes and the bytes of the buffer that follow them. The
  receiver is given the size \<open>len\<close> of the buffer but reads only the \<open>length\<close> byte of the header, so
  that byte and the bytes present are separate here, and a read past the end is a fault.
\<close>

record esb_ipc_msg =
  im_type :: nat
  im_length :: nat
  im_data :: "u8 list"

definition ESB_IPC_MSG_TYPE_TX :: nat where [fw_defs]: "ESB_IPC_MSG_TYPE_TX = 1"
definition ESB_IPC_MSG_TYPE_RX :: nat where [fw_defs]: "ESB_IPC_MSG_TYPE_RX = 2"
definition ESB_IPC_MSG_TYPE_NODE_ID :: nat where [fw_defs]: "ESB_IPC_MSG_TYPE_NODE_ID = 3"
definition ESB_IPC_MSG_TYPE_BATT :: nat where [fw_defs]: "ESB_IPC_MSG_TYPE_BATT = 4"
definition ESB_IPC_MSG_TYPE_REQ_BATT :: nat where [fw_defs]: "ESB_IPC_MSG_TYPE_REQ_BATT = 5"

text \<open>\<open>memcpy(dst, src, n)\<close> into a buffer: a fault (\<open>None\<close>) when either side is shorter than \<open>n\<close>.\<close>

definition memcpy :: "'a list \<Rightarrow> 'a list \<Rightarrow> nat \<Rightarrow> 'a list option" where
  "memcpy dst src n =
     (if n \<le> length dst \<and> n \<le> length src then Some (take n src @ drop n dst) else None)"

lemma memcpy_length: "memcpy dst src n = Some d \<Longrightarrow> length d = length dst"
  by (auto simp: memcpy_def split: if_splits)

lemma memcpy_take: "memcpy dst src n = Some d \<Longrightarrow> take n d = take n src"
  by (auto simp: memcpy_def split: if_splits)

text \<open>The C string held by a character buffer: the bytes before the first NUL.\<close>

definition c_string :: "u8 list \<Rightarrow> u8 list" where
  "c_string buf = takeWhile (\<lambda>b. b \<noteq> 0) buf"

text \<open>
  \<open>remote_node_id\<close>: 33 bytes. At most 32 bytes of the message are copied and a NUL follows them,
  the rest of the buffer keeps what it held.
\<close>

definition store_node_id :: "u8 list \<Rightarrow> esb_ipc_msg \<Rightarrow> u8 list option" where
  "store_node_id buf msg =
     (let copy_len = (if im_length msg > 32 then 32 else im_length msg)
      in case memcpy buf (im_data msg) copy_len of
           None \<Rightarrow> None
         | Some b \<Rightarrow> if copy_len < length b then Some (b[copy_len := 0]) else None)"

lemma store_node_id_ok:
  assumes "length buf = 33" and "min 32 (im_length msg) \<le> length (im_data msg)"
  shows "\<exists>b. store_node_id buf msg = Some b \<and> length b = 33
    \<and> c_string b = c_string (take (min 32 (im_length msg)) (im_data msg))"
proof -
  define n where "n = min 32 (im_length msg)"
  let ?b = "take n (im_data msg) @ 0 # drop (Suc n) buf"
  have n: "n < 33" "n \<le> length (im_data msg)" using assms(2) by (auto simp: n_def)
  have clen: "(if im_length msg > 32 then 32 else im_length msg) = n" by (auto simp: n_def)
  have "(take n (im_data msg) @ drop n buf)[n := 0] = ?b"
    using n assms(1) by (simp add: list_update_append Cons_nth_drop_Suc [symmetric])
  then have "store_node_id buf msg = Some ?b"
    using n assms(1) by (simp add: store_node_id_def memcpy_def clen Let_def)
  moreover have "length ?b = 33" using n assms(1) by simp
  moreover have "c_string ?b = c_string (take n (im_data msg))"
    by (simp add: c_string_def takeWhile_tail)
  ultimately show ?thesis unfolding n_def [symmetric] by blast
qed

section \<open>The radio driver\<close>

datatype esb_mode = ESB_MODE_PTX | ESB_MODE_PRX

text \<open>
  \<open>struct esb_config\<close>: the fields the firmware sets. \<open>None\<close> stands for the value of the driver's
  \<open>ESB_DEFAULT_CONFIG\<close>. All configurations use ESB with dynamic payload length at 1 Mbit/s and
  selective auto-acknowledgement.
\<close>

record esb_config =
  ec_mode :: esb_mode
  ec_retransmit_delay :: "nat option"
  ec_retransmit_count :: "nat option"
  ec_tx_output_power :: "int option"

record esb_payload =
  pl_length :: nat
  pl_pipe :: nat
  pl_noack :: bool
  pl_data :: "u8 list"

datatype fw_call =
    Esb_init esb_config
  | Esb_set_rf_channel nat
  | Esb_set_base_address_0 "u8 list"
  | Esb_set_base_address_1 "u8 list"
  | Esb_set_prefixes "u8 list" nat
  | Esb_start_rx
  | Esb_stop_rx
  | Esb_disable
  | Esb_flush_tx
  | Esb_flush_rx
  | Esb_write_payload esb_payload
  | Ipc_send "u8 list"
  | Device_is_ready
  | Ipc_open_instance
  | Ipc_register_endpoint
  | Sem_take_ms nat
  | Work_submit
  | Busy_wait nat

definition base_addr_0 :: "u8 list" where "base_addr_0 = [0xE7, 0xE7, 0xE7, 0xE7]"
definition base_addr_1 :: "u8 list" where "base_addr_1 = [0xC2, 0xC2, 0xC2, 0xC2]"
definition addr_prefix :: "u8 list" where
  "addr_prefix = [0xE7, 0xC2, 0xC3, 0xC4, 0xC5, 0xC6, 0xC7, 0xC8]"

section \<open>Initialisation common to both images\<close>

text \<open>
  \<open>clocks_start\<close>: \<open>mgr\<close> says whether the clock manager exists, \<open>req\<close> is the result of the request
  and \<open>polls\<close> the successive pairs \<open>(err, res)\<close> of \<open>sys_notify_fetch_result\<close>. \<open>None\<close>: still polling
  when the list is exhausted.
\<close>

fun clock_poll :: "(int \<times> int) list \<Rightarrow> int option" where
  "clock_poll [] = None"
| "clock_poll ((err, res) # polls) =
     (if err = 0 \<and> res \<noteq> 0 then Some res
      else if err \<noteq> 0 then clock_poll polls else Some 0)"

definition clocks_start :: "bool \<Rightarrow> int \<Rightarrow> (int \<times> int) list \<Rightarrow> int option" where
  "clocks_start mgr req polls =
     (if \<not> mgr then Some (- ENXIO) else if req < 0 then Some req else clock_poll polls)"

lemma clock_poll_skips: "\<forall>p\<in>set ps. fst p \<noteq> 0 \<Longrightarrow> clock_poll (ps @ qs) = clock_poll qs"
  by (induction ps) auto

text \<open>
  The endpoint set-up of \<open>ipc_init\<close>, up to the wait of at most 5 s for the other core to bind. The
  device test answers 0 for "not ready".
\<close>

definition ipc_endpoint_init :: "(nat \<Rightarrow> fw_call \<Rightarrow> int) \<Rightarrow> fw_call list \<Rightarrow> int \<times> fw_call list" where
  "ipc_endpoint_init res log =
     (let log1 = log @ [Device_is_ready] in
      if res (length log) Device_is_ready = 0 then (- ENODEV, log1)
      else let ret = res (length log1) Ipc_open_instance; log2 = log1 @ [Ipc_open_instance] in
      if ret < 0 \<and> ret \<noteq> - EALREADY then (ret, log2)
      else let ret = res (length log2) Ipc_register_endpoint; log3 = log2 @ [Ipc_register_endpoint] in
      if ret < 0 then (ret, log3)
      else let ret = res (length log3) (Sem_take_ms 5000); log4 = log3 @ [Sem_take_ms 5000] in
      if ret < 0 then (ret, log4) else (0, log4))"

lemma ipc_endpoint_init_ok:
  "fst (ipc_endpoint_init res log) = 0 \<Longrightarrow>
   snd (ipc_endpoint_init res log) =
     log @ [Device_is_ready, Ipc_open_instance, Ipc_register_endpoint, Sem_take_ms 5000]"
  by (auto simp: ipc_endpoint_init_def Let_def fw_defs split: if_splits)

end
