(* ===== verification/KernelApi.thy ===== *)
theory KernelApi
  imports Prelude
begin

text \<open>
  The Zephyr message queue as the firmware uses it. The kernel is not part of the repository: its
  queue is a parameter, a record of operations on an abstract queue state, and \<open>msgq_ok\<close> states what
  the kernel documentation promises of \<open>k_msgq_put\<close> (with \<open>K_NO_WAIT\<close>), \<open>k_msgq_get\<close>, \<open>k_msgq_peek\<close>
  and \<open>k_msgq_num_used_get\<close>: a first-in first-out queue of at most \<open>cap\<close> messages, copied in and out,
  whose \<open>put\<close> fails exactly when it is full and whose \<open>get\<close> and \<open>peek\<close> fail exactly when it is empty.
  The \<open>while (k_msgq_get(...) == 0)\<close> loops are written with an option result that is \<open>None\<close> if they
  never end; that they end is proved.
\<close>

record ('q, 'm) msgq_ops =
  mq_put :: "'m \<Rightarrow> 'q \<Rightarrow> 'q option"
  mq_get :: "'q \<Rightarrow> ('m \<times> 'q) option"
  mq_peek :: "'q \<Rightarrow> 'm option"
  mq_used :: "'q \<Rightarrow> nat"

definition msgq_ok :: "('q, 'm) msgq_ops \<Rightarrow> nat \<Rightarrow> ('q \<Rightarrow> 'm list) \<Rightarrow> bool" where
  "msgq_ok ops cap items \<longleftrightarrow>
     (\<forall>m q. (case mq_put ops m q of
                None \<Rightarrow> cap \<le> length (items q)
              | Some q' \<Rightarrow> length (items q) < cap \<and> items q' = items q @ [m]))
     \<and> (\<forall>q. (case mq_get ops q of
                None \<Rightarrow> items q = []
              | Some (m, q') \<Rightarrow> items q = m # items q'))
     \<and> (\<forall>q. mq_peek ops q = (case items q of [] \<Rightarrow> None | m # _ \<Rightarrow> Some m))
     \<and> (\<forall>q. mq_used ops q = length (items q))"

lemma msgq_put_case:
  "msgq_ok ops cap items \<Longrightarrow>
   (case mq_put ops m q of None \<Rightarrow> cap \<le> length (items q)
    | Some q' \<Rightarrow> length (items q) < cap \<and> items q' = items q @ [m])"
  by (simp add: msgq_ok_def)

lemma msgq_get_case:
  "msgq_ok ops cap items \<Longrightarrow>
   (case mq_get ops q of None \<Rightarrow> items q = [] | Some (m, q') \<Rightarrow> items q = m # items q')"
  by (simp add: msgq_ok_def)

lemma msgq_put_full: "msgq_ok ops cap items \<Longrightarrow> mq_put ops m q = None \<longleftrightarrow> cap \<le> length (items q)"
  using msgq_put_case [of ops cap items q m] by (cases "mq_put ops m q") auto

lemma msgq_put_items:
  "msgq_ok ops cap items \<Longrightarrow> mq_put ops m q = Some q' \<Longrightarrow> items q' = items q @ [m]"
  using msgq_put_case [of ops cap items q m] by simp

lemma msgq_get_none: "msgq_ok ops cap items \<Longrightarrow> mq_get ops q = None \<longleftrightarrow> items q = []"
  using msgq_get_case [of ops cap items q] by (cases "mq_get ops q") auto

lemma msgq_get_items:
  "msgq_ok ops cap items \<Longrightarrow> mq_get ops q = Some (m, q') \<Longrightarrow> items q = m # items q'"
  using msgq_get_case [of ops cap items q] by simp

lemma msgq_peek_items:
  "msgq_ok ops cap items \<Longrightarrow> mq_peek ops q = (case items q of [] \<Rightarrow> None | m # _ \<Rightarrow> Some m)"
  by (simp add: msgq_ok_def)

lemma msgq_used_items: "msgq_ok ops cap items \<Longrightarrow> mq_used ops q = length (items q)"
  by (simp add: msgq_ok_def)

text \<open>\<open>while (k_msgq_get(q, \&m, K_NO_WAIT) == 0) { ... }\<close>: the messages taken, in order, and the queue left.\<close>

partial_function (option) msgq_drain :: "('q \<Rightarrow> ('m \<times> 'q) option) \<Rightarrow> 'q \<Rightarrow> ('m list \<times> 'q) option" where
  "msgq_drain get q =
     (case get q of
        None \<Rightarrow> Some ([], q)
      | Some mq \<Rightarrow> Option.bind (msgq_drain get (snd mq)) (\<lambda>r. Some (fst mq # fst r, snd r)))"

lemma msgq_drain_returns:
  assumes "msgq_ok ops cap items"
  shows "\<exists>q'. msgq_drain (mq_get ops) q = Some (items q, q') \<and> items q' = []"
proof (induction "length (items q)" arbitrary: q)
  case 0
  then have "mq_get ops q = None" "items q = []" using msgq_get_none [OF assms] by auto
  then show ?case by (simp add: msgq_drain.simps)
next
  case (Suc n)
  then have "mq_get ops q \<noteq> None" using msgq_get_none [OF assms, of q] by auto
  then obtain m q1 where g: "mq_get ops q = Some (m, q1)" by auto
  then have i: "items q = m # items q1" by (rule msgq_get_items [OF assms])
  with Suc have "n = length (items q1)" by simp
  from Suc(1) [OF this] obtain q' where "msgq_drain (mq_get ops) q1 = Some (items q1, q')" "items q' = []"
    by blast
  then show ?case using g i by (simp add: msgq_drain.simps [of _ q])
qed

text \<open>A queue that keeps the promises, for concrete runs: a list with a capacity.\<close>

definition list_msgq :: "nat \<Rightarrow> ('m list, 'm) msgq_ops" where
  "list_msgq cap =
     \<lparr>mq_put = (\<lambda>m q. if length q < cap then Some (q @ [m]) else None),
      mq_get = (\<lambda>q. case q of [] \<Rightarrow> None | m # q' \<Rightarrow> Some (m, q')),
      mq_peek = (\<lambda>q. case q of [] \<Rightarrow> None | m # q' \<Rightarrow> Some m),
      mq_used = length\<rparr>"

lemma list_msgq_ok: "msgq_ok (list_msgq cap) cap (\<lambda>q. q)"
  by (auto simp: msgq_ok_def list_msgq_def split: list.splits)

end
