(* ===== verification/EsbHead.thy ===== *)
theory EsbHead
  imports EsbIpc KernelApi
begin

text \<open>
  The network core of a cluster head (cluster_head_multi_image_fota/net_ipc/src/main.c): it broadcasts
  what the application core sends it, opens a receive window when the broadcast has been sent, and
  forwards every packet received in the window to the application core through a queue of four
  packets. The kernel queue is the parameter \<open>ops\<close> with the contract \<open>msgq_ok\<close>; driver and IPC calls
  are logged. A memory access outside its buffer is \<open>None\<close>.
\<close>

definition RX_MSGQ_MAX_ITEMS :: nat where [fw_defs]: "RX_MSGQ_MAX_ITEMS = 4"

record 'q esb_head =
  esb_rx_msgq :: 'q
  hd_rx_payload :: esb_payload
  hd_tx_payload :: esb_payload
  hd_remote_node_id :: "u8 list"
  hd_node_id_sem :: nat
  hd_rx_work :: bool
  hd_calls :: "fw_call list"

text \<open>The zero-initialised static state, with payload buffers of \<open>cap\<close> bytes.\<close>

definition head_boot :: "nat \<Rightarrow> 'q \<Rightarrow> 'q esb_head" where
  "head_boot cap q =
     (let p = \<lparr>pl_length = 0, pl_pipe = 0, pl_noack = False, pl_data = replicate cap 0\<rparr>
      in \<lparr>esb_rx_msgq = q, hd_rx_payload = p, hd_tx_payload = p, hd_remote_node_id = replicate 33 0,
         hd_node_id_sem = 0, hd_rx_work = False, hd_calls = []\<rparr>)"

definition head_call :: "fw_call \<Rightarrow> 'q esb_head \<Rightarrow> 'q esb_head" where
  "head_call c s = s\<lparr>hd_calls := hd_calls s @ [c]\<rparr>"

section \<open>Forwarding to the application core\<close>

text \<open>
  One pass of the work loop: the message is built in a 34-byte structure and sent with its two header
  bytes; a failing send is only logged.
\<close>

definition forward_rx :: "esb_payload \<Rightarrow> 'q esb_head \<Rightarrow> 'q esb_head option" where
  "forward_rx rx_data s =
     (case memcpy (replicate 32 0) (pl_data rx_data) (pl_length rx_data) of
        None \<Rightarrow> None
      | Some d \<Rightarrow> Some (head_call (Ipc_send (of_nat ESB_IPC_MSG_TYPE_RX # of_nat (pl_length rx_data)
                                             # take (pl_length rx_data) d)) s))"

fun forward_all :: "esb_payload list \<Rightarrow> 'q esb_head \<Rightarrow> 'q esb_head option" where
  "forward_all [] s = Some s"
| "forward_all (p # ps) s = (case forward_rx p s of None \<Rightarrow> None | Some s' \<Rightarrow> forward_all ps s')"

text \<open>The work handler; the outer option is \<open>None\<close> if its loop does not end.\<close>

definition esb_rx_work_handler ::
  "('q, esb_payload) msgq_ops \<Rightarrow> 'q esb_head \<Rightarrow> 'q esb_head option option" where
  "esb_rx_work_handler ops s =
     (case msgq_drain (mq_get ops) (esb_rx_msgq s) of
        None \<Rightarrow> None
      | Some (ps, q) \<Rightarrow> Some (forward_all ps (s\<lparr>esb_rx_msgq := q, hd_rx_work := False\<rparr>)))"

section \<open>Radio events\<close>

text \<open>
  \<open>HEAD_RX_RECEIVED r\<close>: \<open>r\<close> is the packet \<open>esb_read_rx_payload\<close> stores (pipe, bytes), or \<open>None\<close> when it
  fails. The bytes overwrite the start of the static payload buffer.
\<close>

datatype head_event =
    HEAD_TX_SUCCESS
  | HEAD_TX_FAILED
  | HEAD_RX_RECEIVED "(nat \<times> u8 list) option"
  | HEAD_OTHER nat

definition esb_evt_handler ::
  "('q, esb_payload) msgq_ops \<Rightarrow> head_event \<Rightarrow> 'q esb_head \<Rightarrow> 'q esb_head" where
  "esb_evt_handler ops ev s =
     (case ev of
        HEAD_TX_SUCCESS \<Rightarrow> head_call Esb_start_rx (head_call Esb_flush_rx s)
      | HEAD_TX_FAILED \<Rightarrow> head_call Esb_start_rx (head_call Esb_flush_rx s)
      | HEAD_RX_RECEIVED None \<Rightarrow> s
      | HEAD_RX_RECEIVED (Some (pipe, bs)) \<Rightarrow>
          (let p = \<lparr>pl_length = length bs, pl_pipe = pipe, pl_noack = pl_noack (hd_rx_payload s),
                    pl_data = bs @ drop (length bs) (pl_data (hd_rx_payload s))\<rparr>;
               s1 = s\<lparr>hd_rx_payload := p\<rparr>
           in case mq_put ops p (esb_rx_msgq s1) of
                None \<Rightarrow> s1
              | Some q \<Rightarrow> (head_call Work_submit (s1\<lparr>esb_rx_msgq := q\<rparr>))\<lparr>hd_rx_work := True\<rparr>)
      | HEAD_OTHER n \<Rightarrow> s)"

section \<open>Messages from the application core\<close>

text \<open>
  The broadcast payload: \<open>ESB_CREATE_PAYLOAD(0, first_byte)\<close> zeroes the rest of a buffer of \<open>cap\<close> bytes,
  then \<open>length - 1\<close> bytes of the message follow the first byte.
\<close>

definition broadcast_payload :: "nat \<Rightarrow> esb_ipc_msg \<Rightarrow> esb_payload option" where
  "broadcast_payload cap msg =
     (if im_data msg = [] \<or> cap = 0 then None
      else let b = hd (im_data msg);
               first_byte = (if b = 0x91 then 0x92 else b);
               d = replicate (cap - 1) 0
      in case (if im_length msg > 1 then memcpy d (tl (im_data msg)) (im_length msg - 1) else Some d) of
           None \<Rightarrow> None
         | Some rest \<Rightarrow> Some \<lparr>pl_length = im_length msg, pl_pipe = 0, pl_noack = True,
                              pl_data = first_byte # rest\<rparr>)"

definition head_ep_recv ::
  "('q, esb_payload) msgq_ops \<Rightarrow> nat \<Rightarrow> esb_ipc_msg \<Rightarrow> 'q esb_head \<Rightarrow> 'q esb_head option option" where
  "head_ep_recv ops cap msg s =
     (if im_type msg = ESB_IPC_MSG_TYPE_TX
      then (let s1 = head_call Esb_stop_rx s
            in case msgq_drain (mq_get ops) (esb_rx_msgq s1) of
                 None \<Rightarrow> None
               | Some (junk, q) \<Rightarrow>
                   Some (case broadcast_payload cap msg of
                           None \<Rightarrow> None
                         | Some p \<Rightarrow>
                             Some (head_call (Esb_write_payload p)
                               (head_call Esb_flush_tx (s1\<lparr>esb_rx_msgq := q, hd_tx_payload := p\<rparr>)))))
      else if im_type msg = ESB_IPC_MSG_TYPE_NODE_ID
      then Some (case store_node_id (hd_remote_node_id s) msg of
                   None \<Rightarrow> None
                 | Some b \<Rightarrow> Some (s\<lparr>hd_remote_node_id := b,
                                     hd_node_id_sem := min 1 (hd_node_id_sem s + 1)\<rparr>))
      else Some (Some s))"

section \<open>Start-up\<close>

definition head_ipc_init :: "(nat \<Rightarrow> fw_call \<Rightarrow> int) \<Rightarrow> fw_call list \<Rightarrow> int \<times> fw_call list" where
  "head_ipc_init res log =
     (let (err, log1) = ipc_endpoint_init res log
      in if err \<noteq> 0 then (err, log1) else (0, log1 @ [Sem_take_ms 2000]))"

definition radio_init_calls :: "fw_call list" where
  "radio_init_calls =
     [Esb_init \<lparr>ec_mode = ESB_MODE_PTX, ec_retransmit_delay = Some 250, ec_retransmit_count = Some 0,
                ec_tx_output_power = None\<rparr>,
      Esb_set_rf_channel 7, Esb_set_base_address_0 base_addr_0, Esb_set_base_address_1 base_addr_1,
      Esb_set_prefixes addr_prefix (length addr_prefix)]"

definition esb_radio_init :: "(nat \<Rightarrow> fw_call \<Rightarrow> int) \<Rightarrow> fw_call list \<Rightarrow> int \<times> fw_call list" where
  "esb_radio_init res log = seq_calls res radio_init_calls log"

definition head_main :: "(nat \<Rightarrow> fw_call \<Rightarrow> int) \<Rightarrow> int \<Rightarrow> fw_call list \<Rightarrow> int \<times> fw_call list" where
  "head_main res clk log =
     (if clk \<noteq> 0 then (clk, log)
      else let (err, log1) = head_ipc_init res log
      in if err \<noteq> 0 then (err, log1) else esb_radio_init res log1)"

section \<open>Properties\<close>

text \<open>The messages sent to the application core, in order; the packet a payload holds.\<close>

fun sent_msgs :: "fw_call list \<Rightarrow> u8 list list" where
  "sent_msgs [] = []"
| "sent_msgs (c # cs) = (case c of Ipc_send bs \<Rightarrow> bs # sent_msgs cs | _ \<Rightarrow> sent_msgs cs)"

lemma sent_msgs_append: "sent_msgs (a @ b) = sent_msgs a @ sent_msgs b"
  by (induction a) (auto split: fw_call.split)

definition packet :: "esb_payload \<Rightarrow> u8 list" where
  "packet p = take (pl_length p) (pl_data p)"

definition rx_message :: "u8 list \<Rightarrow> u8 list" where
  "rx_message bs = of_nat ESB_IPC_MSG_TYPE_RX # of_nat (length bs) # bs"

definition queued_ok :: "esb_payload list \<Rightarrow> bool" where
  "queued_ok ps \<longleftrightarrow> (\<forall>p\<in>set ps. pl_length p = length (packet p) \<and> length (packet p) \<le> 32)"

lemma forward_rx_packet:
  assumes "pl_length p = length (packet p)" and "pl_length p \<le> 32"
  shows "forward_rx p s = Some (head_call (Ipc_send (rx_message (packet p))) s)"
proof -
  have "pl_length p \<le> length (pl_data p)" using assms(1) by (simp add: packet_def)
  then have "memcpy (replicate 32 0) (pl_data p) (pl_length p) =
      Some (packet p @ drop (pl_length p) (replicate 32 0))"
    using assms(2) by (simp add: memcpy_def packet_def)
  moreover have "take (pl_length p) (packet p @ r) = packet p" for r using assms(1) by simp
  ultimately show ?thesis using assms(1) by (simp add: forward_rx_def rx_message_def)
qed

lemma forward_all_packets:
  "queued_ok ps \<Longrightarrow> \<exists>s'. forward_all ps s = Some s' \<and> esb_rx_msgq s' = esb_rx_msgq s
     \<and> hd_calls s' = hd_calls s @ List.map (\<lambda>p. Ipc_send (rx_message (packet p))) ps"
proof (induction ps arbitrary: s)
  case Nil
  then show ?case by simp
next
  case (Cons p ps)
  have p: "forward_rx p s = Some (head_call (Ipc_send (rx_message (packet p))) s)"
    using Cons.prems by (intro forward_rx_packet) (simp_all add: queued_ok_def)
  have "queued_ok ps" using Cons.prems by (simp add: queued_ok_def)
  from Cons.IH [OF this, of "head_call (Ipc_send (rx_message (packet p))) s"]
  show ?case by (simp add: p head_call_def)
qed

lemma sent_msgs_forwarded: "sent_msgs (List.map (\<lambda>p. Ipc_send (f p)) ps) = List.map f ps"
  by (induction ps) auto

lemma rx_event_queue:
  fixes pipe :: nat
  assumes "msgq_ok ops 4 items" and "queued_ok (items (esb_rx_msgq s))" and "length bs \<le> 32"
    and "length (items (esb_rx_msgq s)) \<le> 4"
  defines "s' \<equiv> esb_evt_handler ops (HEAD_RX_RECEIVED (Some (pipe, bs))) s"
  shows "List.map packet (items (esb_rx_msgq s')) =
           take 4 (List.map packet (items (esb_rx_msgq s)) @ [bs])
    \<and> queued_ok (items (esb_rx_msgq s')) \<and> length (items (esb_rx_msgq s')) \<le> 4
    \<and> sent_msgs (hd_calls s') = sent_msgs (hd_calls s)"
proof -
  define p where "p = \<lparr>pl_length = length bs, pl_pipe = pipe, pl_noack = pl_noack (hd_rx_payload s),
                    pl_data = bs @ drop (length bs) (pl_data (hd_rx_payload s))\<rparr>"
  have pk: "packet p = bs" "pl_length p = length bs" by (simp_all add: p_def packet_def)
  show ?thesis
  proof (cases "mq_put ops p (esb_rx_msgq s)")
    case None
    then have "length (items (esb_rx_msgq s)) = 4" using msgq_put_full [OF assms(1)] assms(4) by fastforce
    then show ?thesis using None assms(2) by (simp add: s'_def esb_evt_handler_def p_def Let_def)
  next
    case (Some q)
    then have "length (items (esb_rx_msgq s)) < 4" "items q = items (esb_rx_msgq s) @ [p]"
      using msgq_put_full [OF assms(1), of p "esb_rx_msgq s"] msgq_put_items [OF assms(1) Some] by auto
    then show ?thesis using Some assms(2,3) pk
      by (simp add: s'_def esb_evt_handler_def p_def [symmetric] Let_def head_call_def sent_msgs_append
          queued_ok_def)
  qed
qed

lemma rx_events_queue:
  assumes "msgq_ok ops 4 items"
  shows "queued_ok (items (esb_rx_msgq s)) \<Longrightarrow> length (items (esb_rx_msgq s)) \<le> 4 \<Longrightarrow>
    \<forall>(pipe, bs)\<in>set ps. length bs \<le> 32 \<Longrightarrow>
    (let s' = fold (\<lambda>r. esb_evt_handler ops (HEAD_RX_RECEIVED (Some r))) ps s in
      List.map packet (items (esb_rx_msgq s')) =
        take 4 (List.map packet (items (esb_rx_msgq s)) @ List.map snd ps)
      \<and> queued_ok (items (esb_rx_msgq s')) \<and> length (items (esb_rx_msgq s')) \<le> 4
      \<and> sent_msgs (hd_calls s') = sent_msgs (hd_calls s))"
proof (induction ps arbitrary: s)
  case Nil
  then show ?case by simp
next
  case (Cons r ps)
  obtain pipe bs where r: "r = (pipe, bs)" by (cases r)
  have e: "List.map packet (items (esb_rx_msgq s1)) = take 4 (List.map packet (items (esb_rx_msgq s)) @ [bs])
    \<and> queued_ok (items (esb_rx_msgq s1)) \<and> length (items (esb_rx_msgq s1)) \<le> 4
    \<and> sent_msgs (hd_calls s1) = sent_msgs (hd_calls s)"
    if "s1 = esb_evt_handler ops (HEAD_RX_RECEIVED (Some r)) s" for s1
    using rx_event_queue [OF assms Cons.prems(1) _ Cons.prems(2), of bs pipe] Cons.prems(3) r that by auto
  let ?s1 = "esb_evt_handler ops (HEAD_RX_RECEIVED (Some r)) s"
  have "take 4 (take 4 (xs @ [bs]) @ ys) = take 4 (xs @ bs # ys)" for xs ys :: "u8 list list"
    by (cases "length xs < 4") (auto simp: take_append)
  then have t: "take 4 (List.map packet (items (esb_rx_msgq ?s1)) @ List.map snd ps) =
      take 4 (List.map packet (items (esb_rx_msgq s)) @ List.map snd (r # ps))"
    using e [OF refl] r by (simp del: take_append)
  show ?case using Cons.IH [of ?s1] e [OF refl] Cons.prems(3)
    by (simp add: Let_def t [symmetric] del: take_append list.map(2))
qed

lemma forwards_in_order:
  assumes "msgq_ok ops RX_MSGQ_MAX_ITEMS items" and "items (esb_rx_msgq s) = []"
    and "\<forall>(pipe, bs)\<in>set ps. length bs \<le> 32"
  shows "\<exists>s'. esb_rx_work_handler ops
        (fold (\<lambda>r. esb_evt_handler ops (HEAD_RX_RECEIVED (Some r))) ps s) = Some (Some s')
    \<and> sent_msgs (hd_calls s') = sent_msgs (hd_calls s) @ List.map (rx_message \<circ> snd) (take 4 ps)
    \<and> items (esb_rx_msgq s') = []"
proof -
  have ok: "msgq_ok ops 4 items" using assms(1) by (simp add: RX_MSGQ_MAX_ITEMS_def)
  define s1 where "s1 = fold (\<lambda>r. esb_evt_handler ops (HEAD_RX_RECEIVED (Some r))) ps s"
  have q: "List.map packet (items (esb_rx_msgq s1)) = take 4 (List.map snd ps)"
    "queued_ok (items (esb_rx_msgq s1))" "sent_msgs (hd_calls s1) = sent_msgs (hd_calls s)"
    using rx_events_queue [OF ok, of s ps] assms(2,3) by (simp_all add: s1_def queued_ok_def Let_def)
  obtain q' where d: "msgq_drain (mq_get ops) (esb_rx_msgq s1) = Some (items (esb_rx_msgq s1), q')"
    "items q' = []" using msgq_drain_returns [OF ok] by blast
  obtain s' where s': "forward_all (items (esb_rx_msgq s1)) (s1\<lparr>esb_rx_msgq := q', hd_rx_work := False\<rparr>)
      = Some s'" "esb_rx_msgq s' = q'"
    "hd_calls s' = hd_calls s1 @ List.map (\<lambda>p. Ipc_send (rx_message (packet p))) (items (esb_rx_msgq s1))"
    using forward_all_packets [OF q(2), of "s1\<lparr>esb_rx_msgq := q', hd_rx_work := False\<rparr>"] by auto
  have "List.map (\<lambda>p. rx_message (packet p)) (items (esb_rx_msgq s1)) =
      List.map rx_message (take 4 (List.map snd ps))" by (simp flip: q(1))
  then show ?thesis using d s' q(3)
    by (simp add: esb_rx_work_handler_def s1_def [symmetric] sent_msgs_append sent_msgs_forwarded take_map)
qed

text \<open>
  C5: packets received in a window are forwarded to the application core once each, in the order of
  arrival, with their length and bytes; only the packets beyond the fourth that arrive before the work
  handler runs are dropped, and the handler ends with an empty queue.
\<close>

theorem head_forwards_in_order:
  assumes "msgq_ok ops RX_MSGQ_MAX_ITEMS items" and "items (esb_rx_msgq s) = []"
    and "\<forall>(pipe, bs)\<in>set ps. length bs \<le> 32"
  shows "\<exists>s'. esb_rx_work_handler ops
        (fold (\<lambda>r. esb_evt_handler ops (HEAD_RX_RECEIVED (Some r))) ps s) = Some (Some s')
    \<and> sent_msgs (hd_calls s') = sent_msgs (hd_calls s) @ List.map (rx_message \<circ> snd) (take 4 ps)
    \<and> items (esb_rx_msgq s') = []"
  using assms by (rule forwards_in_order)

theorem head_forwards_in_order_witness:
  "\<exists>s'. esb_rx_work_handler (list_msgq 4)
      (fold (\<lambda>r. esb_evt_handler (list_msgq 4) (HEAD_RX_RECEIVED (Some r))) [(1, [0x93, 1]), (2, [0x93])]
        (head_boot 32 [])) = Some (Some s')
    \<and> sent_msgs (hd_calls s') = [[2, 2, 0x93, 1], [2, 1, 0x93]] \<and> esb_rx_msgq s' = []"
  using head_forwards_in_order [of "list_msgq 4" "\<lambda>q. q" "head_boot 32 []" "[(1, [0x93, 1]), (2, [0x93])]"]
  by (simp add: RX_MSGQ_MAX_ITEMS_def list_msgq_ok rx_message_def ESB_IPC_MSG_TYPE_RX_def head_boot_def
      Let_def del: fold_simps)

lemma broadcast_payload_ok:
  assumes "1 \<le> im_length msg" and "im_length msg \<le> cap" and "im_length msg \<le> length (im_data msg)"
  shows "\<exists>p. broadcast_payload cap msg = Some p \<and> pl_pipe p = 0 \<and> pl_noack p \<and> pl_length p = im_length msg
    \<and> packet p = (if hd (im_data msg) = 0x91 then 0x92 else hd (im_data msg))
                 # take (im_length msg - 1) (tl (im_data msg))"
proof -
  obtain b bs where d: "im_data msg = b # bs" using assms by (cases "im_data msg") auto
  obtain n where n: "im_length msg = Suc n" using assms(1) by (cases "im_length msg") auto
  then have "n \<le> cap - 1" "n \<le> length bs" "cap \<noteq> 0" using assms(2,3) d by auto
  then have "memcpy (replicate (cap - 1) 0) bs n = Some (take n bs @ drop n (replicate (cap - 1) 0))"
    by (simp add: memcpy_def)
  then show ?thesis using d n \<open>n \<le> length bs\<close> \<open>cap \<noteq> 0\<close>
    by (cases n) (simp_all add: broadcast_payload_def Let_def packet_def)
qed

lemma head_ep_recv_tx:
  assumes "msgq_ok ops RX_MSGQ_MAX_ITEMS items" and "im_type msg = ESB_IPC_MSG_TYPE_TX"
    and "1 \<le> im_length msg" and "im_length msg \<le> cap" and "im_length msg \<le> length (im_data msg)"
  shows "\<exists>s' p. head_ep_recv ops cap msg s = Some (Some s') \<and> items (esb_rx_msgq s') = []
    \<and> hd_calls s' = hd_calls s @ [Esb_stop_rx, Esb_flush_tx, Esb_write_payload p]
    \<and> pl_pipe p = 0 \<and> pl_noack p \<and> pl_length p = im_length msg
    \<and> packet p = (if hd (im_data msg) = 0x91 then 0x92 else hd (im_data msg))
                 # take (im_length msg - 1) (tl (im_data msg))"
proof -
  obtain p where p: "broadcast_payload cap msg = Some p" "pl_pipe p = 0" "pl_noack p"
    "pl_length p = im_length msg"
    "packet p = (if hd (im_data msg) = 0x91 then 0x92 else hd (im_data msg))
       # take (im_length msg - 1) (tl (im_data msg))"
    using broadcast_payload_ok [OF assms(3-5)] by blast
  obtain q' where d: "msgq_drain (mq_get ops) (esb_rx_msgq s) = Some (items (esb_rx_msgq s), q')"
    "items q' = []" using msgq_drain_returns [OF assms(1)] by blast
  show ?thesis using p d assms(2) by (simp add: head_ep_recv_def head_call_def)
qed

text \<open>
  C7: a transmit command of the application core that fits the radio's payload buffer stops the
  receive window, empties the queue of packets of the previous window, flushes the transmit buffer and
  hands the driver one unacknowledged broadcast on pipe 0: the bytes of the command, with a leading
  0x91 turned into 0x92.
\<close>

theorem head_broadcast:
  assumes "msgq_ok ops RX_MSGQ_MAX_ITEMS items" and "im_type msg = ESB_IPC_MSG_TYPE_TX"
    and "1 \<le> im_length msg" and "im_length msg \<le> cap" and "im_length msg \<le> length (im_data msg)"
  shows "\<exists>s' p. head_ep_recv ops cap msg s = Some (Some s') \<and> items (esb_rx_msgq s') = []
    \<and> hd_calls s' = hd_calls s @ [Esb_stop_rx, Esb_flush_tx, Esb_write_payload p]
    \<and> pl_pipe p = 0 \<and> pl_noack p \<and> pl_length p = im_length msg
    \<and> packet p = (if hd (im_data msg) = 0x91 then 0x92 else hd (im_data msg))
                 # take (im_length msg - 1) (tl (im_data msg))"
  using assms by (rule head_ep_recv_tx)

theorem head_broadcast_witness:
  "\<exists>s' p. head_ep_recv (list_msgq 4) 32 \<lparr>im_type = 1, im_length = 3, im_data = [0x91, 7, 8]\<rparr>
      (head_boot 32 []) = Some (Some s')
    \<and> hd_calls s' = [Esb_stop_rx, Esb_flush_tx, Esb_write_payload p] \<and> packet p = [0x92, 7, 8]"
proof -
  have "hd_calls (head_boot 32 []) = []" by (simp add: head_boot_def Let_def)
  then show ?thesis
    using head_broadcast [of "list_msgq 4" "\<lambda>q. q" "\<lparr>im_type = 1, im_length = 3, im_data = [0x91, 7, 8]\<rparr>" 32
      "head_boot 32 []"]
    by (auto simp: RX_MSGQ_MAX_ITEMS_def list_msgq_ok ESB_IPC_MSG_TYPE_TX_def)
qed

end
