(* ===== verification/HeadApp.thy ===== *)
theory HeadApp
  imports EsbHead
begin

text \<open>
  The application core's side of the radio (src/main.c of the head image, the battery answer of the
  node image) and the hexadecimal codec of src/data/mqtt/rtt_mqtt.c: commands arrive as text
  "0x91 0x01 ..." and leave as bytes, packets arrive as bytes and are published as text.
\<close>

section \<open>strtol\<close>

definition is_space :: "char \<Rightarrow> bool" where
  "is_space c = (let n = of_char c :: nat in n = 32 \<or> (9 \<le> n \<and> n \<le> 13))"

definition hex_val :: "char \<Rightarrow> nat option" where
  "hex_val c =
     (let n = of_char c :: nat
      in if 48 \<le> n \<and> n \<le> 57 then Some (n - 48)
         else if 65 \<le> n \<and> n \<le> 70 then Some (n - 55)
         else if 97 \<le> n \<and> n \<le> 102 then Some (n - 87) else None)"

definition isxdigit :: "char \<Rightarrow> bool" where "isxdigit c = (hex_val c \<noteq> None)"

fun hex_digits :: "string \<Rightarrow> nat \<Rightarrow> nat \<times> string" where
  "hex_digits [] acc = (acc, [])"
| "hex_digits (c # cs) acc =
     (case hex_val c of None \<Rightarrow> (acc, c # cs) | Some v \<Rightarrow> hex_digits cs (16 * acc + v))"

text \<open>
  \<open>strtol(s, \&end, 16)\<close> with a 32-bit \<open>long\<close>: white space, a sign and a 0x prefix are skipped, the
  value saturates, and \<open>end\<close> is \<open>s\<close> itself when there is no digit.
\<close>

definition strtol_sign :: "string \<Rightarrow> bool \<times> string" where
  "strtol_sign s = (case s of c # cs \<Rightarrow> if c = CHR ''-'' then (True, cs)
                                     else if c = CHR ''+'' then (False, cs) else (False, s)
                    | [] \<Rightarrow> (False, []))"

definition strtol_prefix :: "string \<Rightarrow> string" where
  "strtol_prefix s =
     (case s of z # x # d # cs \<Rightarrow>
        if z = CHR ''0'' \<and> (x = CHR ''x'' \<or> x = CHR ''X'') \<and> isxdigit d then d # cs else s
      | _ \<Rightarrow> s)"

definition strtol16 :: "string \<Rightarrow> int \<times> string" where
  "strtol16 s =
     (let (neg, s2) = strtol_sign (dropWhile is_space s);
          s3 = strtol_prefix s2
      in if s3 = [] \<or> \<not> isxdigit (hd s3) then (0, s)
         else let (v, rest) = hex_digits s3 0
              in (if neg then max (- (2 ^ 31)) (- int v) else min (2 ^ 31 - 1) (int v), rest))"

section \<open>The codec\<close>

lemma hex_digits_length: "length (snd (hex_digits s acc)) \<le> length s"
  by (induction s acc rule: hex_digits.induct) (auto split: option.split)

lemma strtol_parts_length:
  "length (snd (strtol_sign s)) \<le> length s" "length (strtol_prefix s) \<le> length s"
  by (auto simp: strtol_sign_def strtol_prefix_def split: list.split)

lemma strtol16_length: "length (snd (strtol16 s)) \<le> length s"
proof -
  obtain neg s2 where s2: "strtol_sign (dropWhile is_space s) = (neg, s2)" by fastforce
  have "length s2 \<le> length s"
    using strtol_parts_length(1) [of "dropWhile is_space s"] length_dropWhile_le [of is_space s] s2 by simp
  then have "length (snd (hex_digits (strtol_prefix s2) 0)) \<le> length s"
    using hex_digits_length [of "strtol_prefix s2" 0] strtol_parts_length(2) [of s2] by linarith
  then show ?thesis by (auto simp: strtol16_def s2 Let_def split: prod.split)
qed

lemma xdigit_not_special:
  assumes "isxdigit c"
  shows "\<not> is_space c" "c \<noteq> CHR ''-''" "c \<noteq> CHR ''+''" "c \<noteq> CHR ''x''" "c \<noteq> CHR ''X''"
  using assms by (auto simp: isxdigit_def hex_val_def is_space_def Let_def split: if_splits)

lemma strtol16_digit:
  assumes "isxdigit c"
  shows "length (snd (strtol16 (c # cs))) < length (c # cs)"
proof -
  have pre: "\<exists>d ds. strtol_prefix (c # cs) = d # ds \<and> isxdigit d \<and> length ds \<le> length cs"
    using assms by (auto simp: strtol_prefix_def split: list.split)
  then obtain d ds where d: "strtol_prefix (c # cs) = d # ds" "isxdigit d" "length ds \<le> length cs" by blast
  have "length (snd (hex_digits (d # ds) 0)) \<le> length ds"
    using d(2) hex_digits_length by (auto simp: isxdigit_def split: option.split)
  then show ?thesis using d xdigit_not_special [OF assms]
    by (auto simp: strtol16_def strtol_sign_def Let_def split: prod.split)
qed

text \<open>\<open>hex_string_to_binary\<close>: the bytes stored, at most \<open>max_len\<close>; its result is their number.\<close>

function hex_string_to_binary :: "string \<Rightarrow> nat \<Rightarrow> u8 list" where
  "hex_string_to_binary [] max_len = []"
| "hex_string_to_binary (c # cs) max_len =
     (if max_len = 0 then []
      else if c = CHR ''0'' \<and> cs \<noteq> [] \<and> (hd cs = CHR ''x'' \<or> hd cs = CHR ''X'')
      then (let (v, rest) = strtol16 (tl cs)
            in word_of_int v # hex_string_to_binary rest (max_len - 1))
      else if isxdigit c
      then (let (v, rest) = strtol16 (c # cs)
            in word_of_int v # hex_string_to_binary rest (max_len - 1))
      else hex_string_to_binary cs max_len)"
  by pat_completeness auto
termination
proof (relation "measure (\<lambda>(s, n). length s)", goal_cases)
  case (2 c cs max_len x v rest)
  then have "rest = snd (strtol16 (tl cs))" by (metis snd_conv)
  then show ?case using 2 strtol16_length [of "tl cs"] by (cases cs) auto
next
  case (3 c cs max_len x v rest)
  then have "rest = snd (strtol16 (c # cs))" by (metis snd_conv)
  then show ?case using strtol16_digit [of c cs] 3 by auto
qed auto

declare hex_string_to_binary.simps [simp del]

text \<open>The loop of \<open>process_immediate_esb_rx\<close>: "0x\%02X" for every byte, separated by blanks.\<close>

definition hex_digit :: "nat \<Rightarrow> char" where
  "hex_digit n = (if n < 10 then char_of (48 + n) else char_of (55 + n))"

definition hex_byte :: "u8 \<Rightarrow> string" where
  "hex_byte b = ''0x'' @ [hex_digit (unat b div 16), hex_digit (unat b mod 16)]"

fun hex_format :: "u8 list \<Rightarrow> string" where
  "hex_format [] = []"
| "hex_format [b] = hex_byte b"
| "hex_format (b # bs) = hex_byte b @ '' '' @ hex_format bs"

lemma hex_digit_val: "n < 16 \<Longrightarrow> hex_val (hex_digit n) = Some n"
  by (auto simp: hex_digit_def hex_val_def Let_def take_bit_eq_mod)

lemma hex_val_blank: "hex_val CHR '' '' = None"
  by (simp add: hex_val_def)

lemma strtol16_two_digits:
  assumes "m < 16" and "n < 16" and "rest = [] \<or> hd rest = CHR '' ''"
  shows "strtol16 (hex_digit m # hex_digit n # rest) = (int (16 * m + n), rest)"
proof -
  have x: "isxdigit (hex_digit m)" "isxdigit (hex_digit n)"
    using assms(1,2) by (simp_all add: isxdigit_def hex_digit_val)
  have stop: "hex_digits rest acc = (acc, rest)" for acc
    using assms(3) by (cases rest) (auto simp: hex_val_blank)
  have "strtol_prefix (hex_digit m # hex_digit n # rest) = hex_digit m # hex_digit n # rest"
    using xdigit_not_special [OF x(2)] by (auto simp: strtol_prefix_def split: list.split)
  moreover have "16 * m + n \<le> 255" using assms by linarith
  ultimately show ?thesis
    using x xdigit_not_special [OF x(1)] assms(1,2)
    by (simp add: strtol16_def strtol_sign_def Let_def hex_digit_val stop)
qed

lemma hex_string_to_binary_byte:
  assumes "rest = [] \<or> hd rest = CHR '' ''" and "0 < max_len"
  shows "hex_string_to_binary (hex_byte b @ rest) max_len = b # hex_string_to_binary rest (max_len - 1)"
proof -
  have lim: "unat b div 16 < 16" "unat b mod 16 < 16"
    using unsigned_less [of b, where ?'a = nat] by (simp_all add: less_mult_imp_div_less)
  have "16 * (unat b div 16) + unat b mod 16 = unat b" by simp
  then have "(word_of_int (int (16 * (unat b div 16) + unat b mod 16)) :: u8) = b" by simp
  then show ?thesis using assms(2) strtol16_two_digits [OF lim assms(1)]
    by (simp add: hex_byte_def hex_string_to_binary.simps del: of_nat_add of_nat_mult)
qed

lemma hex_string_to_binary_blank:
  "hex_string_to_binary (CHR '' '' # cs) max_len = hex_string_to_binary cs max_len"
  by (cases cs) (auto simp: hex_string_to_binary.simps isxdigit_def hex_val_blank)

lemma hex_decode_format: "hex_string_to_binary (hex_format bs) max_len = take max_len bs"
proof (induction bs arbitrary: max_len rule: hex_format.induct)
  case 1
  then show ?case by (simp add: hex_string_to_binary.simps)
next
  case (2 b)
  show ?case
  proof (cases "max_len = 0")
    case True
    then show ?thesis by (simp add: hex_byte_def hex_string_to_binary.simps)
  next
    case False
    then show ?thesis using hex_string_to_binary_byte [of "[]" max_len b]
      by (simp add: hex_string_to_binary.simps take_Cons')
  qed
next
  case (3 b b' bs)
  show ?case
  proof (cases "max_len = 0")
    case True
    then show ?thesis by (simp add: hex_byte_def hex_string_to_binary.simps)
  next
    case False
    then show ?thesis
      using hex_string_to_binary_byte [of "CHR '' '' # hex_format (b' # bs)" max_len b] 3
      by (simp add: hex_string_to_binary_blank take_Cons')
  qed
qed

text \<open>
  C13: the text the head publishes for a packet decodes, with the decoder it uses for commands, to
  exactly the bytes of the packet, up to the size of the decoder's buffer.
\<close>

theorem hex_roundtrip: "hex_string_to_binary (hex_format bs) max_len = take max_len bs"
  by (rule hex_decode_format)

lemma hex_format_length: "length (hex_format bs) = 5 * length bs - 1"
  by (induction bs rule: hex_format.induct) (simp_all add: hex_byte_def)

section \<open>The application core\<close>

text \<open>
  What leaves the component: messages to the network core and responses handed to the MQTT side
  (topic, node id, text).
\<close>

datatype app_out =
    Ipc_tx "u8 list"
  | Publish_response string string string

record head_app =
  current_res_topic :: string
  latest_rx_length :: nat
  latest_rx_data :: "u8 list"
  ipc_rx_sem :: nat
  app_out :: "app_out list"

definition head_app_boot :: head_app where
  "head_app_boot = \<lparr>current_res_topic = [], latest_rx_length = 0, latest_rx_data = replicate 32 0,
     ipc_rx_sem = 0, app_out = []\<rparr>"

definition emit :: "app_out \<Rightarrow> head_app \<Rightarrow> head_app" where
  "emit c s = s\<lparr>app_out := app_out s @ [c]\<rparr>"

text \<open>\<open>strncpy\<close> of at most 127 characters into a buffer of 128 that is then terminated.\<close>

definition set_current_res_topic :: "string \<Rightarrow> head_app \<Rightarrow> head_app" where
  "set_current_res_topic topic s = s\<lparr>current_res_topic := take 127 topic\<rparr>"

text \<open>
  \<open>node\<close> is the hardware id, \<open>None\<close> when \<open>id_get\<close> fails. The text is written with its terminator into
  \<open>hex_resp[128]\<close>; a longer one is a fault.
\<close>

definition process_immediate_esb_rx ::
  "string option \<Rightarrow> u8 list \<Rightarrow> head_app \<Rightarrow> head_app option" where
  "process_immediate_esb_rx node bs s =
     (let node_id = (case node of Some i \<Rightarrow> i | None \<Rightarrow> ''NA'')
      in if length (hex_format bs) + 1 > 128 then None
         else if current_res_topic s \<noteq> []
         then Some (emit (Publish_response (current_res_topic s) node_id (hex_format bs)) s)
         else Some s)"

text \<open>
  \<open>recv_cb\<close>. The copy into \<open>latest_rx_msg\<close> takes the whole 34-byte structure, whatever follows the
  packet in the receive buffer.
\<close>

definition recv_cb :: "string option \<Rightarrow> esb_ipc_msg \<Rightarrow> head_app \<Rightarrow> head_app option" where
  "recv_cb node msg s =
     (if im_type msg = ESB_IPC_MSG_TYPE_RX
      then (if im_length msg > length (im_data msg) then None
            else case process_immediate_esb_rx node (take (im_length msg) (im_data msg)) s of
                   None \<Rightarrow> None
                 | Some s1 \<Rightarrow> Some (s1\<lparr>latest_rx_length := im_length msg,
                                      latest_rx_data := take 32 (im_data msg),
                                      ipc_rx_sem := min 1 (ipc_rx_sem s1 + 1)\<rparr>))
      else Some s)"

definition get_latest_rx_string :: "head_app \<Rightarrow> u8 list \<times> nat" where
  "get_latest_rx_string s = (latest_rx_data s, latest_rx_length s)"

text \<open>
  \<open>ipc_send_and_wait\<close>: \<open>send_ret\<close> and \<open>take_ret\<close> are the results of \<open>ipc_service_send\<close> and of the
  final wait on the semaphore, which the preceding loop has emptied.
\<close>

definition ipc_send_and_wait ::
  "u8 list \<Rightarrow> nat \<Rightarrow> int \<Rightarrow> int \<Rightarrow> head_app \<Rightarrow> (int \<times> head_app) option" where
  "ipc_send_and_wait bs len send_ret take_ret s =
     (let n = (if len > 32 then 32 else len)
      in case memcpy (replicate 32 0) bs n of
           None \<Rightarrow> None
         | Some d \<Rightarrow>
             (let s1 = emit (Ipc_tx (of_nat ESB_IPC_MSG_TYPE_TX # of_nat n # take n d))
                         (s\<lparr>ipc_rx_sem := 0\<rparr>)
              in Some (if send_ret < 0 then send_ret else take_ret, s1)))"

text \<open>\<open>ipc_send_msg\<close>: the header and \<open>length\<close> bytes of the structure; the length byte is 8 bits wide.\<close>

definition ipc_send_msg :: "esb_ipc_msg \<Rightarrow> head_app \<Rightarrow> head_app" where
  "ipc_send_msg msg s =
     emit (Ipc_tx (of_nat (im_type msg) # of_nat (im_length msg)
                   # take (im_length msg) (im_data msg))) s"

definition bytes_of :: "string \<Rightarrow> u8 list" where
  "bytes_of s = List.map (\<lambda>c. of_nat (of_char c)) s"

text \<open>The node id message of \<open>main\<close>.\<close>

definition node_id_msg :: "string \<Rightarrow> esb_ipc_msg" where
  "node_id_msg hostname =
     (let l = length hostname mod 256; n = (if l > 32 then 32 else l)
      in \<lparr>im_type = ESB_IPC_MSG_TYPE_NODE_ID, im_length = n, im_data = take n (bytes_of hostname)\<rparr>)"

text \<open>The battery answer of the node's application core, a little-endian \<open>int32_t\<close>.\<close>

definition int32_bytes :: "int \<Rightarrow> u8 list" where
  "int32_bytes v = List.map (\<lambda>i. word_of_int (v div 256 ^ i)) [0, 1, 2, 3]"

definition ipc_send_battery :: "int \<Rightarrow> head_app \<Rightarrow> head_app" where
  "ipc_send_battery battery_mv s =
     ipc_send_msg \<lparr>im_type = ESB_IPC_MSG_TYPE_BATT, im_length = 4, im_data = int32_bytes battery_mv\<rparr> s"

definition node_recv_cb :: "int \<Rightarrow> esb_ipc_msg \<Rightarrow> head_app \<Rightarrow> head_app option" where
  "node_recv_cb battery_mv_avg msg s =
     (if im_type msg = ESB_IPC_MSG_TYPE_RX
      then (if im_length msg > length (im_data msg) then None
            else Some (s\<lparr>latest_rx_length := im_length msg, latest_rx_data := take 32 (im_data msg),
                         ipc_rx_sem := min 1 (ipc_rx_sem s + 1)\<rparr>))
      else if im_type msg = ESB_IPC_MSG_TYPE_REQ_BATT then Some (ipc_send_battery battery_mv_avg s)
      else Some s)"

text \<open>
  C16: a packet forwarded by the network core is published on the response topic of the last command as
  text that decodes back to the packet, and wakes the waiting command, exactly when it has at most 25
  bytes; a longer packet, which the radio can deliver, overruns the 128-byte text buffer.
\<close>

theorem head_publishes_packet:
  assumes "im_type msg = ESB_IPC_MSG_TYPE_RX" and "im_length msg \<le> length (im_data msg)"
    and "current_res_topic s \<noteq> []"
  shows "if im_length msg \<le> 25
    then \<exists>s' txt. recv_cb node msg s = Some s' \<and> ipc_rx_sem s' = 1
      \<and> app_out s' = app_out s @ [Publish_response (current_res_topic s)
             (case node of Some i \<Rightarrow> i | None \<Rightarrow> ''NA'') txt]
      \<and> hex_string_to_binary txt 32 = take (im_length msg) (im_data msg)
    else recv_cb node msg s = None"
  using assms
  by (auto simp: recv_cb_def process_immediate_esb_rx_def hex_format_length hex_decode_format emit_def Let_def)

theorem head_publishes_packet_witness:
  "recv_cb None \<lparr>im_type = 2, im_length = 26, im_data = replicate 26 0\<rparr>
     (head_app_boot\<lparr>current_res_topic := ''a/b''\<rparr>) = None"
  using head_publishes_packet [of "\<lparr>im_type = 2, im_length = 26, im_data = replicate 26 0\<rparr>"
      "head_app_boot\<lparr>current_res_topic := ''a/b''\<rparr>" None]
  by (simp add: ESB_IPC_MSG_TYPE_RX_def)

end
