(* ===== verification/EsbNode.thy ===== *)
theory EsbNode
  imports EsbIpc
begin

text \<open>
  The network core of a cluster node (cluster_node_multi_image_fota/net_ipc/src/main.c): the radio
  listens (PRX) for a broadcast of the cluster head, answers it in PTX mode with retransmissions
  chosen by the ring the node belongs to, and returns to PRX. The interrupt handler
  \<open>event_handler\<close> communicates with the main loop through three atomic flags.

  State: one record field per static variable. The handler runs between any two blocks of the main
  loop; the three \<open>atomic_cas\<close> blocks are \<open>block_ptx\<close>, \<open>block_retry\<close> and \<open>block_prx\<close>, executed in
  program order by \<open>node_step\<close>, the counter \<open>nd_pc\<close> being the block the loop reaches next. Driver
  results come from the oracle \<open>res\<close>, random numbers are part of the step. \<open>nd_in_flight\<close> is a ghost:
  a payload was handed to the driver in PTX mode and its TX event is still to come. Log output is
  left out.
\<close>

section \<open>Node table\<close>

record node_entry =
  mac_str :: string
  pkt_idx :: nat
  ne_channel :: nat
  ne_pipe :: nat

definition entry :: "string \<Rightarrow> nat \<Rightarrow> nat \<Rightarrow> nat \<Rightarrow> node_entry" where
  "entry m i c p = \<lparr>mac_str = m, pkt_idx = i, ne_channel = c, ne_pipe = p\<rparr>"

definition node_table :: "node_entry list" where
  "node_table = [
     entry ''0f0e'' 4 3 1, entry ''0e86'' 5 3 2, entry ''0e68'' 6 3 3, entry ''0e6e'' 7 3 4,
     entry ''0e7c'' 8 3 5, entry ''0e52'' 9 3 6, entry ''0e66'' 10 3 7,
     entry ''0e62'' 4 7 1, entry ''0e88'' 5 7 2, entry ''0e60'' 6 7 3, entry ''0e56'' 7 7 4,
     entry ''0f7a'' 8 7 5, entry ''0f8a'' 9 7 6, entry ''0e6a'' 10 7 7,
     entry ''0e5e'' 4 9 1, entry ''0e54'' 5 9 2, entry ''0e82'' 6 9 3, entry ''0e5c'' 7 9 4,
     entry ''0e8a'' 8 9 5, entry ''0e7e'' 9 9 6, entry ''0e6c'' 10 9 7,
     entry ''0e64'' 4 72 1, entry ''0e74'' 5 72 2, entry ''0e58'' 6 72 3, entry ''0f26'' 7 72 4,
     entry ''0f20'' 8 72 5, entry ''0f1a'' 9 72 6, entry ''0f1c'' 10 72 7,
     entry ''0f14'' 4 77 1, entry ''0f1e'' 5 77 2, entry ''0f04'' 6 77 3, entry ''0f22'' 7 77 4,
     entry ''0f10'' 8 77 5, entry ''0f0a'' 9 77 6, entry ''0e76'' 10 77 7]"

text \<open>\<open>strncasecmp(a, b, n) == 0\<close> in the C locale.\<close>

definition c_tolower :: "char \<Rightarrow> char" where
  "c_tolower c = (let n = of_char c :: nat in if 65 \<le> n \<and> n \<le> 90 then char_of (n + 32) else c)"

fun strncasecmp_eq :: "string \<Rightarrow> string \<Rightarrow> nat \<Rightarrow> bool" where
  "strncasecmp_eq a b 0 = True"
| "strncasecmp_eq a b (Suc n) =
     (c_tolower (c_hd a) = c_tolower (c_hd b)
        \<and> (c_hd a = NUL \<or> strncasecmp_eq (tl a) (tl b) n))"

definition mac_suffix_str :: "string \<Rightarrow> string" where
  "mac_suffix_str node_id =
     (if length node_id \<ge> 4 then drop (length node_id - 4) node_id else node_id)"

definition lookup_node :: "string \<Rightarrow> node_entry option" where
  "lookup_node node_id =
     List.find (\<lambda>e. strncasecmp_eq (mac_suffix_str node_id) (mac_str e) 4) node_table"

section \<open>State\<close>

datatype main_block = Block_ptx | Block_retry | Block_prx

record esb_node =
  do_switch_to_ptx :: bool
  do_switch_to_prx :: bool
  do_retry_ptx :: bool
  last_tx_attempts :: nat
  current_packet_total_attempts :: nat
  tx_retried :: bool
  ptx_retransmit_delay :: nat
  ptx_retransmit_count :: nat
  ptx_tx_output_power :: int
  selected_ring :: nat
  my_packet_index :: nat
  my_channel :: nat
  my_pipe :: nat
  rx_length :: nat
  rx_data :: "u8 list"
  tx_pipe :: nat
  tx_data :: "u8 list"
  last_rssi :: u8
  battery_mv_avg :: int
  remote_node_id :: "u8 list"
  node_id_sem :: nat
  batt_recv_sem :: nat
  nd_pc :: main_block
  nd_halted :: bool
  nd_in_flight :: bool
  nd_calls :: "fw_call list"

text \<open>The values of the static initialisers; \<open>cap\<close> is the size of a driver payload buffer.\<close>

definition node_boot :: "nat \<Rightarrow> esb_node" where
  "node_boot cap =
     \<lparr>do_switch_to_ptx = False, do_switch_to_prx = False, do_retry_ptx = False,
      last_tx_attempts = 0, current_packet_total_attempts = 0, tx_retried = False,
      ptx_retransmit_delay = 600, ptx_retransmit_count = 3, ptx_tx_output_power = 0,
      selected_ring = 3, my_packet_index = 0xFF, my_channel = 3, my_pipe = 1,
      rx_length = 0, rx_data = replicate cap 0, tx_pipe = 0,
      tx_data = [0x93, 0, 0, 0, 0, 0, 0, 0], last_rssi = 0, battery_mv_avg = 0,
      remote_node_id = replicate 33 0, node_id_sem = 0, batt_recv_sem = 0,
      nd_pc = Block_ptx, nd_halted = False, nd_in_flight = False, nd_calls = []\<rparr>"

definition node_call :: "fw_call \<Rightarrow> esb_node \<Rightarrow> esb_node" where
  "node_call c s = s\<lparr>nd_calls := nd_calls s @ [c]\<rparr>"

section \<open>Messages from the application core\<close>

text \<open>A little-endian \<open>int32_t\<close>; \<open>k_sem_give\<close> on a semaphore with limit 1.\<close>

definition le_int32 :: "u8 list \<Rightarrow> int" where
  "le_int32 bs = s32 (foldr (\<lambda>b acc. uint b + 256 * acc) bs 0)"

definition sem_give1 :: "nat \<Rightarrow> nat" where "sem_give1 n = min 1 (n + 1)"

definition node_ep_recv :: "esb_ipc_msg \<Rightarrow> esb_node \<Rightarrow> esb_node option" where
  "node_ep_recv msg s =
     (if im_type msg = ESB_IPC_MSG_TYPE_NODE_ID
      then (case store_node_id (remote_node_id s) msg of
              None \<Rightarrow> None
            | Some b \<Rightarrow> Some (s\<lparr>remote_node_id := b, node_id_sem := sem_give1 (node_id_sem s)\<rparr>))
      else if im_type msg = ESB_IPC_MSG_TYPE_BATT
      then (if im_length msg = 4
            then (if length (im_data msg) < 4 then None
                  else Some (s\<lparr>battery_mv_avg := le_int32 (take 4 (im_data msg)),
                              batt_recv_sem := sem_give1 (batt_recv_sem s)\<rparr>))
            else Some s)
      else Some s)"

text \<open>
  \<open>request_battery_from_app\<close>, run from the system work queue: a stale semaphore is cleared, the
  request is sent and the answer awaited for 5 ms. \<open>send_ret\<close> and \<open>take_ret\<close> are the results of the
  two kernel calls; the value itself arrives through \<open>node_ep_recv\<close>.
\<close>

definition request_battery_from_app :: "int \<Rightarrow> int \<Rightarrow> esb_node \<Rightarrow> int \<times> esb_node" where
  "request_battery_from_app send_ret take_ret s =
     (let s1 = node_call (Ipc_send [of_nat ESB_IPC_MSG_TYPE_REQ_BATT, 0]) (s\<lparr>batt_recv_sem := 0\<rparr>)
      in if send_ret < 0 then (send_ret, s1)
         else let s2 = node_call (Sem_take_ms 5) s1
              in if take_ret < 0 then (take_ret, s2) else (0, s2))"

section \<open>Radio events\<close>

text \<open>
  \<open>RX_RECEIVED r rssi\<close>: \<open>r\<close> is the outcome of \<open>esb_read_rx_payload\<close>, the bytes of the packet or
  \<open>None\<close> for an error.
\<close>

datatype esb_event =
    EVENT_TX_SUCCESS nat
  | EVENT_TX_FAILED nat
  | EVENT_RX_RECEIVED "u8 list option" u8

text \<open>The fallback scan of all received bytes for a ring indicator.\<close>

fun ring_scan :: "u8 list \<Rightarrow> nat option" where
  "ring_scan [] = None"
| "ring_scan (b # bs) =
     (if b = 0x11 \<or> b = 0x21 \<or> b = 0x31 then Some 1
      else if b = 0x12 \<or> b = 0x22 \<or> b = 0x32 then Some 2
      else if b = 0x13 \<or> b = 0x23 \<or> b = 0x33 then Some 3
      else ring_scan bs)"

definition prepare_reply :: "esb_node \<Rightarrow> esb_node" where
  "prepare_reply s =
     (let d1 = (tx_data s)[1 := rx_data s ! 1];
          d2 = d1[2 := (if my_packet_index s \<noteq> 0xFF \<and> my_packet_index s < rx_length s
                        then rx_data s ! my_packet_index s else 0)];
          d3 = d2[3 := word_of_int (c_div (battery_mv_avg s) 20)];
          d4 = d3[4 := last_rssi s];
          d5 = d4[5 := of_nat (last_tx_attempts s)]
      in (node_call Work_submit (s\<lparr>tx_data := d5\<rparr>))\<lparr>do_switch_to_ptx := True\<rparr>)"

definition select_ring :: "esb_node \<Rightarrow> esb_node" where
  "select_ring s =
     (if my_packet_index s \<noteq> 0xFF \<and> my_packet_index s < rx_length s
      then (let ring_val = unat (rx_data s ! my_packet_index s AND 0x0F)
            in if 1 \<le> ring_val \<and> ring_val \<le> 3 then s\<lparr>selected_ring := ring_val\<rparr> else s)
      else (case ring_scan (take (rx_length s) (rx_data s)) of
              Some r \<Rightarrow> s\<lparr>selected_ring := r\<rparr> | None \<Rightarrow> s))"

definition on_rx :: "u8 list option \<Rightarrow> u8 \<Rightarrow> esb_node \<Rightarrow> esb_node" where
  "on_rx r rssi s =
     (case r of
        None \<Rightarrow> s
      | Some p \<Rightarrow>
          (let s1 = s\<lparr>rx_length := length p, rx_data := p @ drop (length p) (rx_data s),
                      last_rssi := rssi\<rparr>;
               s2 = (if rx_data s1 ! 0 = 0x92 then prepare_reply s1 else s1)
           in select_ring s2))"

definition add_u8 :: "nat \<Rightarrow> nat \<Rightarrow> nat" where "add_u8 a b = (a + b mod 256) mod 256"
definition add_u16 :: "nat \<Rightarrow> nat \<Rightarrow> nat" where "add_u16 a b = (a + b mod 2 ^ 16) mod 2 ^ 16"

definition on_tx_success :: "nat \<Rightarrow> esb_node \<Rightarrow> esb_node" where
  "on_tx_success attempts s =
     (let t = add_u8 (current_packet_total_attempts s) attempts
      in s\<lparr>current_packet_total_attempts := t, last_tx_attempts := t, tx_retried := False,
           do_switch_to_prx := True\<rparr>)"

definition on_tx_failed :: "nat \<Rightarrow> esb_node \<Rightarrow> esb_node" where
  "on_tx_failed attempts s =
     (let t = add_u8 (current_packet_total_attempts s) attempts
      in if \<not> tx_retried s
         then s\<lparr>current_packet_total_attempts := t,
                ptx_retransmit_count := add_u16 (ptx_retransmit_count s)
                  (if selected_ring s = 1 then 5 else if selected_ring s = 2 then 7 else 10),
                ptx_tx_output_power := 3, tx_retried := True, do_retry_ptx := True\<rparr>
         else (node_call Esb_flush_tx
                (s\<lparr>current_packet_total_attempts := t, last_tx_attempts := t\<rparr>))
                \<lparr>tx_retried := False, do_switch_to_prx := True\<rparr>)"

definition event_handler :: "esb_event \<Rightarrow> esb_node \<Rightarrow> esb_node" where
  "event_handler ev s =
     (case ev of
        EVENT_RX_RECEIVED r rssi \<Rightarrow> on_rx r rssi s
      | EVENT_TX_SUCCESS n \<Rightarrow> on_tx_success n s
      | EVENT_TX_FAILED n \<Rightarrow> on_tx_failed n s)"

section \<open>Role switches\<close>

definition prx_init_calls :: "esb_node \<Rightarrow> fw_call list" where
  "prx_init_calls s =
     [Esb_init \<lparr>ec_mode = ESB_MODE_PRX, ec_retransmit_delay = None, ec_retransmit_count = None,
                ec_tx_output_power = None\<rparr>,
      Esb_set_rf_channel (my_channel s), Esb_set_base_address_0 base_addr_0,
      Esb_set_base_address_1 base_addr_1, Esb_set_prefixes addr_prefix 1]"

definition ptx_init_calls :: "esb_node \<Rightarrow> fw_call list" where
  "ptx_init_calls s =
     [Esb_init \<lparr>ec_mode = ESB_MODE_PTX, ec_retransmit_delay = Some (ptx_retransmit_delay s),
                ec_retransmit_count = Some (ptx_retransmit_count s),
                ec_tx_output_power = Some (ptx_tx_output_power s)\<rparr>,
      Esb_set_rf_channel (my_channel s), Esb_set_base_address_0 base_addr_0,
      Esb_set_base_address_1 base_addr_1, Esb_set_prefixes addr_prefix (length addr_prefix)]"

definition run_calls ::
  "(nat \<Rightarrow> fw_call \<Rightarrow> int) \<Rightarrow> fw_call list \<Rightarrow> esb_node \<Rightarrow> int \<times> esb_node" where
  "run_calls res cs s =
     (let (err, log) = seq_calls res cs (nd_calls s) in (err, s\<lparr>nd_calls := log\<rparr>))"

definition esb_prx_initialize ::
  "(nat \<Rightarrow> fw_call \<Rightarrow> int) \<Rightarrow> esb_node \<Rightarrow> int \<times> esb_node" where
  "esb_prx_initialize res s = run_calls res (prx_init_calls s) s"

definition esb_ptx_initialize ::
  "(nat \<Rightarrow> fw_call \<Rightarrow> int) \<Rightarrow> esb_node \<Rightarrow> int \<times> esb_node" where
  "esb_ptx_initialize res s = run_calls res (ptx_init_calls s) s"

text \<open>\<open>esb_stop_rx\<close> (its result is ignored) and \<open>esb_disable\<close>: an attempt in flight is abandoned.\<close>

definition radio_stop :: "esb_node \<Rightarrow> esb_node" where
  "radio_stop s = (node_call Esb_disable (node_call Esb_stop_rx s))\<lparr>nd_in_flight := False\<rparr>"

definition enter_prx :: "(nat \<Rightarrow> fw_call \<Rightarrow> int) \<Rightarrow> esb_node \<Rightarrow> int \<times> esb_node" where
  "enter_prx res s =
     (let (err, s1) = esb_prx_initialize res (radio_stop s)
      in if err \<noteq> 0 then (err, s1) else run_calls res [Esb_start_rx] s1)"

definition tx_payload :: "esb_node \<Rightarrow> esb_payload" where
  "tx_payload s =
     \<lparr>pl_length = length (tx_data s), pl_pipe = tx_pipe s, pl_noack = False, pl_data = tx_data s\<rparr>"

definition enter_ptx :: "(nat \<Rightarrow> fw_call \<Rightarrow> int) \<Rightarrow> esb_node \<Rightarrow> int \<times> esb_node" where
  "enter_ptx res s =
     (let (err, s1) = esb_ptx_initialize res (radio_stop s)
      in if err \<noteq> 0 then (err, s1)
         else let s2 = s1\<lparr>tx_pipe := my_pipe s1\<rparr>;
                  (err, s3) = run_calls res [Esb_write_payload (tx_payload s2)] s2
              in if err \<noteq> 0
                 then (err, if err = - ENOMEM then node_call Esb_flush_tx s3 else s3)
                 else (0, s3\<lparr>nd_in_flight := True\<rparr>))"

section \<open>Main\<close>

text \<open>
  The resolution of the node id at boot. The name of the buffer is read as a C string; every
  character is a byte.
\<close>

definition chars_of :: "u8 list \<Rightarrow> string" where
  "chars_of bs = List.map (\<lambda>b. char_of (unat b)) (c_string bs)"

definition resolve_node :: "esb_node \<Rightarrow> esb_node" where
  "resolve_node s =
     (if remote_node_id s ! 0 \<noteq> 0
      then (case lookup_node (chars_of (remote_node_id s)) of
              Some e \<Rightarrow> s\<lparr>my_packet_index := pkt_idx e, my_channel := ne_channel e,
                          my_pipe := ne_pipe e\<rparr>
            | None \<Rightarrow> s)
      else s)"

text \<open>
  \<open>main\<close> before its loop; \<open>clk\<close> is the result of \<open>clocks_start\<close>. While \<open>ipc_init\<close> waits for the
  endpoint the application core may send messages: \<open>msgs\<close> are those received before the node id is
  read. \<open>None\<close>: a message was malformed.
\<close>

fun recv_all :: "esb_ipc_msg list \<Rightarrow> esb_node \<Rightarrow> esb_node option" where
  "recv_all [] s = Some s"
| "recv_all (m # ms) s = (case node_ep_recv m s of None \<Rightarrow> None | Some s' \<Rightarrow> recv_all ms s')"

definition node_main_init ::
  "(nat \<Rightarrow> fw_call \<Rightarrow> int) \<Rightarrow> int \<Rightarrow> esb_ipc_msg list \<Rightarrow> esb_node \<Rightarrow> esb_node option" where
  "node_main_init res clk msgs s =
     (if clk \<noteq> 0 then Some (s\<lparr>nd_halted := True\<rparr>)
      else let (err, log) = ipc_endpoint_init res (nd_calls s)
      in if err \<noteq> 0 then Some (s\<lparr>nd_calls := log, nd_halted := True\<rparr>)
      else case recv_all msgs (s\<lparr>nd_calls := log\<rparr>) of
        None \<Rightarrow> None
      | Some s1 \<Rightarrow>
          (let (err, s2) = esb_prx_initialize res (resolve_node s1)
           in if err \<noteq> 0 then Some (s2\<lparr>nd_halted := True\<rparr>)
           else let (err, s3) = run_calls res [Esb_start_rx] s2
           in Some (if err \<noteq> 0 then s3\<lparr>nd_halted := True\<rparr> else s3)))"

definition stagger_us :: "nat \<Rightarrow> nat \<Rightarrow> nat" where
  "stagger_us ring rnd =
     (if ring = 1 then rnd mod 251
      else if ring = 2 then 500 + rnd mod 501
      else 1500 + rnd mod 501)"

definition backoff_us :: "nat \<Rightarrow> nat \<Rightarrow> nat" where
  "backoff_us ring rnd =
     (if ring = 1 then rnd mod 201
      else if ring = 2 then 500 + rnd mod 501
      else 1500 + rnd mod 501)"

definition enter_ptx_or_prx :: "(nat \<Rightarrow> fw_call \<Rightarrow> int) \<Rightarrow> esb_node \<Rightarrow> esb_node" where
  "enter_ptx_or_prx res s =
     (let (err, s1) = enter_ptx res s in if err \<noteq> 0 then snd (enter_prx res s1) else s1)"

definition block_ptx :: "(nat \<Rightarrow> fw_call \<Rightarrow> int) \<Rightarrow> nat \<Rightarrow> esb_node \<Rightarrow> esb_node" where
  "block_ptx res rnd s =
     (if do_switch_to_ptx s
      then let s1 = s\<lparr>do_switch_to_ptx := False, ptx_retransmit_delay := 600,
                      ptx_retransmit_count := 3, ptx_tx_output_power := 0,
                      current_packet_total_attempts := 0\<rparr>;
               us = stagger_us (selected_ring s1) rnd
           in enter_ptx_or_prx res (if us > 0 then node_call (Busy_wait us) s1 else s1)
      else s)"

definition block_retry :: "(nat \<Rightarrow> fw_call \<Rightarrow> int) \<Rightarrow> nat \<Rightarrow> esb_node \<Rightarrow> esb_node" where
  "block_retry res rnd s =
     (if do_retry_ptx s
      then enter_ptx_or_prx res
             (s\<lparr>do_retry_ptx := False,
                ptx_retransmit_delay :=
                  add_u16 (ptx_retransmit_delay s) (backoff_us (selected_ring s) rnd)\<rparr>)
      else s)"

definition block_prx :: "(nat \<Rightarrow> fw_call \<Rightarrow> int) \<Rightarrow> esb_node \<Rightarrow> esb_node" where
  "block_prx res s =
     (if do_switch_to_prx s
      then let (err, s1) = enter_prx res (s\<lparr>do_switch_to_prx := False\<rparr>)
           in if err \<noteq> 0 then s1\<lparr>nd_halted := True\<rparr> else s1
      else s)"

text \<open>
  One step of the program: an interrupt, a message or a battery request at any time, or the next
  block of the loop. A TX event happens only for a payload in flight, which it ends. A message that
  faults stops the core.
\<close>

datatype node_step =
    Isr esb_event
  | Ipc esb_ipc_msg
  | Battery_work int int
  | Main nat

definition node_step :: "(nat \<Rightarrow> fw_call \<Rightarrow> int) \<Rightarrow> node_step \<Rightarrow> esb_node \<Rightarrow> esb_node" where
  "node_step res st s =
     (case st of
        Isr (EVENT_RX_RECEIVED r rssi) \<Rightarrow> event_handler (EVENT_RX_RECEIVED r rssi) s
      | Isr ev \<Rightarrow> if nd_in_flight s then (event_handler ev s)\<lparr>nd_in_flight := False\<rparr> else s
      | Ipc m \<Rightarrow> (case node_ep_recv m s of Some s' \<Rightarrow> s' | None \<Rightarrow> s\<lparr>nd_halted := True\<rparr>)
      | Battery_work sr tr \<Rightarrow> snd (request_battery_from_app sr tr s)
      | Main rnd \<Rightarrow>
          if nd_halted s then s
          else (case nd_pc s of
                  Block_ptx \<Rightarrow> (block_ptx res rnd s)\<lparr>nd_pc := Block_retry\<rparr>
                | Block_retry \<Rightarrow> (block_retry res rnd s)\<lparr>nd_pc := Block_prx\<rparr>
                | Block_prx \<Rightarrow> (block_prx res s)\<lparr>nd_pc := Block_ptx\<rparr>))"

section \<open>What the role switches keep\<close>

definition node_frame :: "esb_node \<Rightarrow> esb_node \<Rightarrow> bool" where
  "node_frame s s' \<longleftrightarrow>
     s'\<lparr>tx_pipe := 0, nd_in_flight := False, nd_calls := []\<rparr> =
     s\<lparr>tx_pipe := 0, nd_in_flight := False, nd_calls := []\<rparr>"

lemma node_frame_refl: "node_frame s s"
  by (simp add: node_frame_def)

lemma node_frame_trans: "node_frame s t \<Longrightarrow> node_frame t u \<Longrightarrow> node_frame s u"
  by (simp add: node_frame_def)

lemma node_frame_upd:
  "node_frame s (s'\<lparr>tx_pipe := p\<rparr>) = node_frame s s'"
  "node_frame s (s'\<lparr>nd_in_flight := f\<rparr>) = node_frame s s'"
  "node_frame s (s'\<lparr>nd_calls := c\<rparr>) = node_frame s s'"
  by (simp_all add: node_frame_def)

lemma node_frame_fields:
  assumes "node_frame s s'"
  shows "do_switch_to_ptx s' = do_switch_to_ptx s" "do_switch_to_prx s' = do_switch_to_prx s"
    "do_retry_ptx s' = do_retry_ptx s" "last_tx_attempts s' = last_tx_attempts s"
    "current_packet_total_attempts s' = current_packet_total_attempts s"
    "tx_retried s' = tx_retried s" "ptx_retransmit_delay s' = ptx_retransmit_delay s"
    "ptx_retransmit_count s' = ptx_retransmit_count s"
    "ptx_tx_output_power s' = ptx_tx_output_power s" "selected_ring s' = selected_ring s"
    "my_packet_index s' = my_packet_index s" "my_channel s' = my_channel s" "my_pipe s' = my_pipe s"
    "tx_data s' = tx_data s" "battery_mv_avg s' = battery_mv_avg s" "nd_pc s' = nd_pc s"
    "nd_halted s' = nd_halted s"
  using assms by (cases s; cases s'; simp add: node_frame_def)+

lemma run_calls_frame: "node_frame s (snd (run_calls res cs t)) = node_frame s t"
  by (simp add: run_calls_def split_beta node_frame_upd)

lemma radio_stop_frame: "node_frame s (radio_stop t) = node_frame s t"
  by (simp add: radio_stop_def node_call_def node_frame_upd)

lemma enter_prx_frame: "node_frame s (snd (enter_prx res t)) = node_frame s t"
  by (simp add: enter_prx_def esb_prx_initialize_def split_beta Let_def run_calls_frame radio_stop_frame)

lemma enter_ptx_frame: "node_frame s (snd (enter_ptx res t)) = node_frame s t"
  by (simp add: enter_ptx_def esb_ptx_initialize_def node_call_def split_beta Let_def run_calls_frame
      radio_stop_frame node_frame_upd)

lemma enter_ptx_or_prx_frame: "node_frame s (enter_ptx_or_prx res s)"
  by (simp add: enter_ptx_or_prx_def split_beta Let_def enter_ptx_frame enter_prx_frame
      node_frame_refl)

lemmas enter_ptx_or_prx_fields = node_frame_fields [OF enter_ptx_or_prx_frame]

lemma enter_prx_fields: "node_frame s (snd (enter_prx res s))"
  by (simp add: enter_prx_frame node_frame_refl)

section \<open>The invariant of the retransmission parameters\<close>

text \<open>
  The count is at its default 3 unless a first failure raised it, by 10 at most; while it is raised,
  an attempt in flight is a retried one (so its failure gives up instead of raising the count again)
  and a pending retry has nothing in flight.
\<close>

definition retransmit_ok :: "bool \<Rightarrow> bool \<Rightarrow> bool \<Rightarrow> nat \<Rightarrow> nat \<Rightarrow> bool" where
  "retransmit_ok F T R c d \<longleftrightarrow>
     (c = 3 \<or> (3 < c \<and> c \<le> 13 \<and> (T \<or> \<not> F) \<and> \<not> (R \<and> F) \<and> (R \<longrightarrow> T)))
     \<and> (c = 3 \<and> R \<longrightarrow> d = 600) \<and> (c = 3 \<longrightarrow> d \<le> 2600) \<and> (3 < c \<and> R \<longrightarrow> d \<le> 2600)
     \<and> 600 \<le> d \<and> d \<le> 4600"

definition node_inv :: "esb_node \<Rightarrow> bool" where
  "node_inv s \<longleftrightarrow>
     retransmit_ok (nd_in_flight s) (tx_retried s) (do_retry_ptx s) (ptx_retransmit_count s)
       (ptx_retransmit_delay s)
     \<and> ptx_tx_output_power s \<in> {0, 3} \<and> selected_ring s \<in> {1, 2, 3}
     \<and> current_packet_total_attempts s < 256 \<and> last_tx_attempts s < 256
     \<and> length (tx_data s) = 8 \<and> tx_data s ! 0 = 0x93"

definition node_start :: "esb_node \<Rightarrow> bool" where
  "node_start s \<longleftrightarrow> (\<exists>cap res clk msgs. node_main_init res clk msgs (node_boot cap) = Some s)"

lemma backoff_us_le: "backoff_us r rnd \<le> 2000"
  using mod_less_divisor [of 201 rnd] mod_less_divisor [of 501 rnd]
  unfolding backoff_us_def by auto

lemma ring_scan_range: "ring_scan bs = Some r \<Longrightarrow> r \<in> {1, 2, 3}"
  by (induction bs) (auto split: if_splits)

lemma select_ring_inv: "node_inv s \<Longrightarrow> node_inv (select_ring s)"
  unfolding select_ring_def Let_def
  by (auto simp: node_inv_def split: option.splits dest: ring_scan_range)

lemma prepare_reply_inv: "node_inv s \<Longrightarrow> node_inv (prepare_reply s)"
  by (simp add: prepare_reply_def node_call_def node_inv_def Let_def)

lemma on_rx_inv: "node_inv s \<Longrightarrow> node_inv (on_rx r rssi s)"
proof (cases r)
  case (Some p)
  assume s: "node_inv s"
  let ?s1 = "s\<lparr>rx_length := length p, rx_data := p @ drop (length p) (rx_data s), last_rssi := rssi\<rparr>"
  have "node_inv ?s1" using s by (simp add: node_inv_def)
  then show ?thesis using Some by (auto simp: on_rx_def Let_def intro: select_ring_inv prepare_reply_inv)
qed (simp add: on_rx_def)

lemma on_tx_success_inv:
  "node_inv s \<Longrightarrow> nd_in_flight s \<Longrightarrow> node_inv ((on_tx_success n s)\<lparr>nd_in_flight := False\<rparr>)"
  by (simp add: on_tx_success_def node_inv_def Let_def add_u8_def)
    (auto simp: retransmit_ok_def)

lemma on_tx_failed_inv:
  assumes "node_inv s" and "nd_in_flight s"
  shows "node_inv ((on_tx_failed n s)\<lparr>nd_in_flight := False\<rparr>)"
proof (cases "tx_retried s")
  case True
  then show ?thesis using assms
    by (simp add: on_tx_failed_def node_inv_def Let_def add_u8_def node_call_def)
      (auto simp: retransmit_ok_def)
next
  case False
  then have "ptx_retransmit_count s = 3" using assms by (auto simp: node_inv_def retransmit_ok_def)
  then show ?thesis using assms False
    by (simp add: on_tx_failed_def node_inv_def Let_def add_u8_def add_u16_def node_call_def)
      (auto simp: retransmit_ok_def)
qed

lemma enter_prx_in_flight: "\<not> nd_in_flight (snd (enter_prx res s))"
  by (simp add: enter_prx_def esb_prx_initialize_def run_calls_def split_beta Let_def radio_stop_def)

lemma block_ptx_inv: "node_inv s \<Longrightarrow> node_inv (block_ptx res rnd s)"
  by (simp add: block_ptx_def node_inv_def Let_def enter_ptx_or_prx_fields node_call_def)
    (simp add: retransmit_ok_def)

lemma retransmit_ok_retry:
  "retransmit_ok F T True c d \<Longrightarrow> b \<le> 2000 \<Longrightarrow> retransmit_ok F' T False c (add_u16 d b)"
  by (auto simp: retransmit_ok_def add_u16_def)

lemma block_retry_inv: "node_inv s \<Longrightarrow> node_inv (block_retry res rnd s)"
proof (cases "do_retry_ptx s")
  case True
  assume "node_inv s"
  then show ?thesis using True
    by (simp add: block_retry_def node_inv_def enter_ptx_or_prx_fields)
      (blast intro: retransmit_ok_retry [OF _ backoff_us_le])
qed (simp add: block_retry_def)

lemma block_prx_inv: "node_inv s \<Longrightarrow> node_inv (block_prx res s)"
  by (simp add: block_prx_def node_inv_def Let_def split_beta enter_prx_in_flight
      node_frame_fields [OF enter_prx_fields])
    (auto simp: retransmit_ok_def)

lemma node_ep_recv_inv: "node_ep_recv m s = Some s' \<Longrightarrow> node_inv s \<Longrightarrow> node_inv s'"
  by (auto simp: node_ep_recv_def node_inv_def split: if_splits option.splits)

lemma node_step_inv: "node_inv s \<Longrightarrow> node_inv (node_step res st s)"
proof -
  assume s: "node_inv s"
  have upd: "node_inv (t\<lparr>nd_pc := p\<rparr>) = node_inv t" "node_inv (t\<lparr>nd_halted := h\<rparr>) = node_inv t" for t p h
    by (simp_all add: node_inv_def)
  have bat: "node_inv (snd (request_battery_from_app sr tr s))" for sr tr
    using s by (simp add: request_battery_from_app_def Let_def node_call_def node_inv_def)
  show ?thesis
    using s by (auto simp: node_step_def upd bat event_handler_def on_rx_inv on_tx_success_inv
        on_tx_failed_inv block_ptx_inv block_retry_inv block_prx_inv
        split: node_step.splits esb_event.splits main_block.splits option.splits
        dest: node_ep_recv_inv)
qed

lemma recv_all_inv: "recv_all ms s = Some s' \<Longrightarrow> node_inv s \<Longrightarrow> node_inv s'"
  by (induction ms arbitrary: s) (auto split: option.splits dest: node_ep_recv_inv)

lemma run_calls_inv: "node_inv (snd (run_calls res cs s)) = node_inv s"
  by (simp add: run_calls_def split_beta node_inv_def)

lemma node_start_inv: "node_start s \<Longrightarrow> node_inv s"
proof -
  have boot: "node_inv (node_boot cap)" for cap
    by (simp add: node_boot_def node_inv_def retransmit_ok_def)
  have upd: "node_inv (t\<lparr>nd_halted := h\<rparr>) = node_inv t" "node_inv (t\<lparr>nd_calls := c\<rparr>) = node_inv t"
    for t h c by (simp_all add: node_inv_def)
  have res: "node_inv (resolve_node t) = node_inv t" for t
    by (simp add: resolve_node_def node_inv_def split: option.splits)
  show "node_start s \<Longrightarrow> node_inv s"
    using boot by (auto simp: node_start_def node_main_init_def split_beta Let_def upd run_calls_inv res
        esb_prx_initialize_def split: if_splits option.splits dest!: recv_all_inv)
qed

interpretation node: machine node_start "node_step res" node_inv for res
  by unfold_locales (simp_all add: node_start_inv node_step_inv)

section \<open>Identity of the node\<close>

lemma strncasecmp_eq_same_length:
  "length a = n \<Longrightarrow> length b = n \<Longrightarrow> NUL \<notin> set a \<Longrightarrow>
   strncasecmp_eq a b n \<longleftrightarrow> List.map c_tolower a = List.map c_tolower b"
proof (induction n arbitrary: a b)
  case 0
  then show ?case by simp
next
  case (Suc n)
  then obtain x xs y ys where "a = x # xs" "b = y # ys" by (cases a; cases b) auto
  with Suc show ?case by auto
qed

lemma node_table_macs:
  "list_all (\<lambda>e. length (mac_str e) = 4 \<and> List.map c_tolower (mac_str e) = mac_str e) node_table"
  by code_simp

lemma node_table_distinct: "distinct (List.map mac_str node_table)"
  by code_simp

lemma lookup_node_iff:
  assumes "4 \<le> length nid" and "NUL \<notin> set nid"
  shows "lookup_node nid = Some e \<longleftrightarrow>
    e \<in> set node_table \<and> List.map c_tolower (drop (length nid - 4) nid) = mac_str e"
proof -
  have suf: "mac_suffix_str nid = drop (length nid - 4) nid" using assms by (simp add: mac_suffix_str_def)
  have eq: "strncasecmp_eq (mac_suffix_str nid) (mac_str e) 4 \<longleftrightarrow>
      List.map c_tolower (drop (length nid - 4) nid) = mac_str e" if "e \<in> set node_table" for e
    unfolding suf using that node_table_macs assms
    by (subst strncasecmp_eq_same_length) (auto simp: list_all_iff dest: in_set_dropD)
  have inj: "e1 = e2" if "e1 \<in> set node_table" "e2 \<in> set node_table" "mac_str e1 = mac_str e2" for e1 e2
    using that node_table_distinct by (auto simp: distinct_map inj_on_def)
  have found: "find P xs = Some e' \<Longrightarrow> e' \<in> set xs \<and> P e'" for P e' and xs :: "node_entry list"
    by (induction xs) (auto split: if_splits)
  have ex: "e' \<in> set xs \<Longrightarrow> P e' \<Longrightarrow> \<exists>e'. find P xs = Some e'" for P e' and xs :: "node_entry list"
    by (induction xs) auto
  show ?thesis
  proof
    assume "lookup_node nid = Some e"
    from found [OF this [unfolded lookup_node_def]]
    show "e \<in> set node_table \<and> List.map c_tolower (drop (length nid - 4) nid) = mac_str e"
      using eq by blast
  next
    assume r: "e \<in> set node_table \<and> List.map c_tolower (drop (length nid - 4) nid) = mac_str e"
    then have "strncasecmp_eq (mac_suffix_str nid) (mac_str e) 4" using eq by blast
    from ex [OF conjunct1 [OF r], of "\<lambda>x. strncasecmp_eq (mac_suffix_str nid) (mac_str x) 4", OF this]
    obtain e' where e': "lookup_node nid = Some e'"
      by (auto simp: lookup_node_def)
    from found [OF this [unfolded lookup_node_def]] have "e' \<in> set node_table" "mac_str e' = mac_str e"
      using eq r by auto
    then show "lookup_node nid = Some e" using e' inj r by blast
  qed
qed

text \<open>
  Further: node identities. A node id of at least four characters selects exactly the table entry whose
  four-character suffix it ends with, in either case; no two entries share a channel and a pipe, and
  every entry uses one of the reply pipes 1 to 7, its packet index being the pipe plus 3.
\<close>

theorem node_table_lookup:
  assumes "4 \<le> length nid" and "NUL \<notin> set nid"
  shows "(lookup_node nid = Some e \<longleftrightarrow>
      e \<in> set node_table \<and> List.map c_tolower (drop (length nid - 4) nid) = mac_str e)
    \<and> distinct (List.map (\<lambda>e. (ne_channel e, ne_pipe e)) node_table)
    \<and> (\<forall>e\<in>set node_table. 1 \<le> ne_pipe e \<and> ne_pipe e \<le> 7 \<and> pkt_idx e = ne_pipe e + 3)"
proof -
  have "distinct (List.map (\<lambda>e. (ne_channel e, ne_pipe e)) node_table)"
    by (simp add: node_table_def entry_def)
  moreover have "list_all (\<lambda>e. 1 \<le> ne_pipe e \<and> ne_pipe e \<le> 7 \<and> pkt_idx e = ne_pipe e + 3) node_table"
    by (simp add: node_table_def entry_def)
  ultimately show ?thesis using lookup_node_iff [OF assms] by (simp add: list_all_iff)
qed

theorem node_table_lookup_witness:
  "lookup_node ''proton-F4CE36000F7A'' = Some (entry ''0f7a'' 8 7 5)"
proof -
  have nul: "NUL \<notin> set ''proton-F4CE36000F7A''" and len: "4 \<le> length ''proton-F4CE36000F7A''"
    by simp_all
  have "List.map c_tolower (drop (length ''proton-F4CE36000F7A'' - 4) ''proton-F4CE36000F7A'') =
      mac_str (entry ''0f7a'' 8 7 5)" by code_simp
  moreover have "entry ''0f7a'' 8 7 5 \<in> set node_table" by (simp add: node_table_def)
  ultimately show ?thesis
    using conjunct1 [OF node_table_lookup [OF len nul, of "entry ''0f7a'' 8 7 5"]] by blast
qed

section \<open>Properties of the node\<close>

lemma retransmit_ok_bounds:
  "retransmit_ok F T R c d \<Longrightarrow> 3 \<le> c \<and> c \<le> 13 \<and> 600 \<le> d \<and> d \<le> 4600"
  unfolding retransmit_ok_def by linarith

lemma node_inv_bounds:
  "node_inv s' \<Longrightarrow> 3 \<le> ptx_retransmit_count s' \<and> ptx_retransmit_count s' \<le> 13
    \<and> 600 \<le> ptx_retransmit_delay s' \<and> ptx_retransmit_delay s' \<le> 4600
    \<and> ptx_tx_output_power s' \<in> {0, 3} \<and> selected_ring s' \<in> {1, 2, 3}
    \<and> current_packet_total_attempts s' < 256 \<and> last_tx_attempts s' < 256
    \<and> length (tx_data s') = 8 \<and> tx_data s' ! 0 = 0x93"
  unfolding node_inv_def using retransmit_ok_bounds by blast

text \<open>A driver all of whose calls succeed, for the concrete runs.\<close>

definition ok_driver :: "nat \<Rightarrow> fw_call \<Rightarrow> int" where
  "ok_driver n c = (if c = Device_is_ready then 1 else 0)"

lemma ok_driver_start: "node_start (the (node_main_init ok_driver 0 [] (node_boot cap)))"
proof -
  have "node_main_init ok_driver 0 [] (node_boot cap) \<noteq> None"
    by (simp add: node_main_init_def split_beta Let_def)
  then show ?thesis unfolding node_start_def by (metis option.exhaust_sel)
qed



definition identity :: "esb_node \<Rightarrow> nat \<times> nat \<times> nat" where
  "identity s = (my_packet_index s, my_channel s, my_pipe s)"

lemma identity_isr: "identity (event_handler ev s) = identity s"
proof -
  have sel: "identity (select_ring t) = identity t" for t
    by (simp add: select_ring_def identity_def Let_def split: option.splits)
  have rep: "identity (prepare_reply t) = identity t" for t
    by (simp add: prepare_reply_def identity_def Let_def node_call_def)
  have "identity (on_rx r rssi s) = identity s" for r rssi
    by (cases r) (simp_all add: on_rx_def Let_def sel rep, simp_all add: identity_def)
  moreover have "identity (on_tx_success n s) = identity s" "identity (on_tx_failed n s) = identity s"
    for n by (simp_all add: on_tx_success_def on_tx_failed_def identity_def Let_def node_call_def)
  ultimately show ?thesis by (simp add: event_handler_def split: esb_event.splits)
qed

lemma identity_blocks:
  "identity (block_ptx res rnd s) = identity s" "identity (block_retry res rnd s) = identity s"
  "identity (block_prx res s) = identity s"
  by (simp_all add: block_ptx_def block_retry_def block_prx_def identity_def Let_def split_beta
      enter_ptx_or_prx_fields node_frame_fields [OF enter_prx_fields] node_call_def)

lemma node_step_identity: "identity (node_step res st s) = identity s"
proof -
  have upd: "identity (t\<lparr>nd_pc := p\<rparr>) = identity t" "identity (t\<lparr>nd_halted := h\<rparr>) = identity t"
    "identity (t\<lparr>nd_in_flight := h\<rparr>) = identity t" for t p h by (simp_all add: identity_def)
  have ipc: "node_ep_recv m s = Some s' \<Longrightarrow> identity s' = identity s" for m s'
    by (auto simp: node_ep_recv_def identity_def split: if_splits option.splits)
  have bat: "identity (snd (request_battery_from_app sr tr s)) = identity s" for sr tr
    by (simp add: request_battery_from_app_def Let_def node_call_def identity_def)
  show ?thesis
    by (simp add: node_step_def upd bat identity_isr identity_blocks
        split: node_step.splits esb_event.splits main_block.splits option.splits) (blast intro: ipc)
qed

text \<open>
  Further: the table lookup happens once, at boot. A node id received later is stored but the packet index,
  the channel and the pipe the node works with never change again, so a node whose id arrived after
  the boot check keeps the unresolved index 0xFF and the channel of cluster A for ever.
\<close>

theorem node_identity_fixed_at_boot:
  "let s' = fold (node_step res) steps s in
    my_packet_index s' = my_packet_index s \<and> my_channel s' = my_channel s \<and> my_pipe s' = my_pipe s"
proof -
  have "identity (fold (node_step res) steps s) = identity s"
    by (induction steps arbitrary: s) (simp_all add: node_step_identity)
  then show ?thesis by (simp add: identity_def Let_def)
qed

text \<open>
  C6: the answer to a trigger packet. A packet of at least two bytes that starts with 0x92 prepares
  the reply (sequence byte mirrored, ring byte of this node or 0, battery voltage in units of 20 mV,
  signal strength, attempts of the last transmission) and requests the switch to PTX; a packet that
  starts with anything else changes neither the reply nor the request.
\<close>

theorem node_reply_to_trigger:
  assumes "2 \<le> length p" and "tx_data s = [t0, t1, t2, t3, t4, t5, t6, t7]"
  shows "let s' = event_handler (EVENT_RX_RECEIVED (Some p) rssi) s in
    if p ! 0 = 0x92
    then do_switch_to_ptx s' \<and> tx_data s' =
      [t0, p ! 1,
       if my_packet_index s \<noteq> 0xFF \<and> my_packet_index s < length p then p ! my_packet_index s else 0,
       word_of_int (c_div (battery_mv_avg s) 20), rssi, of_nat (last_tx_attempts s), t6, t7]
    else do_switch_to_ptx s' = do_switch_to_ptx s \<and> tx_data s' = tx_data s"
proof -
  obtain p0 p1 ps where p: "p = p0 # p1 # ps" using assms(1)
    by (cases p; cases "tl p") auto
  have sel: "tx_data (select_ring t) = tx_data t" "do_switch_to_ptx (select_ring t) = do_switch_to_ptx t"
    for t by (auto simp: select_ring_def Let_def split: option.splits)
  show ?thesis
    by (simp add: event_handler_def on_rx_def Let_def sel prepare_reply_def node_call_def assms(2)
        eval_nat_numeral nth_append) (simp add: p)
qed

theorem node_reply_to_trigger_witness:
  "let s' = event_handler (EVENT_RX_RECEIVED (Some [0x92, 0x05, 0, 0, 0x21]) 61)
       ((node_boot 32)\<lparr>my_packet_index := 4, battery_mv_avg := 3300, last_tx_attempts := 2\<rparr>) in
    do_switch_to_ptx s' \<and> tx_data s' = [0x93, 0x05, 0x21, 165, 61, 2, 0, 0]"
  using node_reply_to_trigger [of "[0x92, 0x05, 0, 0, 0x21]"
      "(node_boot 32)\<lparr>my_packet_index := 4, battery_mv_avg := 3300, last_tx_attempts := 2\<rparr>"
      "0x93" 0 0 0 0 0 0 0 61]
  by (simp add: node_boot_def c_div_def Let_def)

text \<open>
  Further: when \<open>enter_ptx\<close> reports success, exactly these driver calls were made, in this order: stop and
  disable the radio, initialise it in PTX mode with the node's current retransmission parameters and
  its channel, and hand over the prepared reply on the node's own pipe. When \<open>enter_prx\<close> reports
  success the radio was stopped, initialised in PRX mode on the node's channel and started.
\<close>

theorem node_role_switch_calls:
  "(fst (enter_ptx res s) = 0 \<longrightarrow>
      nd_calls (snd (enter_ptx res s)) =
        nd_calls s @ [Esb_stop_rx, Esb_disable] @ ptx_init_calls s @
        [Esb_write_payload \<lparr>pl_length = length (tx_data s), pl_pipe = my_pipe s, pl_noack = False,
                            pl_data = tx_data s\<rparr>]
      \<and> nd_in_flight (snd (enter_ptx res s)))
   \<and> (fst (enter_prx res s) = 0 \<longrightarrow>
      nd_calls (snd (enter_prx res s)) =
        nd_calls s @ [Esb_stop_rx, Esb_disable] @ prx_init_calls s @ [Esb_start_rx]
      \<and> \<not> nd_in_flight (snd (enter_prx res s)))"
proof -
  have stop: "nd_calls (radio_stop s) = nd_calls s @ [Esb_stop_rx, Esb_disable]"
    "ptx_init_calls (radio_stop s) = ptx_init_calls s" "prx_init_calls (radio_stop s) = prx_init_calls s"
    "tx_data (radio_stop s) = tx_data s" "my_pipe (radio_stop s) = my_pipe s"
    "\<not> nd_in_flight (radio_stop s)"
    by (simp_all add: radio_stop_def node_call_def ptx_init_calls_def prx_init_calls_def)
  have ok: "fst (run_calls res cs t) = 0 \<Longrightarrow> snd (run_calls res cs t) = t\<lparr>nd_calls := nd_calls t @ cs\<rparr>"
    for cs t using seq_calls_ok [of res cs "nd_calls t"] by (auto simp: run_calls_def split_beta)
  show ?thesis
    by (auto simp: enter_ptx_def enter_prx_def esb_ptx_initialize_def esb_prx_initialize_def Let_def
        split_beta ok stop tx_payload_def split: if_splits)
qed

theorem node_role_switch_calls_witness:
  "nd_calls (snd (enter_prx ok_driver (node_boot 32))) =
     [Esb_stop_rx, Esb_disable] @ prx_init_calls (node_boot 32) @ [Esb_start_rx]"
proof -
  have "fst (enter_prx ok_driver (node_boot 32)) = 0"
    by (simp add: enter_prx_def esb_prx_initialize_def run_calls_def prx_init_calls_def ok_driver_def
        split_beta Let_def)
  with conjunct2 [OF node_role_switch_calls, of ok_driver "node_boot 32"]
  show ?thesis by (simp add: node_boot_def)
qed

section \<open>The retry cycle\<close>

lemma run_calls_working:
  "(\<And>n c. c \<in> set cs \<Longrightarrow> res n c = 0) \<Longrightarrow> run_calls res cs s = (0, s\<lparr>nd_calls := nd_calls s @ cs\<rparr>)"
  by (simp add: run_calls_def seq_calls_all_ok)

definition working :: "(nat \<Rightarrow> fw_call \<Rightarrow> int) \<Rightarrow> bool" where
  "working res \<longleftrightarrow> (\<forall>n c. res n c = 0)"

lemma enter_prx_working:
  "working res \<Longrightarrow> enter_prx res s = (0, s\<lparr>nd_in_flight := False,
     nd_calls := nd_calls s @ [Esb_stop_rx, Esb_disable] @ prx_init_calls s @ [Esb_start_rx]\<rparr>)"
  by (simp add: enter_prx_def esb_prx_initialize_def run_calls_working working_def radio_stop_def
      node_call_def prx_init_calls_def)

lemma enter_ptx_working:
  "working res \<Longrightarrow> enter_ptx res s = (0, s\<lparr>nd_in_flight := True, tx_pipe := my_pipe s,
     nd_calls := nd_calls s @ [Esb_stop_rx, Esb_disable] @ ptx_init_calls s @
       [Esb_write_payload (tx_payload (s\<lparr>tx_pipe := my_pipe s\<rparr>))]\<rparr>)"
  by (simp add: enter_ptx_def esb_ptx_initialize_def run_calls_working working_def radio_stop_def
      node_call_def ptx_init_calls_def tx_payload_def)

lemma enter_ptx_or_prx_working:
  "working res \<Longrightarrow> enter_ptx_or_prx res s = snd (enter_ptx res s)"
  by (simp add: enter_ptx_or_prx_def enter_ptx_working)

definition ring_extra :: "nat \<Rightarrow> nat" where
  "ring_extra ring = (if ring = 1 then 5 else if ring = 2 then 7 else 10)"

text \<open>
  C3: a first transmission that fails is retried exactly once, by the next pass of the main loop, with
  the count raised by 5, 7 or 10 according to the ring, the delay raised by the random back-off of the
  ring and the power raised to 3 dBm.
\<close>

theorem node_first_failure_retries:
  assumes "working res" and "nd_in_flight s" and "\<not> tx_retried s" and "\<not> nd_halted s"
    and "nd_pc s = Block_ptx" and "\<not> do_switch_to_ptx s" and "\<not> do_switch_to_prx s"
    and "ptx_retransmit_count s = 3" and "ptx_retransmit_delay s = 600"
  shows "let s' = fold (node_step res) [Isr (EVENT_TX_FAILED n), Main r1, Main r2, Main r3] s in
    nd_calls s' = nd_calls s @
      [Esb_stop_rx, Esb_disable,
       Esb_init \<lparr>ec_mode = ESB_MODE_PTX,
                 ec_retransmit_delay = Some (600 + backoff_us (selected_ring s) r2),
                 ec_retransmit_count = Some (3 + ring_extra (selected_ring s)),
                 ec_tx_output_power = Some 3\<rparr>] @
      tl (ptx_init_calls s) @ [Esb_write_payload (tx_payload (s\<lparr>tx_pipe := my_pipe s\<rparr>))]
    \<and> nd_in_flight s' \<and> tx_retried s' \<and> \<not> do_retry_ptx s' \<and> nd_pc s' = Block_ptx \<and> \<not> nd_halted s'
    \<and> \<not> do_switch_to_ptx s' \<and> \<not> do_switch_to_prx s' \<and> my_channel s' = my_channel s"
proof -
  have b: "(600 + backoff_us r r2 mod 65536) mod 65536 = 600 + backoff_us r r2" for r
    using backoff_us_le [of r r2] by simp
  show ?thesis using assms
    by (simp add: node_step_def event_handler_def on_tx_failed_def Let_def block_ptx_def block_retry_def
        block_prx_def enter_ptx_or_prx_working enter_ptx_working ptx_init_calls_def tx_payload_def
        add_u16_def b ring_extra_def)
qed

text \<open>
  C4: a transmission that fails again after the retry is given up: the driver's transmit buffer is
  flushed, the next pass of the main loop puts the radio back into PRX and nothing stays pending; the
  attempts of all tries are reported, modulo 256, with the next reply.
\<close>

theorem node_second_failure_gives_up:
  assumes "working res" and "nd_in_flight s" and "tx_retried s" and "\<not> nd_halted s"
    and "nd_pc s = Block_ptx" and "\<not> do_switch_to_ptx s" and "\<not> do_retry_ptx s"
  shows "let s' = fold (node_step res) [Isr (EVENT_TX_FAILED n), Main r1, Main r2, Main r3] s in
    nd_calls s' = nd_calls s @ [Esb_flush_tx, Esb_stop_rx, Esb_disable] @ prx_init_calls s @ [Esb_start_rx]
    \<and> \<not> nd_in_flight s' \<and> \<not> tx_retried s' \<and> \<not> do_switch_to_prx s' \<and> \<not> do_retry_ptx s'
    \<and> \<not> do_switch_to_ptx s' \<and> nd_pc s' = Block_ptx
    \<and> last_tx_attempts s' = (current_packet_total_attempts s + n mod 256) mod 256"
  using assms
  by (simp add: node_step_def event_handler_def on_tx_failed_def Let_def block_ptx_def block_retry_def
      block_prx_def enter_prx_working node_call_def prx_init_calls_def add_u8_def)

definition busy_node :: esb_node where
  "busy_node = (node_boot 32)\<lparr>nd_in_flight := True, selected_ring := 2\<rparr>"

theorem node_first_failure_retries_witness:
  "tx_retried (fold (node_step (\<lambda>_ _. 0)) [Isr (EVENT_TX_FAILED 4), Main 0, Main 7, Main 0] busy_node)"
  using node_first_failure_retries [of "\<lambda>_ _. 0" busy_node 4 0 7 0]
  by (simp add: working_def busy_node_def node_boot_def Let_def del: fold_simps)

theorem node_second_failure_gives_up_witness:
  "last_tx_attempts (fold (node_step (\<lambda>_ _. 0)) [Isr (EVENT_TX_FAILED 14), Main 0, Main 7, Main 0]
     (busy_node\<lparr>tx_retried := True, current_packet_total_attempts := 250\<rparr>)) = 8"
  using node_second_failure_gives_up [of "\<lambda>_ _. 0"
      "busy_node\<lparr>tx_retried := True, current_packet_total_attempts := 250\<rparr>" 14 0 7 0]
  by (simp add: working_def busy_node_def node_boot_def Let_def del: fold_simps)

end
