(* ===== verification/AppNet.thy ===== *)
theory AppNet
  imports HeadApp EsbNode
begin

text \<open>
  The two cores together: what one core sends is received by the other. A message on the wire is its
  bytes; \<open>ipc_msg_of\<close> is the view the receiver's pointer cast gives of them.
\<close>

definition ipc_msg_of :: "u8 list \<Rightarrow> esb_ipc_msg" where
  "ipc_msg_of bs = \<lparr>im_type = unat (bs ! 0), im_length = unat (bs ! 1), im_data = drop 2 bs\<rparr>"

text \<open>
  The tail of the RTT command: the text is decoded into at most 32 bytes, which are sent to the network
  core and broadcast. The result is the payload handed to the radio driver.
\<close>

definition rtt_to_radio ::
  "('q, esb_payload) msgq_ops \<Rightarrow> nat \<Rightarrow> string \<Rightarrow> head_app \<Rightarrow> 'q esb_head \<Rightarrow> 'q esb_head option option" where
  "rtt_to_radio ops cap txt app net =
     (let bs = hex_string_to_binary txt 32
      in case ipc_send_and_wait bs (length bs) 0 0 app of
           None \<Rightarrow> Some None
         | Some (r, app') \<Rightarrow>
             (case last (app_out app') of
                Ipc_tx m \<Rightarrow> head_ep_recv ops cap (ipc_msg_of m) net
              | _ \<Rightarrow> Some (Some net)))"

lemma hex_string_to_binary_bound: "length (hex_string_to_binary s n) \<le> n"
proof (induction s n rule: hex_string_to_binary.induct)
  case (2 c cs max_len)
  show ?case
  proof (cases "max_len = 0")
    case False
    then have tail: "length (x # xs) \<le> max_len" if "length xs \<le> max_len - 1" for x :: u8 and xs
      using that by simp
    show ?thesis using 2 False
      by (subst hex_string_to_binary.simps) (auto split: prod.split intro!: tail simp del: list.size)
  qed (simp add: hex_string_to_binary.simps(2))
qed (simp add: hex_string_to_binary.simps)

lemma ipc_send_and_wait_message:
  assumes "length bs \<le> 32"
  shows "\<exists>app'. ipc_send_and_wait bs (length bs) sr tr app = Some (if sr < 0 then sr else tr, app')
    \<and> last (app_out app') = Ipc_tx (1 # of_nat (length bs) # bs)"
  using assms by (simp add: ipc_send_and_wait_def memcpy_def emit_def Let_def ESB_IPC_MSG_TYPE_TX_def)

lemma ipc_msg_of_tx:
  "length bs \<le> 32 \<Longrightarrow> ipc_msg_of (1 # of_nat (length bs) # bs) =
     \<lparr>im_type = 1, im_length = length bs, im_data = bs\<rparr>"
  by (simp add: ipc_msg_of_def unat_of_nat)

text \<open>
  C9: from command text to radio. When the text of an RTT command decodes to at least one byte and the
  radio takes 32-byte payloads, the network core hands the driver one broadcast holding those bytes,
  with a leading 0x91 turned into 0x92; a text without any hexadecimal digit makes the network core
  read a first byte that was never sent.
\<close>

theorem rtt_command_reaches_radio:
  assumes "msgq_ok ops RX_MSGQ_MAX_ITEMS items" and "32 \<le> cap"
  shows "(case hex_string_to_binary txt 32 of
      [] \<Rightarrow> rtt_to_radio ops cap txt app net = Some None
    | b # bs \<Rightarrow> \<exists>net' p. rtt_to_radio ops cap txt app net = Some (Some net')
        \<and> hd_calls net' = hd_calls net @ [Esb_stop_rx, Esb_flush_tx, Esb_write_payload p]
        \<and> packet p = (if b = 0x91 then 0x92 else b) # bs \<and> pl_pipe p = 0 \<and> pl_noack p)"
proof -
  define ds where "ds = hex_string_to_binary txt 32"
  have len: "length ds \<le> 32" unfolding ds_def by (rule hex_string_to_binary_bound)
  obtain app' where a: "ipc_send_and_wait ds (length ds) 0 0 app = Some (0, app')"
    "last (app_out app') = Ipc_tx (1 # of_nat (length ds) # ds)"
    using ipc_send_and_wait_message [OF len, of 0 0 app] by auto
  have r: "rtt_to_radio ops cap txt app net =
      head_ep_recv ops cap \<lparr>im_type = 1, im_length = length ds, im_data = ds\<rparr> net"
    using a by (simp add: rtt_to_radio_def ds_def [symmetric] ipc_msg_of_tx len)
  show ?thesis
  proof (cases ds)
    case Nil
    obtain q' where "msgq_drain (mq_get ops) (esb_rx_msgq net) = Some (items (esb_rx_msgq net), q')"
      using msgq_drain_returns [OF assms(1)] by blast
    then show ?thesis using Nil r
      by (simp add: ds_def [symmetric] head_ep_recv_def head_call_def broadcast_payload_def
          ESB_IPC_MSG_TYPE_TX_def)
  next
    case (Cons b bs)
    then show ?thesis
      using head_ep_recv_tx [OF assms(1), of "\<lparr>im_type = 1, im_length = length ds, im_data = ds\<rparr>" cap net]
        r len assms(2) by (auto simp: ds_def [symmetric] ESB_IPC_MSG_TYPE_TX_def)
  qed
qed

theorem rtt_command_reaches_radio_witness:
  "rtt_to_radio (list_msgq 4) 32 ''?'' head_app_boot (head_boot 32 []) = Some None"
proof -
  have "hex_string_to_binary ''?'' 32 = []"
    by (simp add: hex_string_to_binary.simps isxdigit_def hex_val_def Let_def)
  then show ?thesis
    using rtt_command_reaches_radio [of "list_msgq 4" "\<lambda>q. q" 32 "''?''" head_app_boot "head_boot 32 []"]
    by (simp add: RX_MSGQ_MAX_ITEMS_def list_msgq_ok)
qed

lemma le_int32_bytes: "le_int32 (int32_bytes v) = s32 v"
proof -
  have u: "uint (word_of_int x :: u8) = x mod 256" for x by (simp add: uint_word_of_int)
  have m: "w mod (256 * c) = 256 * (w div 256 mod c) + w mod 256" if "0 \<le> c" for w c :: int
    using that by (rule zmod_zmult2_eq)
  define w1 w2 w3 where "w1 = v div 256" and "w2 = w1 div 256" and "w3 = w2 div 256"
  have m1: "v mod (256 * (256 * (256 * 256))) = 256 * (w1 mod (256 * (256 * 256))) + v mod 256"
    unfolding w1_def by (rule m) simp
  have m2: "w1 mod (256 * (256 * 256)) = 256 * (w2 mod (256 * 256)) + w1 mod 256"
    unfolding w2_def by (rule m) simp
  have m3: "w2 mod (256 * 256) = 256 * (w3 mod 256) + w2 mod 256"
    unfolding w3_def by (rule m) simp
  have gen: "a + 256 * (b + 256 * (c + 256 * (d + 256 * 0))) = 256 * (256 * (256 * d + c) + b) + a"
    for a b c d :: int by simp
  have p: "(2 :: int) ^ 32 = 256 * (256 * (256 * 256))" by simp
  have pow: "v mod 2 ^ 32 = 256 * (256 * (256 * (w3 mod 256) + w2 mod 256) + w1 mod 256) + v mod 256"
    unfolding p by (simp only: m1 m2 m3)
  have "v div 256 ^ 2 = w2" "v div 256 ^ 3 = w3"
    unfolding w1_def w2_def w3_def by (simp_all add: zdiv_zmult2_eq [symmetric])
  then have b: "int32_bytes v = [word_of_int v, word_of_int w1, word_of_int w2, word_of_int w3]"
    unfolding int32_bytes_def w1_def by simp
  have "foldr (\<lambda>b acc. uint b + 256 * acc) (int32_bytes v) 0 =
      v mod 256 + 256 * (w1 mod 256 + 256 * (w2 mod 256 + 256 * (w3 mod 256 + 256 * 0)))"
    unfolding b by (simp only: foldr_Cons foldr_Nil o_apply id_apply u)
  then have "foldr (\<lambda>b acc. uint b + 256 * acc) (int32_bytes v) 0 = v mod 2 ^ 32"
    unfolding pow using gen by (rule trans)
  then show ?thesis unfolding le_int32_def s32_def by (simp add: mod_simps)
qed

text \<open>
  Further: the battery voltage the node's application core answers with is the value its network core
  stores for the next reply, for every 32-bit value, and the waiting request is released.
\<close>

theorem battery_roundtrip:
  assumes "- (2 ^ 31) \<le> mv" and "mv < 2 ^ 31" and "im_type req = ESB_IPC_MSG_TYPE_REQ_BATT"
  shows "\<exists>app' m net'. node_recv_cb mv req app = Some app' \<and> app_out app' = app_out app @ [Ipc_tx m]
    \<and> node_ep_recv (ipc_msg_of m) net = Some net' \<and> battery_mv_avg net' = mv \<and> batt_recv_sem net' = 1"
proof -
  have len: "length (int32_bytes mv) = 4" by (simp add: int32_bytes_def)
  have "ipc_msg_of (4 # 4 # int32_bytes mv) = \<lparr>im_type = 4, im_length = 4, im_data = int32_bytes mv\<rparr>"
    by (simp add: ipc_msg_of_def)
  then show ?thesis using assms len le_int32_bytes [of mv] s32_id [of mv]
    by (auto simp: node_recv_cb_def ipc_send_battery_def ipc_send_msg_def emit_def fw_defs
        node_ep_recv_def sem_give1_def)
qed

theorem battery_roundtrip_witness:
  "\<exists>app' m net'. node_recv_cb 3912 \<lparr>im_type = 5, im_length = 0, im_data = []\<rparr> head_app_boot = Some app'
    \<and> app_out app' = [Ipc_tx m]
    \<and> node_ep_recv (ipc_msg_of m) (node_boot 32) = Some net' \<and> battery_mv_avg net' = 3912"
  using battery_roundtrip [of 3912 "\<lparr>im_type = 5, im_length = 0, im_data = []\<rparr>" head_app_boot "node_boot 32"]
  by (auto simp: fw_defs head_app_boot_def)

end
