(* ===== verification/Cluster.thy ===== *)
theory Cluster
  imports AppNet
begin

text \<open>
  One round of a cluster: the command of the central server, the broadcast of the head, the answers of its
  nodes and their publication. The functions here only compose the models of the head's two cores
  (HeadApp, EsbHead) and of the node's network core (EsbNode); the radio is the order in which the
  payloads of the nodes arrive in the head's receive window.
\<close>

section \<open>A node's answer\<close>

text \<open>
  A packet arrives while the node listens, and its main loop passes the first block: the payload handed to
  the driver, if any. \<open>rnd\<close> is the random number of that pass.
\<close>

definition node_answer ::
  "(nat \<Rightarrow> fw_call \<Rightarrow> int) \<Rightarrow> u8 list \<Rightarrow> u8 \<Rightarrow> nat \<Rightarrow> esb_node \<Rightarrow> esb_payload option" where
  "node_answer res p rssi rnd s =
     (case last (nd_calls (node_step res (Main rnd) (node_step res (Isr (EVENT_RX_RECEIVED (Some p) rssi)) s))) of
        Esb_write_payload q \<Rightarrow> Some q
      | _ \<Rightarrow> None)"

text \<open>The reply a node owes for a trigger packet: its sequence byte, the ring byte of the node and the measurements.\<close>

definition owed_reply :: "u8 list \<Rightarrow> u8 \<Rightarrow> esb_node \<Rightarrow> u8 list" where
  "owed_reply p rssi s =
     [0x93, p ! 1, if my_packet_index s \<noteq> 0xFF \<and> my_packet_index s < length p then p ! my_packet_index s else 0,
      word_of_int (c_div (battery_mv_avg s) 20), rssi, of_nat (last_tx_attempts s), tx_data s ! 6, tx_data s ! 7]"

lemma event_rx_trigger:
  fixes rssi :: u8
  assumes "2 \<le> length p" and "p ! 0 = 0x92" and "length (tx_data s) = 8" and "tx_data s ! 0 = 0x93"
  defines "t \<equiv> event_handler (EVENT_RX_RECEIVED (Some p) rssi) s"
  shows "do_switch_to_ptx t" "tx_data t = owed_reply p rssi s" "my_pipe t = my_pipe s"
    "nd_halted t = nd_halted s" "nd_pc t = nd_pc s"
proof -
  obtain p0 p1 ps where p: "p = p0 # p1 # ps" using assms(1) by (cases p; cases "tl p") auto
  have sel: "tx_data (select_ring u) = tx_data u" "do_switch_to_ptx (select_ring u) = do_switch_to_ptx u"
    "my_pipe (select_ring u) = my_pipe u" "nd_halted (select_ring u) = nd_halted u"
    "nd_pc (select_ring u) = nd_pc u" for u
    by (auto simp: select_ring_def Let_def split: option.splits)
  obtain t0 t1 t2 t3 t4 t5 t6 t7 where d: "tx_data s = [t0, t1, t2, t3, t4, t5, t6, t7]"
    using assms(3) by (auto simp: eval_nat_numeral length_Suc_conv)
  show "do_switch_to_ptx t" "my_pipe t = my_pipe s" "nd_halted t = nd_halted s" "nd_pc t = nd_pc s"
    using assms(2) p by (simp_all add: t_def event_handler_def on_rx_def Let_def sel prepare_reply_def node_call_def)
  have upd: "[x, t1, t2, t3, t4, t5, t6, t7][Suc 0 := a, 2 := b, 3 := c, 4 := d, 5 := e] = [x, a, b, c, d, e, t6, t7]"
    and last2: "[x, t1, t2, t3, t4, t5, t6, t7] ! 6 = t6" "[x, t1, t2, t3, t4, t5, t6, t7] ! 7 = t7"
    for x a b c d e :: u8 by (simp_all add: eval_nat_numeral)
  have "t0 = 0x93" using assms(4) d by simp
  moreover have "(p @ r) ! 0 = p ! 0" "(p @ r) ! 1 = p ! 1"
    "my_packet_index s < length p \<Longrightarrow> (p @ r) ! my_packet_index s = p ! my_packet_index s" for r
    using assms(1) by (auto simp: nth_append)
  ultimately show "tx_data t = owed_reply p rssi s"
    using assms(2)
    by (simp add: t_def event_handler_def on_rx_def Let_def sel prepare_reply_def node_call_def owed_reply_def
        d upd last2 del: list_update.simps)
qed

lemma node_answers:
  assumes "working res" and "2 \<le> length p" and "p ! 0 = 0x92" and "node_inv s" and "\<not> nd_halted s"
    and "nd_pc s = Block_ptx"
  shows "\<exists>q. node_answer res p rssi rnd s = Some q \<and> packet q = owed_reply p rssi s \<and> pl_pipe q = my_pipe s"
proof -
  define t where "t = event_handler (EVENT_RX_RECEIVED (Some p) rssi) s"
  have tx: "length (tx_data s) = 8" "tx_data s ! 0 = 0x93" using assms(4) by (simp_all add: node_inv_def)
  note t = event_rx_trigger [OF assms(2,3) tx, of rssi, folded t_def]
  have "node_step res (Main rnd) t = (block_ptx res rnd t)\<lparr>nd_pc := Block_retry\<rparr>"
    using t assms(5,6) by (simp add: node_step_def)
  then show ?thesis
    using t assms(1)
    by (auto simp: node_answer_def node_step_def t_def [symmetric] block_ptx_def Let_def enter_ptx_or_prx_working
        enter_ptx_working node_call_def tx_payload_def packet_def)
qed

section \<open>The round\<close>

text \<open>
  The head listens on channel 7. The nodes on that channel hear the broadcast \<open>p\<close>; their answers reach the
  head in the order of the list.
\<close>

definition cluster_answers ::
  "(nat \<Rightarrow> fw_call \<Rightarrow> int) \<Rightarrow> (esb_node \<times> u8 \<times> nat) list \<Rightarrow> u8 list \<Rightarrow> (nat \<times> u8 list) list" where
  "cluster_answers res ns p =
     List.map_filter (\<lambda>(s, rssi, rnd).
       if my_channel s = 7 then map_option (\<lambda>q. (pl_pipe q, packet q)) (node_answer res p rssi rnd s) else None) ns"

text \<open>The receive window: the packets \<open>rs\<close> arrive, then the work handler runs. The messages sent meanwhile.\<close>

definition head_window ::
  "('q, esb_payload) msgq_ops \<Rightarrow> (nat \<times> u8 list) list \<Rightarrow> 'q esb_head \<Rightarrow> u8 list list option" where
  "head_window ops rs net =
     (case esb_rx_work_handler ops (fold (\<lambda>r. esb_evt_handler ops (HEAD_RX_RECEIVED (Some r))) rs
             (esb_evt_handler ops HEAD_TX_SUCCESS net)) of
        Some (Some net') \<Rightarrow> Some (drop (length (sent_msgs (hd_calls net))) (sent_msgs (hd_calls net')))
      | _ \<Rightarrow> None)"

fun deliver :: "string option \<Rightarrow> u8 list list \<Rightarrow> head_app \<Rightarrow> head_app option" where
  "deliver node [] app = Some app"
| "deliver node (m # ms) app =
     (case recv_cb node (ipc_msg_of m) app of None \<Rightarrow> None | Some app' \<Rightarrow> deliver node ms app')"

text \<open>
  From the RTT command (response topic and text) to what the head publishes; \<open>radio\<close> are the packets the head
  receives for a broadcast. \<open>None\<close>: one of the cores faults.
\<close>

definition rtt_round ::
  "('q, esb_payload) msgq_ops \<Rightarrow> nat \<Rightarrow> string option \<Rightarrow> string \<Rightarrow> string \<Rightarrow> (u8 list \<Rightarrow> (nat \<times> u8 list) list) \<Rightarrow>
   head_app \<Rightarrow> 'q esb_head \<Rightarrow> head_app option" where
  "rtt_round ops cap node topic txt radio app net =
     (let bs = hex_string_to_binary txt 32
      in case ipc_send_and_wait bs (length bs) 0 0 (set_current_res_topic topic app) of
           None \<Rightarrow> None
         | Some (r, app1) \<Rightarrow>
             (case last (app_out app1) of
                Ipc_tx m \<Rightarrow>
                  (case head_ep_recv ops cap (ipc_msg_of m) net of
                     Some (Some net1) \<Rightarrow>
                       (case last (hd_calls net1) of
                          Esb_write_payload p \<Rightarrow>
                            (case head_window ops (radio (packet p)) net1 of
                               None \<Rightarrow> None
                             | Some ms \<Rightarrow> deliver node ms app1)
                        | _ \<Rightarrow> None)
                   | _ \<Rightarrow> None)
              | _ \<Rightarrow> None))"

lemma ipc_msg_of_rx:
  "length bs \<le> 255 \<Longrightarrow> ipc_msg_of (rx_message bs) = \<lparr>im_type = 2, im_length = length bs, im_data = bs\<rparr>"
  by (simp add: ipc_msg_of_def rx_message_def ESB_IPC_MSG_TYPE_RX_def unat_of_nat)

definition response_of :: "string option \<Rightarrow> string \<Rightarrow> u8 list \<Rightarrow> app_out" where
  "response_of node topic bs =
     Publish_response topic (case node of Some i \<Rightarrow> i | None \<Rightarrow> ''NA'') (hex_format bs)"

lemma deliver_messages:
  assumes "\<forall>bs\<in>set bss. length bs \<le> 25" and "current_res_topic app \<noteq> []"
  shows "\<exists>app'. deliver node (List.map rx_message bss) app = Some app'
    \<and> app_out app' = app_out app @ List.map (response_of node (current_res_topic app)) bss
    \<and> ipc_rx_sem app' = (if bss = [] then ipc_rx_sem app else 1)"
  using assms
proof (induction bss arbitrary: app)
  case (Cons bs bss)
  then have "length bs \<le> 25" by simp
  then have fits: "\<not> 127 < 5 * length bs - Suc 0" "length bs \<le> 255" by linarith+
  then obtain app1 where app1: "recv_cb node (ipc_msg_of (rx_message bs)) app = Some app1"
    "app_out app1 = app_out app @ [response_of node (current_res_topic app) bs]"
    "current_res_topic app1 = current_res_topic app" "ipc_rx_sem app1 = 1"
    using Cons.prems(2)
    by (auto simp: fits ipc_msg_of_rx recv_cb_def process_immediate_esb_rx_def hex_format_length emit_def Let_def
        ESB_IPC_MSG_TYPE_RX_def response_of_def)
  then show ?case using Cons.IH [of app1] Cons.prems by auto
qed simp

lemma head_window_messages:
  assumes "msgq_ok ops RX_MSGQ_MAX_ITEMS items" and "items (esb_rx_msgq net) = []"
    and "\<forall>(pipe, bs)\<in>set rs. length bs \<le> 32"
  shows "head_window ops rs net = Some (List.map (rx_message \<circ> snd) (take 4 rs))"
proof -
  let ?net = "esb_evt_handler ops HEAD_TX_SUCCESS net"
  have "esb_rx_msgq ?net = esb_rx_msgq net" "sent_msgs (hd_calls ?net) = sent_msgs (hd_calls net)"
    by (simp_all add: esb_evt_handler_def head_call_def sent_msgs_append)
  then show ?thesis
    using forwards_in_order [OF assms(1) _ assms(3), of ?net] assms(2) by (auto simp: head_window_def)
qed

definition ready_node :: "esb_node \<Rightarrow> bool" where
  "ready_node s \<longleftrightarrow> node_inv s \<and> \<not> nd_halted s \<and> nd_pc s = Block_ptx"

definition owed :: "u8 list \<Rightarrow> esb_node \<times> u8 \<times> nat \<Rightarrow> u8 list" where
  "owed p n = owed_reply p (fst (snd n)) (fst n)"

definition hears_head :: "esb_node \<times> u8 \<times> nat \<Rightarrow> bool" where
  "hears_head n \<longleftrightarrow> my_channel (fst n) = 7"

lemma owed_length [simp]: "length (owed p n) = 8"
  by (simp add: owed_def owed_reply_def)

lemma cluster_answers_owed:
  assumes "working res" and "2 \<le> length p" and "p ! 0 = 0x92" and "\<forall>n\<in>set ns. ready_node (fst n)"
  shows "List.map snd (cluster_answers res ns p) = List.map (owed p) (filter hears_head ns)"
  using assms(4)
proof (induction ns)
  case (Cons n ns)
  obtain s rssi rnd where n: "n = (s, rssi, rnd)" by (cases n)
  from node_answers [OF assms(1-3), of s rssi rnd] Cons.prems n obtain q where
    "node_answer res p rssi rnd s = Some q" "packet q = owed_reply p rssi s" by (auto simp: ready_node_def)
  then show ?case using Cons n
    by (simp add: cluster_answers_def List.map_filter_def owed_def hears_head_def)
qed (simp add: cluster_answers_def List.map_filter_def)

text \<open>
  C1: one round of a cluster. When the command text decodes to a trigger (0x91 or 0x92 and a sequence byte), the
  nodes on the head's channel that are ready receive the bytes with 0x92 in front, and what the head publishes,
  in the order of arrival and on the topic of the command, decodes to exactly the replies these nodes owe. Of
  answers that all arrive before the work handler of the head runs only the first four are published, although
  a cluster has up to seven nodes.
\<close>

theorem cluster_round:
  assumes "msgq_ok ops RX_MSGQ_MAX_ITEMS items" and "32 \<le> cap" and "working res" and "topic \<noteq> []"
    and "hex_string_to_binary txt 32 = b # bs" and "b = 0x91 \<or> b = 0x92" and "bs \<noteq> []"
    and "\<forall>n\<in>set ns. ready_node (fst n)"
  shows "\<exists>app' txts. rtt_round ops cap node topic txt (cluster_answers res ns) app net = Some app'
    \<and> app_out app' = app_out app @ [Ipc_tx (1 # of_nat (length (b # bs)) # b # bs)]
        @ List.map (Publish_response (take 127 topic) (case node of Some i \<Rightarrow> i | None \<Rightarrow> ''NA'')) txts
    \<and> List.map (\<lambda>t. hex_string_to_binary t 32) txts
        = List.map (owed (0x92 # bs)) (take 4 (filter hears_head ns))
    \<and> ipc_rx_sem app' = (if filter hears_head ns = [] then 0 else 1)"
proof -
  have len: "length (b # bs) \<le> 32" using hex_string_to_binary_bound [of "txt" 32] assms(5) by simp
  define app1 where "app1 = snd (the (ipc_send_and_wait (b # bs) (length (b # bs)) 0 0 (set_current_res_topic topic app)))"
  have a: "ipc_send_and_wait (b # bs) (length (b # bs)) 0 0 (set_current_res_topic topic app) = Some (0, app1)"
    "app_out app1 = app_out app @ [Ipc_tx (1 # of_nat (length (b # bs)) # b # bs)]"
    "current_res_topic app1 = take 127 topic" "ipc_rx_sem app1 = 0"
    using len by (simp_all add: app1_def ipc_send_and_wait_def memcpy_def emit_def Let_def
        set_current_res_topic_def ESB_IPC_MSG_TYPE_TX_def)
  let ?m = "\<lparr>im_type = 1, im_length = length (b # bs), im_data = b # bs\<rparr>"
  obtain net1 p where h: "head_ep_recv ops cap ?m net = Some (Some net1)" "items (esb_rx_msgq net1) = []"
    "hd_calls net1 = hd_calls net @ [Esb_stop_rx, Esb_flush_tx, Esb_write_payload p]" "packet p = 0x92 # bs"
    using head_ep_recv_tx [OF assms(1), of ?m cap net] assms(2,6) len by (auto simp: ESB_IPC_MSG_TYPE_TX_def)
  define rs where "rs = cluster_answers res ns (0x92 # bs)"
  have "2 \<le> length ((0x92 :: u8) # bs)" using assms(7) by (cases bs) auto
  then have rs: "List.map snd rs = List.map (owed (0x92 # bs)) (filter hears_head ns)"
    using cluster_answers_owed [OF assms(3) _ _ assms(8), of "0x92 # bs"] by (simp add: rs_def)
  then have in_rs: "length (snd r) = 8" if "r \<in> set rs" for r
    using that by (metis (no_types, lifting) image_eqI image_set imageE owed_length)
  have w: "head_window ops rs net1 = Some (List.map (rx_message \<circ> snd) (take 4 rs))"
    by (rule head_window_messages [OF assms(1) h(2)]) (use in_rs in force)
  define bss where "bss = take 4 (List.map (owed (0x92 # bs)) (filter hears_head ns))"
  have ms: "List.map (rx_message \<circ> snd) (take 4 rs) = List.map rx_message bss"
    by (simp add: bss_def take_map flip: rs)
  have "\<forall>x\<in>set bss. length x \<le> 25" unfolding bss_def by (auto dest!: in_set_takeD)
  moreover have "current_res_topic app1 \<noteq> []" using a(3) assms(4) by simp
  ultimately obtain app' where d: "deliver node (List.map rx_message bss) app1 = Some app'"
    "app_out app' = app_out app1 @ List.map (response_of node (current_res_topic app1)) bss"
    "ipc_rx_sem app' = (if bss = [] then ipc_rx_sem app1 else 1)"
    using deliver_messages by blast
  have "rtt_round ops cap node topic txt (cluster_answers res ns) app net = Some app'"
    using a(1,2) h w ms d(1)
    unfolding rtt_round_def assms(5) Let_def rs_def by (simp add: ipc_msg_of_tx [OF len] del: list.size of_nat_Suc)
  moreover have "List.map (response_of node (take 127 topic)) bss =
      List.map (Publish_response (take 127 topic) (case node of Some i \<Rightarrow> i | None \<Rightarrow> ''NA'')) (List.map hex_format bss)"
    by (simp add: response_of_def)
  moreover have "List.map (\<lambda>t. hex_string_to_binary t 32) (List.map hex_format bss)
      = List.map (owed (0x92 # bs)) (take 4 (filter hears_head ns))"
    by (auto simp: hex_decode_format bss_def take_map)
  ultimately show ?thesis using d a
    by (intro exI [of _ app'] exI [of _ "List.map hex_format bss"]) (simp add: bss_def)
qed

definition field_node :: esb_node where
  "field_node = (node_boot 32)\<lparr>my_packet_index := 4, my_channel := 7, battery_mv_avg := 3300,
     last_tx_attempts := 2\<rparr>"

theorem cluster_round_witness:
  "\<exists>app' t. rtt_round (list_msgq 4) 32 None ''g5/rsp'' (hex_format [0x91, 5, 0, 0, 0x21])
      (cluster_answers (\<lambda>_ _. 0) [(field_node, 61, 3), (field_node\<lparr>my_channel := 9\<rparr>, 50, 3)])
      head_app_boot (head_boot 32 []) = Some app'
    \<and> last (app_out app') = Publish_response ''g5/rsp'' ''NA'' t
    \<and> hex_string_to_binary t 32 = [0x93, 5, 0x21, 165, 61, 2, 0, 0]"
proof -
  have q: "msgq_ok (list_msgq 4) RX_MSGQ_MAX_ITEMS (\<lambda>q. q)" by (simp add: RX_MSGQ_MAX_ITEMS_def list_msgq_ok)
  have w: "working (\<lambda>_ _. 0)" by (simp add: working_def)
  have h: "hex_string_to_binary (hex_format [0x91, 5, 0, 0, 0x21]) 32 = 0x91 # [5, 0, 0, 0x21]"
    by (simp add: hex_decode_format del: hex_format.simps)
  have "node_inv (node_boot 32)" by (simp add: node_boot_def node_inv_def retransmit_ok_def)
  then have r: "\<forall>n\<in>set [(field_node, 61, 3), (field_node\<lparr>my_channel := 9\<rparr>, 50, 3)]. ready_node (fst n)"
    by (simp add: ready_node_def field_node_def node_inv_def) (simp add: node_boot_def)
  have o: "owed [0x92, 5, 0, 0, 0x21] (field_node, 61, 3) = [0x93, 5, 0x21, 165, 61, 2, 0, 0]"
    by (simp add: owed_def owed_reply_def field_node_def node_boot_def c_div_def)
  show ?thesis
    using cluster_round [OF q _ w _ h _ _ r, of 32 "''g5/rsp''" None head_app_boot "head_boot 32 []"] o
    by (auto simp: hears_head_def field_node_def node_boot_def map_eq_Cons_conv)
qed

end
