(* ===== verification/PowerThread.thy ===== *)
theory PowerThread
  imports Ntc
begin

text \<open>
  src/threads/power\_thread.c: the averaging of the ADC samples, the maximum-power-point tracker that
  drives the boost converter from the solar panel to the battery, and the decision to start the Wi-Fi
  thread. One \<open>power_tick\<close> is one pass of the thread's loop on a new ADC sample.

  The conversions go through \<open>float\<close>. They are exact: a product of an \<open>int16_t\<close> count with 600 is a
  multiple of 8 below \<open>2\<^sup>2\<^sup>5\<close>, so it is a \<open>float\<close>; and a non-integral quotient by 895 or 607 differs from
  the next integer by at least 1/895, more than half a unit in the last place of a \<open>float\<close> below
  \<open>2\<^sup>1\<^sup>5\<close> (for the divisor 12285: below \<open>2\<^sup>1\<^sup>1\<close>), so truncation gives the truncated quotient \<open>c_div\<close>.
  Temperatures are five times the half degrees of the thermistor table.
\<close>

definition DATA_BUFFER_LENGTH :: nat where "DATA_BUFFER_LENGTH = 50"

datatype MpptPowerState = OFF | SCAN | TRACK

text \<open>One ring buffer with its running sum and average.\<close>

record ring =
  rg_data :: "int list"
  rg_sum :: int
  rg_avg :: int

record power =
  mppt_power_state :: MpptPowerState
  rb_new_ind :: nat
  rb_wr_ind :: nat
  rb_entries :: nat
  pv_mv :: ring
  pv_ma :: ring
  battery_mv :: ring
  ntc_dc :: ring
  new_mw :: int
  gate_duty_cycle :: int
  delta_duty_cycle :: int
  prev_mw :: int
  pwm_on :: bool
  pwm_duty :: int
  pv_i_en :: bool
  tick_count :: nat
  min_power_wifi :: bool
  is_production_build :: bool
  wifi_events :: nat
  mppt_obj :: "(MpptPowerState \<times> int \<times> int \<times> int \<times> int \<times> int \<times> int) option"

definition ring0 :: ring where
  "ring0 = \<lparr>rg_data = replicate DATA_BUFFER_LENGTH 0, rg_sum = 0, rg_avg = 0\<rparr>"

definition power_boot :: "bool \<Rightarrow> power" where
  "power_boot prod_unit =
     \<lparr>mppt_power_state = OFF, rb_new_ind = 0, rb_wr_ind = 0, rb_entries = 0, pv_mv = ring0, pv_ma = ring0,
      battery_mv = ring0, ntc_dc = ring0, new_mw = 0, gate_duty_cycle = 0, delta_duty_cycle = 0,
      prev_mw = 0, pwm_on = False, pwm_duty = 0, pv_i_en = False, tick_count = 0, min_power_wifi = False,
      is_production_build = prod_unit, wifi_events = 0, mppt_obj = None\<rparr>"

section \<open>Samples\<close>

text \<open>The raw counts of the four channels, each an \<open>int16_t\<close>.\<close>

record sample =
  pv_mv_counts :: int
  pv_ma_counts :: int
  battery_mv_counts :: int
  ntc_dc_counts :: int

definition ring_put :: "nat \<Rightarrow> nat \<Rightarrow> int \<Rightarrow> ring \<Rightarrow> ring" where
  "ring_put wr entries v r =
     (let sum0 = (if entries \<ge> DATA_BUFFER_LENGTH then rg_sum r - rg_data r ! wr else rg_sum r);
          data = (rg_data r)[wr := v];
          sum1 = sum0 + data ! wr;
          entries' = (if entries < DATA_BUFFER_LENGTH then entries + 1 else entries)
      in \<lparr>rg_data = data, rg_sum = sum1, rg_avg = c_div sum1 (int entries')\<rparr>)"

definition calculate_adc_values :: "sample \<Rightarrow> power \<Rightarrow> power" where
  "calculate_adc_values x s =
     (let w = rb_wr_ind s; n = rb_entries s;
          w' = (if w + 1 \<ge> DATA_BUFFER_LENGTH then 0 else w + 1)
      in s\<lparr>pv_mv := ring_put w n (c_div (pv_mv_counts x * 600) 895) (pv_mv s),
           battery_mv := ring_put w n (c_div (battery_mv_counts x * 600) 607) (battery_mv s),
           pv_ma := ring_put w n (c_div (pv_ma_counts x * 600) 12285) (pv_ma s),
           ntc_dc := ring_put w n (helio_ntc_adc_to_temp (ntc_dc_counts x) * 5) (ntc_dc s),
           rb_new_ind := w, rb_wr_ind := w',
           rb_entries := (if n < DATA_BUFFER_LENGTH then n + 1 else n)\<rparr>)"

definition reset_ringbuffer :: "power \<Rightarrow> power" where
  "reset_ringbuffer s =
     s\<lparr>rb_new_ind := 0, rb_wr_ind := 0, rb_entries := 0,
       pv_mv := (pv_mv s)\<lparr>rg_sum := 0\<rparr>, pv_ma := (pv_ma s)\<lparr>rg_sum := 0\<rparr>,
       battery_mv := (battery_mv s)\<lparr>rg_sum := 0\<rparr>, ntc_dc := (ntc_dc s)\<lparr>rg_sum := 0\<rparr>\<rparr>"

section \<open>The tracker\<close>

definition MAX_BATTERY_MV :: int where "MAX_BATTERY_MV = 3600"
definition BATTERY_CHARGE_TEMP_MIN_DC :: int where "BATTERY_CHARGE_TEMP_MIN_DC = 0"
definition BATTERY_CHARGE_TEMP_MAX_DC :: int where "BATTERY_CHARGE_TEMP_MAX_DC = 4500"
definition MIN_DUTY_CYCLE :: int where [fw_defs]: "MIN_DUTY_CYCLE = 1"
definition MAX_DUTY_CYCLE :: int where [fw_defs]: "MAX_DUTY_CYCLE = 254"
definition MIN_PV_TURN_ON_MV :: int where "MIN_PV_TURN_ON_MV = 1200"
definition SCAN_DUTY_INCREMENT :: int where [fw_defs]: "SCAN_DUTY_INCREMENT = 5"
definition MIN_MW_HARVESTING_STOP :: int where "MIN_MW_HARVESTING_STOP = 25"

definition check_charging_ok :: "int \<Rightarrow> int \<Rightarrow> bool" where
  "check_charging_ok temperature battery \<longleftrightarrow>
     \<not> battery > MAX_BATTERY_MV \<and> \<not> temperature < BATTERY_CHARGE_TEMP_MIN_DC
     \<and> \<not> temperature > BATTERY_CHARGE_TEMP_MAX_DC"

definition charging_ok :: "power \<Rightarrow> bool" where
  "charging_ok s = check_charging_ok (rg_avg (ntc_dc s)) (rg_data (battery_mv s) ! rb_new_ind s)"

definition transition_to_off :: "power \<Rightarrow> power" where
  "transition_to_off s = s\<lparr>pwm_on := False, pv_i_en := False, mppt_power_state := OFF\<rparr>"

text \<open>Every caller assigns the returned duty to \<open>gate_duty_cycle\<close>; the model's function does both.\<close>

definition set_duty_cycle :: "int \<Rightarrow> power \<Rightarrow> power" where
  "set_duty_cycle new_duty s =
     (let d1 = (if new_duty < MIN_DUTY_CYCLE then MIN_DUTY_CYCLE else new_duty);
          d2 = (if d1 > MAX_DUTY_CYCLE then MAX_DUTY_CYCLE else d1)
      in s\<lparr>gate_duty_cycle := d2, pwm_on := True, pwm_duty := d2\<rparr>)"

definition mppt_off :: "power \<Rightarrow> power" where
  "mppt_off s =
     (if rb_entries s < DATA_BUFFER_LENGTH then s
      else if rg_avg (pv_mv s) > MIN_PV_TURN_ON_MV \<and> charging_ok s
      then reset_ringbuffer
             ((set_duty_cycle MIN_DUTY_CYCLE (s\<lparr>prev_mw := 0\<rparr>))
                \<lparr>delta_duty_cycle := - 1, mppt_power_state := SCAN, pv_i_en := True\<rparr>)
      else s)"

definition mppt_scan :: "power \<Rightarrow> power" where
  "mppt_scan s =
     (if \<not> charging_ok s then transition_to_off s
      else if rb_entries s < DATA_BUFFER_LENGTH then s
      else
        let mw = c_div (rg_avg (pv_mv s) * rg_avg (pv_ma s)) 1000;
            s1 = reset_ringbuffer (s\<lparr>new_mw := mw\<rparr>);
            d1 = gate_duty_cycle s1 + SCAN_DUTY_INCREMENT;
            (d2, st) = (if mw < prev_mw s1 then (d1 - 2 * SCAN_DUTY_INCREMENT, TRACK)
                        else (d1, mppt_power_state s1));
            s2 = set_duty_cycle d2 (s1\<lparr>mppt_power_state := st\<rparr>);
            s3 = (if gate_duty_cycle s2 \<ge> MAX_DUTY_CYCLE then s2\<lparr>mppt_power_state := TRACK\<rparr> else s2)
        in s3\<lparr>prev_mw := mw\<rparr>)"

definition mppt_track :: "power \<Rightarrow> power" where
  "mppt_track s =
     (if \<not> charging_ok s then transition_to_off s
      else if rb_entries s < DATA_BUFFER_LENGTH then s
      else
        let mw = c_div (rg_avg (pv_mv s) * rg_avg (pv_ma s)) 1000;
            s0 = s\<lparr>new_mw := mw\<rparr>
        in if mw < MIN_MW_HARVESTING_STOP then transition_to_off s0
           else
             let s1 = reset_ringbuffer s0;
                 s2 = (if gate_duty_cycle s1 = MIN_DUTY_CYCLE
                       then s1\<lparr>gate_duty_cycle := gate_duty_cycle s1 + 1, delta_duty_cycle := 1\<rparr>
                       else if gate_duty_cycle s1 = MAX_DUTY_CYCLE
                       then s1\<lparr>gate_duty_cycle := gate_duty_cycle s1 - 1, delta_duty_cycle := - 1\<rparr>
                       else let delta = (if mw < prev_mw s1 then - delta_duty_cycle s1
                                         else delta_duty_cycle s1)
                            in s1\<lparr>delta_duty_cycle := delta,
                                  gate_duty_cycle := gate_duty_cycle s1 + delta\<rparr>)
             in set_duty_cycle (gate_duty_cycle s2) (s2\<lparr>prev_mw := mw\<rparr>))"

definition update_mppt_power_state :: "power \<Rightarrow> power" where
  "update_mppt_power_state s =
     (case mppt_power_state s of OFF \<Rightarrow> mppt_off s | SCAN \<Rightarrow> mppt_scan s | TRACK \<Rightarrow> mppt_track s)"

section \<open>The thread\<close>

definition BATT_MV_AVG_WIFI_ON :: int where "BATT_MV_AVG_WIFI_ON = 3100"
definition PV_MV_AVG_WIFI_ON :: int where "PV_MV_AVG_WIFI_ON = 1250"

text \<open>\<open>locked\<close>: the mutex of the published object could be taken.\<close>

definition update_mppt_obj :: "bool \<Rightarrow> power \<Rightarrow> power" where
  "update_mppt_obj locked s =
     (if locked
      then s\<lparr>mppt_obj := Some (mppt_power_state s, gate_duty_cycle s, rg_avg (pv_mv s), rg_avg (pv_ma s),
               new_mw s, rg_avg (battery_mv s), rg_avg (ntc_dc s))\<rparr>
      else s)"

text \<open>The passes between two reports: the head's and the node's image.\<close>

definition head_report_ticks :: nat where "head_report_ticks = 200"
definition node_report_ticks :: nat where "node_report_ticks = 800"

definition power_tick :: "nat \<Rightarrow> sample \<times> bool \<Rightarrow> power \<Rightarrow> power" where
  "power_tick N xl s =
     (let s1 = update_mppt_power_state (calculate_adc_values (fst xl) s);
          s2 = (if tick_count s1 mod N = 0
                then let s3 = update_mppt_obj (snd xl) s1
                     in if \<not> min_power_wifi s3
                        then if rg_avg (battery_mv s3) > BATT_MV_AVG_WIFI_ON
                                \<and> (\<not> is_production_build s3 \<or> rg_avg (pv_mv s3) > PV_MV_AVG_WIFI_ON)
                             then s3\<lparr>wifi_events := wifi_events s3 + 1, min_power_wifi := True\<rparr>
                             else s3
                        else s3
                else s1)
      in s2\<lparr>tick_count := (tick_count s2 + 1) mod 2 ^ 32\<rparr>)"

section \<open>The moving average\<close>

text \<open>The samples a ring holds, oldest first: its first \<open>n\<close> cells while it fills, then all from \<open>wr\<close>.\<close>

definition ring_window :: "nat \<Rightarrow> nat \<Rightarrow> ring \<Rightarrow> int list" where
  "ring_window n wr r =
     (if n < DATA_BUFFER_LENGTH then take n (rg_data r) else drop wr (rg_data r) @ take wr (rg_data r))"

definition ring_ok :: "nat \<Rightarrow> nat \<Rightarrow> ring \<Rightarrow> bool" where
  "ring_ok n wr r \<longleftrightarrow> length (rg_data r) = DATA_BUFFER_LENGTH \<and> rg_sum r = sum_list (ring_window n wr r)"

definition index_ok :: "nat \<Rightarrow> nat \<Rightarrow> bool" where
  "index_ok n wr \<longleftrightarrow> n \<le> DATA_BUFFER_LENGTH \<and> wr < DATA_BUFFER_LENGTH
     \<and> (n < DATA_BUFFER_LENGTH \<longrightarrow> wr = n)"

definition next_entries :: "nat \<Rightarrow> nat" where
  [fw_defs]: "next_entries n = (if n < DATA_BUFFER_LENGTH then n + 1 else n)"

definition next_wr :: "nat \<Rightarrow> nat" where
  [fw_defs]: "next_wr w = (if w + 1 \<ge> DATA_BUFFER_LENGTH then 0 else w + 1)"

text \<open>The last 50 elements of a list.\<close>

definition last_window :: "int list \<Rightarrow> int list" where
  "last_window xs = drop (length xs - DATA_BUFFER_LENGTH) xs"

lemma dbl_pos [simp]: "0 < DATA_BUFFER_LENGTH"
  by (simp add: DATA_BUFFER_LENGTH_def)

lemma index_ok_next: "index_ok n w \<Longrightarrow> index_ok (next_entries n) (next_wr w)"
  by (auto simp: index_ok_def next_entries_def next_wr_def)

lemma ring_window_length:
  "index_ok n w \<Longrightarrow> length (rg_data r) = DATA_BUFFER_LENGTH \<Longrightarrow> length (ring_window n w r) = n"
  by (auto simp: ring_window_def index_ok_def)

lemma list_update_split:
  "w < length xs \<Longrightarrow> drop (Suc w) (xs[w := v]) @ take (Suc w) (xs[w := v]) = tl (drop w xs @ take w xs) @ [v]"
  by (simp add: take_Suc_conv_app_nth flip: Cons_nth_drop_Suc)

lemma last_window_full: "length xs = DATA_BUFFER_LENGTH \<Longrightarrow> last_window (xs @ [v]) = tl xs @ [v]"
  using dbl_pos by (cases xs) (auto simp: last_window_def simp del: dbl_pos)

lemma ring_put_window:
  assumes i: "index_ok n w" and l: "length (rg_data r) = DATA_BUFFER_LENGTH"
  shows "ring_window (next_entries n) (next_wr w) (ring_put w n v r) = last_window (ring_window n w r @ [v])"
proof (cases "n < DATA_BUFFER_LENGTH")
  case True
  then have w: "w = n" using i by (simp add: index_ok_def)
  have win: "last_window (ring_window n w r @ [v]) = take n (rg_data r) @ [v]"
    using True l by (simp add: last_window_def ring_window_def)
  have "take (Suc n) ((rg_data r)[n := v]) = take n (rg_data r) @ [v]"
    using True l by (simp add: take_Suc_conv_app_nth)
  moreover have "ring_window (next_entries n) (next_wr w) (ring_put w n v r)
    = take (Suc n) ((rg_data r)[n := v])"
    using True l w by (auto simp: ring_window_def ring_put_def Let_def next_entries_def next_wr_def)
  ultimately show ?thesis using win by simp
next
  case False
  then have n: "n = DATA_BUFFER_LENGTH" and w: "w < length (rg_data r)" using i l by (auto simp: index_ok_def)
  have "last_window (ring_window n w r @ [v]) = tl (drop w (rg_data r) @ take w (rg_data r)) @ [v]"
    using n w l last_window_full [of "drop w (rg_data r) @ take w (rg_data r)" v] by (simp add: ring_window_def)
  moreover have "ring_window (next_entries n) (next_wr w) (ring_put w n v r)
    = drop (Suc w) ((rg_data r)[w := v]) @ take (Suc w) ((rg_data r)[w := v])"
    using n w l by (auto simp: ring_window_def ring_put_def Let_def next_entries_def next_wr_def)
  ultimately show ?thesis using list_update_split [OF w] by simp
qed

lemma last_window_sum:
  "length xs \<le> DATA_BUFFER_LENGTH \<Longrightarrow>
   sum_list (last_window (xs @ [v]))
   = (if length xs = DATA_BUFFER_LENGTH then sum_list xs - hd xs + v else sum_list xs + v)"
proof (cases "length xs = DATA_BUFFER_LENGTH")
  case True
  then obtain y ys where "xs = y # ys" using dbl_pos by (cases xs) auto
  then show ?thesis using True last_window_full [OF True] by simp
qed (simp add: last_window_def)

lemma hd_ring_window:
  "w < length (rg_data r) \<Longrightarrow> hd (ring_window DATA_BUFFER_LENGTH w r) = rg_data r ! w"
  by (simp add: ring_window_def hd_append hd_drop_conv_nth)

lemma ring_put_ok:
  assumes i: "index_ok n w" and r: "ring_ok n w r"
  shows "ring_ok (next_entries n) (next_wr w) (ring_put w n v r)"
    "rg_avg (ring_put w n v r)
     = c_div (sum_list (last_window (ring_window n w r @ [v]))) (int (next_entries n))"
proof -
  have l: "length (rg_data r) = DATA_BUFFER_LENGTH" and s: "rg_sum r = sum_list (ring_window n w r)"
    using r by (simp_all add: ring_ok_def)
  have len: "length (ring_window n w r) = n" by (rule ring_window_length [OF i l])
  have w: "w < length (rg_data r)" and n: "n \<le> DATA_BUFFER_LENGTH" using i l by (auto simp: index_ok_def)
  have sum: "rg_sum (ring_put w n v r) = sum_list (last_window (ring_window n w r @ [v]))"
    using w n s len last_window_sum [of "ring_window n w r" v] hd_ring_window [OF w]
    by (auto simp: ring_put_def Let_def)
  show "ring_ok (next_entries n) (next_wr w) (ring_put w n v r)"
    using sum l ring_put_window [OF i l, of v] by (simp add: ring_ok_def) (simp add: ring_put_def Let_def)
  show "rg_avg (ring_put w n v r)
     = c_div (sum_list (last_window (ring_window n w r @ [v]))) (int (next_entries n))"
    using sum by (simp add: ring_put_def Let_def next_entries_def)
qed

lemma last_window_append: "last_window (last_window xs @ [v]) = last_window (xs @ [v])"
  by (cases "length xs < DATA_BUFFER_LENGTH") (simp_all add: last_window_def Suc_diff_le flip: drop_Suc)

section \<open>The invariant of the thread\<close>

definition all_rings :: "power \<Rightarrow> ring list" where
  "all_rings s = [pv_mv s, pv_ma s, battery_mv s, ntc_dc s]"

definition rings_inv :: "power \<Rightarrow> bool" where
  "rings_inv s \<longleftrightarrow> index_ok (rb_entries s) (rb_wr_ind s) \<and> rb_new_ind s < DATA_BUFFER_LENGTH
     \<and> list_all (ring_ok (rb_entries s) (rb_wr_ind s)) (all_rings s)
     \<and> list_all (\<lambda>v. - 135 \<le> v \<and> v \<le> 1250) (rg_data (ntc_dc s))"

definition drive_inv :: "power \<Rightarrow> bool" where
  "drive_inv s \<longleftrightarrow> pwm_on s = (mppt_power_state s \<noteq> OFF) \<and> pv_i_en s = (mppt_power_state s \<noteq> OFF)
     \<and> (mppt_power_state s \<noteq> OFF \<longrightarrow>
          MIN_DUTY_CYCLE \<le> gate_duty_cycle s \<and> gate_duty_cycle s \<le> MAX_DUTY_CYCLE
          \<and> pwm_duty s = gate_duty_cycle s \<and> \<bar>delta_duty_cycle s\<bar> = 1)"

definition power_inv :: "power \<Rightarrow> bool" where
  "power_inv s \<longleftrightarrow> rings_inv s \<and> drive_inv s
     \<and> wifi_events s = (if min_power_wifi s then 1 else 0) \<and> tick_count s < 2 ^ 32"

lemma ring_ok_reset: "ring_ok n w r \<Longrightarrow> ring_ok 0 0 (r\<lparr>rg_sum := 0\<rparr>)"
  by (simp add: ring_ok_def ring_window_def)

lemma index_ok_reset: "index_ok 0 0"
  by (simp add: index_ok_def)

lemma ntc_cell_range: "- 135 \<le> helio_ntc_adc_to_temp c * 5 \<and> helio_ntc_adc_to_temp c * 5 \<le> 1250"
proof -
  obtain i where "helio_ntc_adc_to_temp c = ntc_temperature ! i" "i < length ntc_temperature"
    using ntc_lookup [of c] ntc_lengths by auto
  then show ?thesis using ntc_temperature_bounds [of "helio_ntc_adc_to_temp c"] by simp
qed

lemma rings_inv_calculate: "rings_inv s \<Longrightarrow> rings_inv (calculate_adc_values x s)"
proof -
  assume s: "rings_inv s"
  let ?n = "rb_entries s" and ?w = "rb_wr_ind s"
  have i: "index_ok ?n ?w" and r: "ring_ok ?n ?w (pv_mv s)" "ring_ok ?n ?w (pv_ma s)"
    "ring_ok ?n ?w (battery_mv s)" "ring_ok ?n ?w (ntc_dc s)"
    and v: "list_all (\<lambda>v. - 135 \<le> v \<and> v \<le> 1250) (rg_data (ntc_dc s))"
    using s by (simp_all add: rings_inv_def all_rings_def)
  have "list_all (\<lambda>v. - 135 \<le> v \<and> v \<le> 1250) ((rg_data (ntc_dc s))[?w := helio_ntc_adc_to_temp c * 5])" for c
    using v ntc_cell_range [of c] set_update_subset_insert [of "rg_data (ntc_dc s)" ?w]
    by (fastforce simp: list_all_iff)
  then show ?thesis
    using index_ok_next [OF i] ring_put_ok(1) [OF i r(1)] ring_put_ok(1) [OF i r(2)]
      ring_put_ok(1) [OF i r(3)] ring_put_ok(1) [OF i r(4)] i
    unfolding rings_inv_def all_rings_def calculate_adc_values_def next_entries_def next_wr_def
    by (simp add: Let_def index_ok_def) (simp add: ring_put_def Let_def)
qed

lemma rings_inv_reset: "rings_inv s \<Longrightarrow> rings_inv (reset_ringbuffer s)"
  by (auto simp: rings_inv_def all_rings_def reset_ringbuffer_def index_ok_reset intro: ring_ok_reset)

lemma rings_inv_fields [simp]:
  "rings_inv (s\<lparr>prev_mw := a\<rparr>) = rings_inv s"
  "rings_inv (s\<lparr>new_mw := a\<rparr>) = rings_inv s"
  "rings_inv (s\<lparr>delta_duty_cycle := a\<rparr>) = rings_inv s"
  "rings_inv (s\<lparr>gate_duty_cycle := a\<rparr>) = rings_inv s"
  "rings_inv (s\<lparr>mppt_power_state := st\<rparr>) = rings_inv s"
  "rings_inv (s\<lparr>pv_i_en := b\<rparr>) = rings_inv s"
  "rings_inv (set_duty_cycle a s) = rings_inv s"
  "rings_inv (transition_to_off s) = rings_inv s"
  by (simp_all add: rings_inv_def all_rings_def set_duty_cycle_def transition_to_off_def Let_def)

lemmas mppt_defs = update_mppt_power_state_def mppt_off_def mppt_scan_def mppt_track_def

lemma rings_inv_mppt: "rings_inv s \<Longrightarrow> rings_inv (update_mppt_power_state s)"
  by (auto simp: mppt_defs Let_def rings_inv_reset split: MpptPowerState.split)

lemma drive_inv_calculate: "drive_inv (calculate_adc_values x s) = drive_inv s"
  by (simp add: drive_inv_def calculate_adc_values_def Let_def)

lemma drive_inv_off: "drive_inv (transition_to_off s)"
  by (simp add: drive_inv_def transition_to_off_def)

lemma drive_inv_reset: "drive_inv (reset_ringbuffer s) = drive_inv s"
  by (simp add: drive_inv_def reset_ringbuffer_def)

lemma drive_inv_mppt_off: "drive_inv s \<Longrightarrow> drive_inv (mppt_off s)"
  by (auto simp: mppt_off_def drive_inv_reset) (simp add: drive_inv_def set_duty_cycle_def fw_defs)

lemma set_duty_cycle_range:
  "MIN_DUTY_CYCLE \<le> gate_duty_cycle (set_duty_cycle d s)"
  "gate_duty_cycle (set_duty_cycle d s) \<le> MAX_DUTY_CYCLE"
  "pwm_on (set_duty_cycle d s)"
  "pwm_duty (set_duty_cycle d s) = gate_duty_cycle (set_duty_cycle d s)"
  by (simp_all add: set_duty_cycle_def Let_def fw_defs)

lemma set_duty_cycle_keeps [simp]:
  "mppt_power_state (set_duty_cycle d s) = mppt_power_state s"
  "pv_i_en (set_duty_cycle d s) = pv_i_en s"
  "delta_duty_cycle (set_duty_cycle d s) = delta_duty_cycle s"
  "prev_mw (set_duty_cycle d s) = prev_mw s"
  by (simp_all add: set_duty_cycle_def Let_def)

lemma reset_keeps [simp]:
  "mppt_power_state (reset_ringbuffer s) = mppt_power_state s"
  "pv_i_en (reset_ringbuffer s) = pv_i_en s"
  "pwm_on (reset_ringbuffer s) = pwm_on s"
  "gate_duty_cycle (reset_ringbuffer s) = gate_duty_cycle s"
  "delta_duty_cycle (reset_ringbuffer s) = delta_duty_cycle s"
  "prev_mw (reset_ringbuffer s) = prev_mw s"
  by (simp_all add: reset_ringbuffer_def)

lemma drive_inv_mppt_scan:
  "drive_inv s \<Longrightarrow> mppt_power_state s \<noteq> OFF \<Longrightarrow> drive_inv (mppt_scan s)"
  by (auto simp: mppt_scan_def Let_def drive_inv_off) (simp_all add: drive_inv_def set_duty_cycle_range)

lemma duty_bounds_differ: "MAX_DUTY_CYCLE \<noteq> MIN_DUTY_CYCLE"
  by (simp add: fw_defs)

lemma drive_inv_mppt_track:
  "drive_inv s \<Longrightarrow> mppt_power_state s \<noteq> OFF \<Longrightarrow> drive_inv (mppt_track s)"
  by (auto simp: mppt_track_def Let_def drive_inv_off)
    (simp_all add: drive_inv_def set_duty_cycle_range duty_bounds_differ)

lemma drive_inv_mppt: "drive_inv s \<Longrightarrow> drive_inv (update_mppt_power_state s)"
  using drive_inv_mppt_off drive_inv_mppt_scan drive_inv_mppt_track
  by (auto simp: update_mppt_power_state_def split: MpptPowerState.split)

lemma calculate_keeps [simp]:
  "wifi_events (calculate_adc_values x s) = wifi_events s"
  "min_power_wifi (calculate_adc_values x s) = min_power_wifi s"
  "tick_count (calculate_adc_values x s) = tick_count s"
  "mppt_power_state (calculate_adc_values x s) = mppt_power_state s"
  by (simp_all add: calculate_adc_values_def Let_def)

lemma mppt_keeps [simp]:
  "wifi_events (update_mppt_power_state s) = wifi_events s"
  "min_power_wifi (update_mppt_power_state s) = min_power_wifi s"
  "tick_count (update_mppt_power_state s) = tick_count s"
  by (auto simp: mppt_defs Let_def set_duty_cycle_def reset_ringbuffer_def transition_to_off_def
      split: MpptPowerState.split)

lemma update_mppt_obj_keeps [simp]:
  "rings_inv (update_mppt_obj l s) = rings_inv s" "drive_inv (update_mppt_obj l s) = drive_inv s"
  "wifi_events (update_mppt_obj l s) = wifi_events s" "tick_count (update_mppt_obj l s) = tick_count s"
  "min_power_wifi (update_mppt_obj l s) = min_power_wifi s"
  "mppt_power_state (update_mppt_obj l s) = mppt_power_state s"
  by (simp_all add: update_mppt_obj_def rings_inv_def all_rings_def drive_inv_def)

lemma inv_admin_fields [simp]:
  "rings_inv (s\<lparr>wifi_events := a, min_power_wifi := b\<rparr>) = rings_inv s"
  "rings_inv (s\<lparr>tick_count := n\<rparr>) = rings_inv s"
  "drive_inv (s\<lparr>wifi_events := a, min_power_wifi := b\<rparr>) = drive_inv s"
  "drive_inv (s\<lparr>tick_count := n\<rparr>) = drive_inv s"
  by (simp_all add: rings_inv_def all_rings_def drive_inv_def)

lemma power_inv_tick: "power_inv s \<Longrightarrow> power_inv (power_tick N e s)"
  by (auto simp: power_inv_def power_tick_def Let_def rings_inv_mppt rings_inv_calculate
      drive_inv_mppt drive_inv_calculate)

lemma power_inv_boot: "power_inv (power_boot b)"
  by (simp add: power_inv_def rings_inv_def drive_inv_def all_rings_def power_boot_def ring0_def
      ring_ok_def ring_window_def index_ok_def list_all_iff)

interpretation power: machine "\<lambda>s. \<exists>b. s = power_boot b" "power_tick N" power_inv for N
  by unfold_locales (auto simp: power_inv_boot power_inv_tick)

lemma mppt_on_needs_charging:
  "mppt_power_state (update_mppt_power_state s) \<noteq> OFF \<Longrightarrow> charging_ok s"
  by (auto simp: mppt_defs Let_def transition_to_off_def split: MpptPowerState.splits if_splits)

lemma newest_battery:
  "rings_inv s \<Longrightarrow>
   rg_data (battery_mv (calculate_adc_values x s)) ! rb_new_ind (calculate_adc_values x s)
   = c_div (battery_mv_counts x * 600) 607"
  by (auto simp: rings_inv_def all_rings_def index_ok_def ring_ok_def calculate_adc_values_def
      ring_put_def Let_def)

lemma power_tick_state:
  "mppt_power_state (power_tick N (x, l) s)
   = mppt_power_state (update_mppt_power_state (calculate_adc_values x s))"
  by (simp add: power_tick_def Let_def)

section \<open>Averages and temperatures\<close>

definition sample_values :: "sample \<Rightarrow> int list" where
  "sample_values x = [c_div (pv_mv_counts x * 600) 895, c_div (pv_ma_counts x * 600) 12285,
     c_div (battery_mv_counts x * 600) 607, helio_ntc_adc_to_temp (ntc_dc_counts x) * 5]"

definition windows :: "power \<Rightarrow> int list list" where
  "windows s = map (ring_window (rb_entries s) (rb_wr_ind s)) (all_rings s)"

lemma calculate_windows:
  assumes "rings_inv s"
  shows "windows (calculate_adc_values x s)
      = map2 (\<lambda>w v. last_window (w @ [v])) (windows s) (sample_values x)"
    and "map rg_avg (all_rings (calculate_adc_values x s))
      = map (\<lambda>w. c_div (sum_list w) (int (next_entries (rb_entries s)))) (windows (calculate_adc_values x s))"
    and "rb_entries (calculate_adc_values x s) = next_entries (rb_entries s)"
proof -
  let ?n = "rb_entries s" and ?w = "rb_wr_ind s"
  have i: "index_ok ?n ?w" and r: "ring_ok ?n ?w (pv_mv s)" "ring_ok ?n ?w (pv_ma s)"
    "ring_ok ?n ?w (battery_mv s)" "ring_ok ?n ?w (ntc_dc s)"
    using assms by (simp_all add: rings_inv_def all_rings_def)
  then have l: "length (rg_data (pv_mv s)) = DATA_BUFFER_LENGTH" "length (rg_data (pv_ma s)) = DATA_BUFFER_LENGTH"
    "length (rg_data (battery_mv s)) = DATA_BUFFER_LENGTH" "length (rg_data (ntc_dc s)) = DATA_BUFFER_LENGTH"
    by (simp_all add: ring_ok_def)
  have c: "all_rings (calculate_adc_values x s) =
      map2 (\<lambda>r v. ring_put ?w ?n v r) (all_rings s) (sample_values x)"
    "rb_entries (calculate_adc_values x s) = next_entries ?n"
    "rb_wr_ind (calculate_adc_values x s) = next_wr ?w"
    by (simp_all add: calculate_adc_values_def Let_def all_rings_def sample_values_def fw_defs)
  show w: "windows (calculate_adc_values x s)
      = map2 (\<lambda>w v. last_window (w @ [v])) (windows s) (sample_values x)"
    unfolding windows_def c by (simp add: all_rings_def sample_values_def ring_put_window [OF i] l)
  show "map rg_avg (all_rings (calculate_adc_values x s))
      = map (\<lambda>w. c_div (sum_list w) (int (next_entries (rb_entries s)))) (windows (calculate_adc_values x s))"
    unfolding w unfolding c windows_def
    by (simp add: all_rings_def sample_values_def ring_put_ok(2) [OF i r(1)] ring_put_ok(2) [OF i r(2)]
        ring_put_ok(2) [OF i r(3)] ring_put_ok(2) [OF i r(4)])
  show "rb_entries (calculate_adc_values x s) = next_entries (rb_entries s)" by (rule c(2))
qed

lemma rings_inv_samples: "rings_inv s \<Longrightarrow> rings_inv (fold calculate_adc_values xs s)"
  by (induction xs arbitrary: s) (auto intro: rings_inv_calculate)

lemma windows_after_reset:
  assumes "rings_inv s"
  shows "windows (fold calculate_adc_values xs (reset_ringbuffer s))
      = map (\<lambda>c. last_window (map (\<lambda>x. sample_values x ! c) xs)) [0, 1, 2, 3]
    \<and> rb_entries (fold calculate_adc_values xs (reset_ringbuffer s)) = min (length xs) DATA_BUFFER_LENGTH"
proof (induction xs rule: rev_induct)
  case Nil
  then show ?case
    by (simp add: windows_def reset_ringbuffer_def all_rings_def ring_window_def last_window_def)
next
  case (snoc x xs)
  have i: "rings_inv (fold calculate_adc_values xs (reset_ringbuffer s))"
    by (intro rings_inv_samples rings_inv_reset assms)
  show ?case
    using snoc calculate_windows(1) [OF i, of x] calculate_windows(3) [OF i, of x]
    by (simp add: last_window_append sample_values_def next_entries_def)
qed

section \<open>Properties\<close>

text \<open>
  Further: in every run of the power thread the ring indices stay in range, each running sum is the sum of
  the samples its ring holds, the PWM output and the current sensor are on exactly outside OFF with a
  duty between 1 and 254 and a perturbation of plus or minus one, and the Wi-Fi start event is
  submitted at most once.
\<close>

theorem power_invariant: "power_inv (fold (power_tick N) es (power_boot b))"
  by (rule power.inv_run) blast

text \<open>
  C17: whatever the samples, after a pass that leaves the tracker on, the battery voltage just sampled
  is at most 3600 mV and the average temperature over the window is not negative: no pass starts or
  keeps driving the converter on an overcharged or frozen battery.
\<close>

theorem power_drive_needs_charging:
  assumes inv: "power_inv s" and on: "mppt_power_state (power_tick N (x, l) s) \<noteq> OFF"
  shows "c_div (battery_mv_counts x * 600) 607 \<le> 3600 \<and> 0 \<le> rg_avg (ntc_dc (calculate_adc_values x s))"
proof -
  have "rings_inv s" using inv by (simp add: power_inv_def)
  moreover have "charging_ok (calculate_adc_values x s)"
    using on by (intro mppt_on_needs_charging) (simp add: power_tick_state)
  ultimately show ?thesis
    by (simp add: charging_ok_def check_charging_ok_def newest_battery MAX_BATTERY_MV_def
        BATTERY_CHARGE_TEMP_MIN_DC_def)
qed

text \<open>
  C31: after a reset of the buffers, the four averages are the truncated means of the last 50 samples
  converted to millivolts, milliamperes and tenths of a degree, or of all samples while there are
  fewer than 50.
\<close>

theorem power_moving_average:
  assumes inv: "power_inv s" and ne: "xs \<noteq> []"
  shows "map rg_avg (all_rings (fold calculate_adc_values xs (reset_ringbuffer s)))
    = map (\<lambda>c. c_div (sum_list (last_window (map (\<lambda>x. sample_values x ! c) xs)))
                      (int (min (length xs) DATA_BUFFER_LENGTH))) [0, 1, 2, 3]"
proof -
  obtain ys x where xs: "xs = ys @ [x]" using ne by (cases xs rule: rev_cases) auto
  have s: "rings_inv s" using inv by (simp add: power_inv_def)
  let ?t = "fold calculate_adc_values ys (reset_ringbuffer s)"
  have t: "rings_inv ?t" by (intro rings_inv_samples rings_inv_reset s)
  show ?thesis
    using windows_after_reset [OF s, of xs] calculate_windows(2) [OF t, of x]
      calculate_windows(3) [OF t, of x] unfolding xs by simp
qed

theorem power_moving_average_witness:
  "map rg_avg (all_rings (fold calculate_adc_values
     [\<lparr>pv_mv_counts = 1000, pv_ma_counts = 2000, battery_mv_counts = 3000, ntc_dc_counts = 1000\<rparr>,
      \<lparr>pv_mv_counts = 2000, pv_ma_counts = 1000, battery_mv_counts = 3100, ntc_dc_counts = 1000\<rparr>]
     (reset_ringbuffer (power_boot True)))) = [1005, 72, 3014, 285]"
proof -
  let ?x = "\<lparr>pv_mv_counts = 1000, pv_ma_counts = 2000, battery_mv_counts = 3000, ntc_dc_counts = 1000\<rparr>"
  let ?y = "\<lparr>pv_mv_counts = 2000, pv_ma_counts = 1000, battery_mv_counts = 3100, ntc_dc_counts = 1000\<rparr>"
  have "map (\<lambda>c. c_div (sum_list (last_window (map (\<lambda>x. sample_values x ! c) [?x, ?y])))
          (int (min (length [?x, ?y]) DATA_BUFFER_LENGTH))) [0, 1, 2, 3] = [1005, 72, 3014, 285]"
    by code_simp
  then show ?thesis using power_moving_average [OF power_inv_boot [of True], of "[?x, ?y]"] by simp
qed

section \<open>Temperature cutoff and hill climbing\<close>

lemma c_div_le: "s \<le> b * n \<Longrightarrow> 0 \<le> b \<Longrightarrow> 0 < n \<Longrightarrow> c_div s n \<le> b"
  by (cases "0 \<le> s")
    (auto simp: c_div_nonneg c_div_neg pos_imp_zdiv_nonneg_iff mult.commute
      intro: order.trans [OF zdiv_mono1 [of s "n * b" n]] order.trans [of _ 0])

lemma ring_window_set: "set (ring_window n w r) \<subseteq> set (rg_data r)"
  by (auto simp: ring_window_def dest: in_set_takeD in_set_dropD)

lemma ntc_average_bound:
  assumes "rings_inv s"
  shows "rg_avg (ntc_dc (calculate_adc_values x s)) \<le> 1250"
proof -
  let ?t = "calculate_adc_values x s"
  let ?w = "ring_window (rb_entries ?t) (rb_wr_ind ?t) (ntc_dc ?t)"
  have t: "rings_inv ?t" by (rule rings_inv_calculate [OF assms])
  then have "list_all (\<lambda>v. - 135 \<le> v \<and> v \<le> 1250) (rg_data (ntc_dc ?t))" by (simp add: rings_inv_def)
  then have le: "\<forall>v\<in>set ?w. v \<le> 1250" using ring_window_set by (fastforce simp: list_all_iff)
  have len: "length ?w = rb_entries ?t"
    using t by (intro ring_window_length) (auto simp: rings_inv_def all_rings_def ring_ok_def)
  have "sum_list ?w \<le> sum_list (map (\<lambda>_. 1250) ?w)"
    using le sum_list_mono [of ?w "\<lambda>v. v" "\<lambda>_. 1250"] by simp
  then have "sum_list ?w \<le> 1250 * int (rb_entries ?t)" using len by (simp add: sum_list_triv)
  moreover have "rg_avg (ntc_dc ?t) = c_div (sum_list ?w) (int (rb_entries ?t))"
    using calculate_windows(2,3) [OF assms, of x] by (simp add: all_rings_def windows_def)
  moreover have "0 < rb_entries ?t"
    using calculate_windows(3) [OF assms, of x] by (auto simp: next_entries_def DATA_BUFFER_LENGTH_def)
  ultimately show ?thesis by (simp add: c_div_le)
qed

text \<open>
  Further: the over-temperature cutoff never acts: with averages in tenths of a degree the limit 4500 is
  450 degrees, above every temperature of the thermistor table, so in every reachable state charging
  is allowed exactly when the battery voltage and the freezing limit allow it.
\<close>

theorem power_overheat_cutoff_inert:
  assumes "power_inv s"
  shows "charging_ok (calculate_adc_values x s)
    = (c_div (battery_mv_counts x * 600) 607 \<le> 3600 \<and> 0 \<le> rg_avg (ntc_dc (calculate_adc_values x s)))"
proof -
  have s: "rings_inv s" using assms by (simp add: power_inv_def)
  show ?thesis
    using ntc_average_bound [OF s, of x] newest_battery [OF s, of x]
    by (auto simp: charging_ok_def check_charging_ok_def MAX_BATTERY_MV_def
        BATTERY_CHARGE_TEMP_MIN_DC_def BATTERY_CHARGE_TEMP_MAX_DC_def)
qed

text \<open>A tracking state in the middle of a run, for the examples.\<close>

definition flat_ring :: "int \<Rightarrow> ring" where
  "flat_ring v = \<lparr>rg_data = replicate DATA_BUFFER_LENGTH v, rg_sum = int DATA_BUFFER_LENGTH * v, rg_avg = v\<rparr>"

definition tracking_state :: power where
  "tracking_state = (power_boot True)\<lparr>mppt_power_state := TRACK, rb_entries := DATA_BUFFER_LENGTH,
     pv_mv := flat_ring 1500, pv_ma := flat_ring 80, battery_mv := flat_ring 3200, ntc_dc := flat_ring 250,
     gate_duty_cycle := 100, delta_duty_cycle := - 1, prev_mw := 130, pwm_on := True, pwm_duty := 100,
     pv_i_en := True\<rparr>"

definition tracking_sample :: sample where
  "tracking_sample = \<lparr>pv_mv_counts = 2238, pv_ma_counts = 1638, battery_mv_counts = 3238, ntc_dc_counts = 1200\<rparr>"

lemma flat_ring_ok: "index_ok DATA_BUFFER_LENGTH 0" "ring_ok DATA_BUFFER_LENGTH 0 (flat_ring v)"
  by (simp_all add: index_ok_def ring_ok_def ring_window_def flat_ring_def sum_list_replicate_int)

lemma tracking_state_inv: "power_inv tracking_state"
  by (simp add: power_inv_def rings_inv_def drive_inv_def all_rings_def tracking_state_def power_boot_def
      flat_ring_ok list_all_iff fw_defs) (simp add: flat_ring_def)

theorem power_overheat_cutoff_inert_witness:
  "charging_ok (calculate_adc_values tracking_sample tracking_state)"
proof -
  have "c_div (battery_mv_counts tracking_sample * 600) 607 \<le> 3600
    \<and> 0 \<le> rg_avg (ntc_dc (calculate_adc_values tracking_sample tracking_state))"
    by code_simp
  then show ?thesis using power_overheat_cutoff_inert [OF tracking_state_inv, of tracking_sample] by simp
qed

theorem power_drive_needs_charging_witness:
  "c_div (battery_mv_counts tracking_sample * 600) 607 \<le> 3600
     \<and> 0 \<le> rg_avg (ntc_dc (calculate_adc_values tracking_sample tracking_state))"
proof -
  have "mppt_power_state (update_mppt_power_state (calculate_adc_values tracking_sample tracking_state)) \<noteq> OFF"
    by code_simp
  then show ?thesis
    using power_drive_needs_charging [OF tracking_state_inv, of 200 tracking_sample True]
    by (simp add: power_tick_state)
qed

text \<open>
  Further: in TRACK, with a full window, charging allowed and at least 25 mW harvested, one pass moves the
  duty by exactly one: away from the edges 1 and 254, and otherwise further in the same direction
  unless the power dropped, which reverses it. The clamp of \<open>set_duty_cycle\<close> never acts, the power
  becomes the new reference and the window is cleared.
\<close>

theorem power_hill_climb:
  assumes inv: "power_inv s" and st: "mppt_power_state s = TRACK"
    and t: "t = calculate_adc_values x s" "charging_ok t" "rb_entries t = DATA_BUFFER_LENGTH"
    and mw: "mw = c_div (rg_avg (pv_mv t) * rg_avg (pv_ma t)) 1000" "25 \<le> mw"
  shows "let s' = power_tick N (x, l) s; g = gate_duty_cycle s in
    mppt_power_state s' = TRACK \<and> rb_entries s' = 0 \<and> prev_mw s' = mw
    \<and> gate_duty_cycle s' = g + delta_duty_cycle s' \<and> \<bar>delta_duty_cycle s'\<bar> = 1
    \<and> pwm_duty s' = gate_duty_cycle s'
    \<and> delta_duty_cycle s' = (if g = 1 then 1 else if g = 254 then - 1
         else if mw < prev_mw s then - delta_duty_cycle s else delta_duty_cycle s)"
proof -
  have d: "1 \<le> gate_duty_cycle s" "gate_duty_cycle s \<le> 254" "\<bar>delta_duty_cycle s\<bar> = 1"
    using inv st by (auto simp: power_inv_def drive_inv_def fw_defs)
  have k: "mppt_power_state t = TRACK" "gate_duty_cycle t = gate_duty_cycle s"
    "delta_duty_cycle t = delta_duty_cycle s" "prev_mw t = prev_mw s"
    using t(1) st by (simp_all add: calculate_adc_values_def Let_def)
  let ?u = "update_mppt_power_state t"
  have f: "mppt_power_state (power_tick N (x, l) s) = mppt_power_state ?u"
    "rb_entries (power_tick N (x, l) s) = rb_entries ?u" "prev_mw (power_tick N (x, l) s) = prev_mw ?u"
    "gate_duty_cycle (power_tick N (x, l) s) = gate_duty_cycle ?u" "pwm_duty (power_tick N (x, l) s) = pwm_duty ?u"
    "delta_duty_cycle (power_tick N (x, l) s) = delta_duty_cycle ?u"
    by (simp_all add: power_tick_def t(1) Let_def update_mppt_obj_def)
  have mw': "\<not> c_div (rg_avg (pv_mv t) * rg_avg (pv_ma t)) 1000 < MIN_MW_HARVESTING_STOP"
    using mw by (simp add: MIN_MW_HARVESTING_STOP_def)
  have u: "?u = mppt_track t" by (simp add: update_mppt_power_state_def k)
  show ?thesis
    unfolding Let_def f u using d t(2,3) mw' mw(1)
    by (auto simp: mppt_track_def Let_def k fw_defs set_duty_cycle_def reset_ringbuffer_def abs_if split: if_splits)
qed

theorem power_hill_climb_witness:
  "gate_duty_cycle (power_tick 200 (tracking_sample, True) tracking_state) = 101"
proof -
  let ?t = "calculate_adc_values tracking_sample tracking_state"
  have "charging_ok ?t" "rb_entries ?t = DATA_BUFFER_LENGTH"
    "25 \<le> c_div (rg_avg (pv_mv ?t) * rg_avg (pv_ma ?t)) 1000"
    "c_div (rg_avg (pv_mv ?t) * rg_avg (pv_ma ?t)) 1000 < prev_mw tracking_state"
    "mppt_power_state tracking_state = TRACK" "gate_duty_cycle tracking_state = 100"
    "delta_duty_cycle tracking_state = - 1"
    by code_simp+
  then show ?thesis
    using power_hill_climb [OF tracking_state_inv, of ?t tracking_sample _ 200 True] by (simp add: Let_def)
qed

end
