(* ===== verification/Adc.thy ===== *)
theory Adc
  imports PowerThread
begin

text \<open>
  The analogue inputs: src/bsp/helio\_saadc.c and the interrupt handler of src/threads/power\_thread.c. A timer
  triggers a sampling of the four channels every period; the driver fills one of two buffers of eight values
  and asks for the next. The nrfx driver is a log of calls with results from \<open>res\<close>; a failed \<open>NRFX_ASSERT\<close> sets
  \<open>adc_halted\<close>. Register constants of the configuration calls are not represented.
\<close>

section \<open>State\<close>

definition DOUBLE_BUFFER_COUNT :: nat where [fw_defs]: "DOUBLE_BUFFER_COUNT = 2"
definition ADC_BUFFER_SIZE :: nat where [fw_defs]: "ADC_BUFFER_SIZE = 8"
definition NUM_CHANNELS :: nat where [fw_defs]: "NUM_CHANNELS = 4"

datatype gppi_purpose = SAADC_SAMPLING | SAADC_START_ON_END

datatype adc_call =
    Saadc_init
  | Timer_init
  | Timer_clear
  | Timer_extended_compare nat
  | Saadc_channels_config nat
  | Saadc_advanced_mode_set
  | Saadc_buffer_set nat nat
  | Gppi_channel_alloc gppi_purpose
  | Gppi_endpoints_setup gppi_purpose
  | Timer_enable
  | Gppi_channels_enable gppi_purpose
  | Gppi_channels_disable gppi_purpose
  | Saadc_offset_calibrate
  | Saadc_mode_trigger
  | Timer_uninit
  | Nrfx_irq_disable
  | Gppi_channel_free gppi_purpose
  | Saadc_uninit

record adc =
  saadc_free :: nat
  buffer_index :: nat
  adc_counts :: sample
  new_adc_data_rdy :: bool
  adc_halted :: bool
  adc_calls :: "adc_call list"

definition adc_boot :: adc where
  "adc_boot = \<lparr>saadc_free = 1, buffer_index = 1,
     adc_counts = \<lparr>pv_mv_counts = 0, pv_ma_counts = 0, battery_mv_counts = 0, ntc_dc_counts = 0\<rparr>,
     new_adc_data_rdy = False, adc_halted = False, adc_calls = []\<rparr>"

section \<open>helio\_saadc.c\<close>

text \<open>The calls whose status is asserted.\<close>

fun asserted :: "adc_call \<Rightarrow> bool" where
  "asserted Saadc_init = True"
| "asserted Timer_init = True"
| "asserted (Saadc_channels_config n) = True"
| "asserted Saadc_advanced_mode_set = True"
| "asserted (Saadc_buffer_set i n) = True"
| "asserted (Gppi_channel_alloc p) = True"
| "asserted Saadc_offset_calibrate = True"
| "asserted Saadc_mode_trigger = True"
| "asserted c = False"

definition adc_run :: "(nat \<Rightarrow> adc_call \<Rightarrow> int) \<Rightarrow> adc_call list \<Rightarrow> adc \<Rightarrow> adc" where
  "adc_run res cs s =
     (let (err, log) = seq_calls (\<lambda>n c. if asserted c then res n c else 0) cs (adc_calls s)
      in s\<lparr>adc_calls := log, adc_halted := adc_halted s \<or> err \<noteq> 0\<rparr>)"

definition start_calls :: "bool \<Rightarrow> nat \<Rightarrow> adc_call list" where
  "start_calls calibrate timer_period_ms =
     [Saadc_init, Timer_init, Timer_clear, Timer_extended_compare (timer_period_ms * 1000 mod 2 ^ 32),
      Saadc_channels_config NUM_CHANNELS, Saadc_advanced_mode_set, Saadc_buffer_set 0 ADC_BUFFER_SIZE,
      Gppi_channel_alloc SAADC_SAMPLING, Gppi_endpoints_setup SAADC_SAMPLING,
      Gppi_channel_alloc SAADC_START_ON_END, Gppi_endpoints_setup SAADC_START_ON_END,
      Timer_enable, Gppi_channels_enable SAADC_START_ON_END,
      if calibrate then Saadc_offset_calibrate else Saadc_mode_trigger]"

text \<open>
  \<open>given\<close>: another thread gives the semaphore within the second that \<open>k_sem_take\<close> waits. The following
  \<open>k_sem_reset\<close> sets it to 0, which it is already.
\<close>

definition helio_start_saadc :: "(nat \<Rightarrow> adc_call \<Rightarrow> int) \<Rightarrow> bool \<Rightarrow> bool \<Rightarrow> nat \<Rightarrow> adc \<Rightarrow> adc" where
  "helio_start_saadc res given calibrate timer_period_ms s =
     (if saadc_free s = 0 \<and> \<not> given then s
      else adc_run res (start_calls calibrate timer_period_ms) (s\<lparr>saadc_free := 0\<rparr>))"

definition uninit_calls :: "adc_call list" where
  "uninit_calls =
     [Timer_uninit, Nrfx_irq_disable, Gppi_channel_free SAADC_SAMPLING, Gppi_channel_free SAADC_START_ON_END,
      Saadc_uninit]"

definition helio_uninit_saadc :: "adc \<Rightarrow> adc" where
  "helio_uninit_saadc s =
     (let s1 = adc_run (\<lambda>_ _. 0) uninit_calls s in s1\<lparr>saadc_free := min 1 (saadc_free s1 + 1)\<rparr>)"

section \<open>The interrupt handler\<close>

text \<open>\<open>EVT_DONE bs\<close> hands over a filled buffer.\<close>

datatype saadc_evt =
    EVT_DONE "int list"
  | EVT_CALIBRATEDONE
  | EVT_READY
  | EVT_BUF_REQ
  | EVT_FINISHED
  | EVT_OTHER

definition counts_of :: "int list \<Rightarrow> sample" where
  "counts_of bs =
     \<lparr>pv_mv_counts = bs ! 3, pv_ma_counts = bs ! 1, battery_mv_counts = bs ! 2, ntc_dc_counts = bs ! 0\<rparr>"

definition saadc_power_handler :: "(nat \<Rightarrow> adc_call \<Rightarrow> int) \<Rightarrow> saadc_evt \<Rightarrow> adc \<Rightarrow> adc" where
  "saadc_power_handler res ev s =
     (case ev of
        EVT_DONE bs \<Rightarrow> s\<lparr>adc_counts := counts_of bs, new_adc_data_rdy := True\<rparr>
      | EVT_CALIBRATEDONE \<Rightarrow> adc_run res [Saadc_mode_trigger] s
      | EVT_READY \<Rightarrow> adc_run res [Gppi_channels_enable SAADC_SAMPLING] s
      | EVT_BUF_REQ \<Rightarrow>
          (let s1 = adc_run res [Saadc_buffer_set (buffer_index s) ADC_BUFFER_SIZE]
                      (s\<lparr>buffer_index := (buffer_index s + 1) mod 2 ^ 16\<rparr>)
           in if adc_halted s1 then s1 else s1\<lparr>buffer_index := buffer_index s1 mod DOUBLE_BUFFER_COUNT\<rparr>)
      | EVT_FINISHED \<Rightarrow> helio_uninit_saadc (adc_run res [Gppi_channels_disable SAADC_SAMPLING] s)
      | EVT_OTHER \<Rightarrow> s)"

text \<open>The thread takes the flag down and works on the counts.\<close>

definition take_sample :: "adc \<Rightarrow> sample option \<times> adc" where
  "take_sample s =
     (if new_adc_data_rdy s then (Some (adc_counts s), s\<lparr>new_adc_data_rdy := False\<rparr>) else (None, s))"

section \<open>The converter as a machine\<close>

datatype adc_event = Start bool bool nat | Irq saadc_evt | Poll

definition adc_step :: "(nat \<Rightarrow> adc_call \<Rightarrow> int) \<Rightarrow> adc_event \<Rightarrow> adc \<Rightarrow> adc" where
  "adc_step res e s =
     (if adc_halted s then s
      else case e of
        Start given calibrate ms \<Rightarrow> helio_start_saadc res given calibrate ms s
      | Irq ev \<Rightarrow> saadc_power_handler res ev s
      | Poll \<Rightarrow> snd (take_sample s))"

text \<open>The buffers handed to the driver, in order.\<close>

fun buffers_set :: "adc_call list \<Rightarrow> nat list" where
  "buffers_set [] = []"
| "buffers_set (c # cs) = (case c of Saadc_buffer_set i n \<Rightarrow> i # buffers_set cs | _ \<Rightarrow> buffers_set cs)"

lemma buffers_set_append: "buffers_set (xs @ ys) = buffers_set xs @ buffers_set ys"
  by (induction xs) (auto split: adc_call.split)

definition adc_ok :: "adc \<Rightarrow> bool" where
  "adc_ok s \<longleftrightarrow> saadc_free s \<le> 1 \<and> (\<not> adc_halted s \<longrightarrow> buffer_index s < DOUBLE_BUFFER_COUNT)
     \<and> (\<forall>i\<in>set (buffers_set (adc_calls s)). i < DOUBLE_BUFFER_COUNT)"

lemma adc_run_fields [simp]:
  "saadc_free (adc_run res cs s) = saadc_free s" "buffer_index (adc_run res cs s) = buffer_index s"
  "adc_counts (adc_run res cs s) = adc_counts s" "new_adc_data_rdy (adc_run res cs s) = new_adc_data_rdy s"
  by (simp_all add: adc_run_def split_beta)

lemma adc_run_calls: "\<exists>done. prefix done cs \<and> adc_calls (adc_run res cs s) = adc_calls s @ done"
  using seq_calls_prefix [of cs "\<lambda>n c. if asserted c then res n c else 0" "adc_calls s"]
  by (simp add: adc_run_def split_beta)

lemma buffers_set_run:
  "set (buffers_set (adc_calls (adc_run res cs s))) \<subseteq> set (buffers_set (adc_calls s)) \<union> set (buffers_set cs)"
  using adc_run_calls [of cs res s] by (auto simp: buffers_set_append prefix_def)

lemma adc_run_halted: "adc_halted s \<Longrightarrow> adc_halted (adc_run res cs s)"
  by (simp add: adc_run_def split_beta)

lemma adc_ok_run:
  assumes "adc_ok s" and "\<forall>i\<in>set (buffers_set cs). i < DOUBLE_BUFFER_COUNT"
  shows "adc_ok (adc_run res cs s)"
  using assms buffers_set_run [of res cs s] by (auto simp: adc_ok_def adc_run_halted dest: adc_run_halted)

lemma adc_ok_upd:
  "adc_ok s \<Longrightarrow> n \<le> 1 \<Longrightarrow> adc_ok (s\<lparr>saadc_free := n\<rparr>)"
  "adc_ok s \<Longrightarrow> adc_ok (s\<lparr>adc_counts := x, new_adc_data_rdy := b\<rparr>)"
  "adc_ok s \<Longrightarrow> adc_ok (s\<lparr>new_adc_data_rdy := b\<rparr>)" "adc_ok s \<Longrightarrow> adc_ok (s\<lparr>adc_counts := x\<rparr>)"
  by (simp_all add: adc_ok_def)

lemma adc_ok_buf_req:
  assumes "adc_ok s" and "\<not> adc_halted s"
  shows "adc_ok (saadc_power_handler res EVT_BUF_REQ s)"
proof -
  let ?s1 = "adc_run res [Saadc_buffer_set (buffer_index s) ADC_BUFFER_SIZE] (s\<lparr>buffer_index := (buffer_index s + 1) mod 2 ^ 16\<rparr>)"
  have "buffer_index s < 2" using assms by (simp add: adc_ok_def fw_defs)
  moreover have "set (buffers_set (adc_calls ?s1)) \<subseteq> set (buffers_set (adc_calls s)) \<union> {buffer_index s}"
    using buffers_set_run [of res "[Saadc_buffer_set (buffer_index s) ADC_BUFFER_SIZE]"
        "s\<lparr>buffer_index := (buffer_index s + 1) mod 2 ^ 16\<rparr>"] by auto
  ultimately show ?thesis using assms(1)
    by (auto simp: saadc_power_handler_def adc_ok_def Let_def fw_defs)
qed

lemma adc_ok_step: "adc_ok s \<Longrightarrow> adc_ok (adc_step res e s)"
proof -
  assume s: "adc_ok s"
  have init: "\<forall>i\<in>set (buffers_set (start_calls c ms)). i < DOUBLE_BUFFER_COUNT" for c ms
    by (simp add: start_calls_def fw_defs)
  have start: "adc_ok (helio_start_saadc res g c ms s)" for g c ms
    using s by (auto simp: helio_start_saadc_def intro!: adc_ok_run init adc_ok_upd)
  have uninit: "adc_ok (helio_uninit_saadc t)" if "adc_ok t" for t
    unfolding helio_uninit_saadc_def Let_def
    by (intro adc_ok_upd adc_ok_run that) (simp_all add: uninit_calls_def)
  have irq: "adc_ok (saadc_power_handler res ev s)" if "\<not> adc_halted s" for ev
  proof (cases ev)
    case EVT_BUF_REQ
    then show ?thesis using adc_ok_buf_req [OF s that] by simp
  qed (auto simp: saadc_power_handler_def s intro!: uninit adc_ok_run adc_ok_upd)
  have poll: "adc_ok (snd (take_sample s))"
    using s by (simp add: take_sample_def adc_ok_upd)
  show ?thesis using s by (auto simp: adc_step_def start irq poll split: adc_event.split)
qed

lemma adc_ok_boot: "adc_ok adc_boot"
  by (simp add: adc_ok_def adc_boot_def fw_defs)

interpretation adc: machine "\<lambda>s. s = adc_boot" "adc_step res" adc_ok for res
  by unfold_locales (auto simp: adc_ok_boot intro: adc_ok_step)

section \<open>Properties\<close>

text \<open>
  Further: in every run, with any order of interrupts, starts and polls and any driver results, the driver is only
  handed buffers that exist, and the semaphore that shares the converter stays at most one.
\<close>

theorem adc_buffers_exist:
  "set (buffers_set (adc_calls (fold (adc_step res) es adc_boot))) \<subseteq> {0, 1}
   \<and> saadc_free (fold (adc_step res) es adc_boot) \<le> 1"
proof -
  have "adc_ok (fold (adc_step res) es adc_boot)" by (rule adc.inv_run) simp
  then show ?thesis by (auto simp: adc_ok_def fw_defs)
qed

text \<open>The events of a conversion that goes on: none of them is a start or the end.\<close>

fun running :: "adc_event \<Rightarrow> bool" where
  "running (Start g c ms) = False"
| "running (Irq EVT_FINISHED) = False"
| "running e = True"

definition is_buf_req :: "adc_event \<Rightarrow> bool" where
  "is_buf_req e = (e = Irq EVT_BUF_REQ)"

lemma adc_run_all_ok:
  assumes "\<forall>n c. res n c = 0"
  shows "adc_run res cs s = s\<lparr>adc_calls := adc_calls s @ cs\<rparr>"
  using assms by (simp add: adc_run_def seq_calls_all_ok)

lemma running_step:
  assumes "\<forall>n c. res n c = 0" and "\<not> adc_halted s" and "buffer_index s < 2" and "running e"
  shows "\<not> adc_halted (adc_step res e s)
    \<and> buffers_set (adc_calls (adc_step res e s)) = buffers_set (adc_calls s) @ (if is_buf_req e then [buffer_index s] else [])
    \<and> buffer_index (adc_step res e s) = (if is_buf_req e then 1 - buffer_index s else buffer_index s)"
proof (cases e)
  case (Irq ev)
  have "(buffer_index s + 1) mod 65536 mod 2 = 1 - buffer_index s" proof -
    have "buffer_index s = 0 \<or> buffer_index s = 1" using assms(3) by linarith
    then show ?thesis by auto
  qed
  then show ?thesis using assms Irq
    by (cases ev) (simp_all add: adc_step_def saadc_power_handler_def adc_run_all_ok is_buf_req_def
        buffers_set_append Let_def fw_defs)
qed (use assms in \<open>auto simp: adc_step_def take_sample_def is_buf_req_def\<close>)

text \<open>
  Further: during a conversion the driver is handed the two buffers in turn: after the first start buffer 0 was set,
  and the requests are answered with 1, 0, 1, 0 and so on, so the buffer being filled is never the one handed
  over last.
\<close>

theorem adc_double_buffering:
  assumes "\<forall>n c. res n c = 0" and "\<forall>e\<in>set es. running e"
  shows "buffers_set (adc_calls (fold (adc_step res) es (adc_step res (Start g c ms) adc_boot)))
    = map (\<lambda>i. i mod 2) [0..<length (filter is_buf_req es) + 1]"
proof -
  let ?s0 = "adc_step res (Start g c ms) adc_boot"
  have "\<not> adc_halted (fold (adc_step res) es ?s0)
    \<and> buffers_set (adc_calls (fold (adc_step res) es ?s0)) = map (\<lambda>i. i mod 2) [0..<length (filter is_buf_req es) + 1]
    \<and> buffer_index (fold (adc_step res) es ?s0) = (length (filter is_buf_req es) + 1) mod 2"
    using assms(2)
  proof (induction es rule: rev_induct)
    case Nil
    then show ?case
      by (simp add: adc_step_def adc_boot_def helio_start_saadc_def adc_run_all_ok [OF assms(1)] start_calls_def)
  next
    case (snoc e es)
    then have IH: "\<not> adc_halted (fold (adc_step res) es ?s0)"
      "buffers_set (adc_calls (fold (adc_step res) es ?s0)) = map (\<lambda>i. i mod 2) [0..<length (filter is_buf_req es) + 1]"
      "buffer_index (fold (adc_step res) es ?s0) = (length (filter is_buf_req es) + 1) mod 2" by auto
    have par: "1 - Suc n mod 2 = n mod 2" for n :: nat by presburger
    from running_step [OF assms(1) IH(1), of e] snoc.prems IH par show ?case by auto
  qed
  then show ?thesis by blast
qed

theorem adc_double_buffering_witness:
  "buffers_set (adc_calls (fold (adc_step (\<lambda>_ _. 0)) [Irq EVT_BUF_REQ, Irq (EVT_DONE [1, 2, 3, 4, 5, 6, 7, 8]), Poll, Irq EVT_BUF_REQ]
     (adc_step (\<lambda>_ _. 0) (Start False True 2) adc_boot))) = [0, 1, 0]"
  using adc_double_buffering [of "\<lambda>_ _. 0"
      "[Irq EVT_BUF_REQ, Irq (EVT_DONE [1, 2, 3, 4, 5, 6, 7, 8]), Poll, Irq EVT_BUF_REQ]" False True 2]
  by (simp add: is_buf_req_def upt_rec)

text \<open>
  What the power thread works on when it keeps up with the converter: a buffer of eight values holds two
  samplings of the four channels, in the order of the channels.
\<close>

definition raw :: "sample \<Rightarrow> int list" where
  "raw x = [ntc_dc_counts x, pv_ma_counts x, battery_mv_counts x, pv_mv_counts x]"

fun processed :: "(nat \<Rightarrow> adc_call \<Rightarrow> int) \<Rightarrow> (sample \<times> sample) list \<Rightarrow> adc \<Rightarrow> sample list" where
  "processed res [] s = []"
| "processed res ((x, y) # ps) s =
     (case take_sample (adc_step res (Irq (EVT_DONE (raw x @ raw y))) s) of
        (Some z, s1) \<Rightarrow> z # processed res ps s1
      | (None, s1) \<Rightarrow> processed res ps s1)"

lemma processed_first:
  "\<not> adc_halted s \<Longrightarrow> processed res ps s = map fst ps"
  by (induction ps arbitrary: s)
    (auto simp: adc_step_def saadc_power_handler_def take_sample_def counts_of_def raw_def numeral_3_eq_3)

lemma tick_count_pass: "tick_count (power_tick N e s) = (tick_count s + 1) mod 2 ^ 32"
proof -
  have "tick_count (update_mppt_power_state (calculate_adc_values x t)) = tick_count t" for x t
    by (simp add: update_mppt_power_state_def calculate_adc_values_def mppt_off_def mppt_scan_def mppt_track_def
        transition_to_off_def set_duty_cycle_def reset_ringbuffer_def Let_def split: MpptPowerState.split)
  moreover have "tick_count (update_mppt_obj l t) = tick_count t" for l t
    by (simp add: update_mppt_obj_def)
  ultimately show ?thesis by (simp add: power_tick_def Let_def)
qed

lemma tick_count_passes: "tick_count (fold (power_tick N) es p) = (if es = [] then tick_count p else (tick_count p + length es) mod 2 ^ 32)"
proof (induction es rule: rev_induct)
  case (snoc e es)
  then show ?case by (cases "es = []") (simp_all add: tick_count_pass mod_Suc_eq)
qed simp

text \<open>
  Further: of every two samplings the power thread works on the first and never sees the second, so it makes one pass
  per two timer periods: the two hundred (in the node's image eight hundred) passes between its reports take
  0.8 s (3.2 s) of the 2 ms timer.
\<close>

theorem power_sees_every_second:
  assumes "\<not> adc_halted s" and "ps \<noteq> []"
  shows "processed res ps s = map fst ps
    \<and> tick_count (fold (power_tick N) (map (\<lambda>x. (x, lock)) (processed res ps s)) p) = (tick_count p + length ps) mod 2 ^ 32"
  using assms by (simp add: processed_first tick_count_passes)

theorem power_sees_every_second_witness:
  "processed (\<lambda>_ _. 0) [(adc_counts adc_boot, (adc_counts adc_boot)\<lparr>pv_mv_counts := 9\<rparr>)] adc_boot = [adc_counts adc_boot]"
proof -
  have "\<not> adc_halted adc_boot" by (simp add: adc_boot_def)
  then show ?thesis
    using power_sees_every_second [of adc_boot "[(adc_counts adc_boot, (adc_counts adc_boot)\<lparr>pv_mv_counts := 9\<rparr>)]"] by simp
qed

text \<open>
  Further: a converter that is taken leaves a second start without effect unless it becomes free within a
  second; the end of a conversion frees it.
\<close>

theorem adc_is_shared:
  "helio_start_saadc res False c ms (s\<lparr>saadc_free := 0\<rparr>) = s\<lparr>saadc_free := 0\<rparr>
   \<and> saadc_free (helio_start_saadc res True c ms s) = 0 \<and> saadc_free (helio_uninit_saadc (s\<lparr>saadc_free := 0\<rparr>)) = 1"
  by (simp add: helio_start_saadc_def helio_uninit_saadc_def Let_def)

end
