(* ===== verification/Led.thy ===== *)
theory Led
  imports Prelude
begin

text \<open>
  The status LED: src/bsp/led.c, threads/led\_patterns.c, led\_timer.c, led\_thread.c and
  shell\_cmds/shell\_led.c (built with \<open>CONFIG_LED_THREAD\<close>, which prj.conf leaves out). A pattern is
  referred to by its index in the table, as the code does by its address. The one-shot kernel timer is the
  milliseconds it was last started with, \<open>None\<close> when it is not running; its expiry is an event. Log output is
  not represented.
\<close>

section \<open>led\_patterns.c\<close>

text \<open>A pulse is its milliseconds on and off; \<open>duration\<close> counts the pulses.\<close>

record led_pattern =
  pat_name :: string
  pulses :: "(int \<times> int) list"
  duration :: nat
  pat_repeat :: int
  priority :: int

definition LED_PATTERN_REPEAT_INFINITE :: int where "LED_PATTERN_REPEAT_INFINITE = - 1"

definition boot_pattern :: led_pattern where
  "boot_pattern = \<lparr>pat_name = ''boot_pattern'', pulses = [(1000, 1000)], duration = 1,
     pat_repeat = LED_PATTERN_REPEAT_INFINITE, priority = 5\<rparr>"

definition network_connecting_pattern :: led_pattern where
  "network_connecting_pattern = \<lparr>pat_name = ''network_connecting_pattern'', pulses = [(100, 100), (0, 200)],
     duration = 2, pat_repeat = LED_PATTERN_REPEAT_INFINITE, priority = 5\<rparr>"

definition network_unhappy_pattern :: led_pattern where
  "network_unhappy_pattern = \<lparr>pat_name = ''network_unhappy_pattern'',
     pulses = [(100, 100), (100, 100), (100, 100), (0, 200)],
     duration = 4, pat_repeat = LED_PATTERN_REPEAT_INFINITE, priority = 6\<rparr>"

definition heart_beat :: led_pattern where
  "heart_beat = \<lparr>pat_name = ''heart_beat'', pulses = [(100, 200), (100, 200), (0, 700)],
     duration = 3, pat_repeat = LED_PATTERN_REPEAT_INFINITE, priority = 6\<rparr>"

definition led_patterns :: "led_pattern list" where
  "led_patterns = [boot_pattern, network_connecting_pattern, network_unhappy_pattern, heart_beat]"

definition led_patterns_count_get :: int where
  "led_patterns_count_get = int (length led_patterns)"

abbreviation (input) "LED_PATTERN_BOOT \<equiv> 0 :: nat"
abbreviation (input) "LED_PATTERN_CONNECTING \<equiv> 1 :: nat"
abbreviation (input) "LED_PATTERN_NETWORK_UNHAPPY \<equiv> 2 :: nat"
abbreviation (input) "LED_PATTERN_HEARTBEAT \<equiv> 3 :: nat"

section \<open>led\_timer.c and the pin\<close>

record led_state =
  cur_pattern :: "nat option"
  on_off :: bool
  cur_pulse :: nat
  cur_repeat :: int
  led_timer :: "int option"
  led0_initialized :: bool
  led0 :: bool

definition led_reset :: led_state where
  "led_reset = \<lparr>cur_pattern = None, on_off = False, cur_pulse = 0, cur_repeat = 0, led_timer = None,
     led0_initialized = False, led0 = False\<rparr>"

text \<open>\<open>ready\<close> and \<open>cfg_ok\<close> are what the GPIO driver answers.\<close>

definition led0_init :: "bool \<Rightarrow> bool \<Rightarrow> led_state \<Rightarrow> bool \<times> led_state" where
  "led0_init ready cfg_ok s =
     (if led0_initialized s then (True, s)
      else if \<not> ready then (False, s)
      else (cfg_ok, s\<lparr>led0_initialized := cfg_ok, led0 := cfg_ok \<or> led0 s\<rparr>))"

definition led0_set :: "bool \<Rightarrow> led_state \<Rightarrow> led_state" where
  "led0_set b s = s\<lparr>led0 := b\<rparr>"

definition k_timer_start :: "int \<Rightarrow> led_state \<Rightarrow> led_state" where
  "k_timer_start ms s = s\<lparr>led_timer := Some ms\<rparr>"

text \<open>
  The stop callback. The kernel calls it only when the timer was running, so the \<open>k_timer_stop\<close> it starts with
  finds the timer idle.
\<close>

definition led_timer_stopped :: "led_state \<Rightarrow> led_state" where
  "led_timer_stopped s = s\<lparr>cur_pattern := None\<rparr>"

definition k_timer_stop :: "led_state \<Rightarrow> led_state" where
  "k_timer_stop s = (if led_timer s = None then s else led_timer_stopped (s\<lparr>led_timer := None\<rparr>))"

definition led_timer_enable :: "led_state \<Rightarrow> led_state" where
  "led_timer_enable s = k_timer_start 100 s"

definition led_timer_disable :: "led_state \<Rightarrow> led_state" where
  "led_timer_disable s = k_timer_stop s"

definition led_timer_start :: "led_pattern list \<Rightarrow> nat option \<Rightarrow> led_state \<Rightarrow> int \<times> led_state" where
  "led_timer_start tab pattern s =
     (case pattern of
        None \<Rightarrow> (- ENOENT, s)
      | Some p \<Rightarrow>
          if cur_pattern s = Some p then (0, s\<lparr>cur_repeat := 0\<rparr>)
          else if (case cur_pattern s of None \<Rightarrow> True | Some c \<Rightarrow> priority (tab ! c) \<le> priority (tab ! p))
          then (0, k_timer_start 100
                     (s\<lparr>on_off := False, cur_pulse := 0, cur_repeat := 0, cur_pattern := Some p\<rparr>))
          else (0, s))"

definition led_timer_stop :: "nat option \<Rightarrow> led_state \<Rightarrow> led_state" where
  "led_timer_stop pattern s = (if pattern = cur_pattern s then k_timer_stop s else s)"

text \<open>The \<open>switch\<close>, whose case \<open>OFF\<close> falls through when the pulse has no time on.\<close>

definition led_pulse_step :: "int \<times> int \<Rightarrow> led_state \<Rightarrow> led_state" where
  "led_pulse_step p s =
     (if \<not> on_off s \<and> 0 < fst p
      then (k_timer_start (fst p) (led0_set True s))\<lparr>on_off := True\<rparr>
      else let s1 = (if 0 < snd p then k_timer_start (snd p) (led0_set False s) else s)
           in s1\<lparr>on_off := False, cur_pulse := cur_pulse s1 + 1\<rparr>)"

definition led_round_end :: "led_pattern \<Rightarrow> led_state \<Rightarrow> led_state" where
  "led_round_end pat s =
     (if duration pat \<le> cur_pulse s
      then if pat_repeat pat = LED_PATTERN_REPEAT_INFINITE then s\<lparr>cur_pulse := 0\<rparr>
           else let s1 = s\<lparr>cur_repeat := cur_repeat s + 1, cur_pulse := 0\<rparr>
                in if pat_repeat pat \<le> cur_repeat s1 then s1\<lparr>cur_repeat := 0, cur_pattern := None\<rparr> else s1
      else s)"

definition led_pattern_parse :: "led_pattern list \<Rightarrow> led_state \<Rightarrow> led_state" where
  "led_pattern_parse tab s =
     (case cur_pattern s of
        None \<Rightarrow> k_timer_stop s
      | Some p \<Rightarrow> led_round_end (tab ! p) (led_pulse_step (pulses (tab ! p) ! cur_pulse s) s))"

text \<open>The expiry of the running timer; \<open>led_timer_enabled\<close> is never cleared.\<close>

definition led_timer_expired :: "led_pattern list \<Rightarrow> led_state \<Rightarrow> led_state" where
  "led_timer_expired tab s =
     (if led_timer s = None then s else led_pattern_parse tab (s\<lparr>led_timer := None\<rparr>))"

section \<open>led\_thread.c\<close>

definition led_thread_start :: "bool \<Rightarrow> bool \<Rightarrow> led_state \<Rightarrow> led_state" where
  "led_thread_start ready cfg_ok s =
     snd (led_timer_start led_patterns (Some LED_PATTERN_BOOT) (snd (led0_init ready cfg_ok s)))"

definition led_thread_event_handler :: "string \<Rightarrow> led_state \<Rightarrow> led_state" where
  "led_thread_event_handler status s =
     (if strcmp_eq status ''connecting'' then snd (led_timer_start led_patterns (Some LED_PATTERN_CONNECTING) s)
      else if strcmp_eq status ''connect failed''
      then snd (led_timer_start led_patterns (Some LED_PATTERN_NETWORK_UNHAPPY) s)
      else if strcmp_eq status ''connected'' then s
      else if strcmp_eq status ''disconnecting'' then s
      else if strcmp_eq status ''disconnect failed'' then s
      else if strcmp_eq status ''disconnected''
      then snd (led_timer_start led_patterns (Some LED_PATTERN_NETWORK_UNHAPPY) s)
      else if strcmp_eq status ''ip acquired'' then snd (led_timer_start led_patterns (Some LED_PATTERN_HEARTBEAT) s)
      else s)"

section \<open>shell\_led.c\<close>

text \<open>
  \<open>argv\<close> starts with the name of the command and is ended by a null pointer. \<open>None\<close> is undefined behaviour.
\<close>

definition cmd_led_pattern_list :: "string list" where
  "cmd_led_pattern_list =
     map (\<lambda>i. dec_str (int i) @ '':  '' @ pat_name (led_patterns ! i)) [0..<length led_patterns]"

definition cmd_led_pattern_start :: "string list \<Rightarrow> led_state \<Rightarrow> led_state" where
  "cmd_led_pattern_start argv s =
     (if length argv \<le> 1 then s
      else let idx = atoi (argv ! 1)
           in if idx < led_patterns_count_get \<and> 0 \<le> idx
              then snd (led_timer_start led_patterns (Some (nat idx)) s) else s)"

text \<open>Without an argument the running pattern is stopped, and then the missing argument is read.\<close>

definition cmd_led_pattern_stop :: "string list \<Rightarrow> led_state \<Rightarrow> led_state option" where
  "cmd_led_pattern_stop argv s =
     (let s1 = (if length argv = 1 then led_timer_stop (cur_pattern s) s else s)
      in if length argv \<le> 1 then None
         else let idx = atoi (argv ! 1)
              in Some (if idx < led_patterns_count_get \<and> 0 \<le> idx then led_timer_stop (Some (nat idx)) s1 else s1))"

section \<open>The LED as a machine\<close>

datatype led_event =
    Wifi_status string
  | Timer_expiry
  | Cmd_start "string list"
  | Cmd_stop "string list"
  | Cmd_light bool
  | Cmd_enable
  | Cmd_disable

text \<open>A command with undefined behaviour has no next state; the step leaves the state as it was.\<close>

fun led_step :: "led_event \<Rightarrow> led_state \<Rightarrow> led_state" where
  "led_step (Wifi_status w) s = led_thread_event_handler w s"
| "led_step Timer_expiry s = led_timer_expired led_patterns s"
| "led_step (Cmd_start argv) s = cmd_led_pattern_start argv s"
| "led_step (Cmd_stop argv) s = (case cmd_led_pattern_stop argv s of None \<Rightarrow> s | Some s' \<Rightarrow> s')"
| "led_step (Cmd_light b) s = led0_set b s"
| "led_step Cmd_enable s = led_timer_enable s"
| "led_step Cmd_disable s = led_timer_disable s"

lemmas led_timer_defs = k_timer_start_def k_timer_stop_def led_timer_stopped_def led0_set_def
  led_timer_enable_def led_timer_disable_def led_timer_stop_def

text \<open>A running pattern is in the table, its pulse is one of its pulses and the timer is running.\<close>

definition led_ok :: "led_state \<Rightarrow> bool" where
  "led_ok s \<longleftrightarrow> (case cur_pattern s of None \<Rightarrow> True
     | Some p \<Rightarrow> p < length led_patterns \<and> cur_pulse s < duration (led_patterns ! p) \<and> led_timer s \<noteq> None)"

text \<open>What the table promises: the pulse count is right and every pulse has a time off.\<close>

definition pattern_ok :: "led_pattern \<Rightarrow> bool" where
  "pattern_ok pat \<longleftrightarrow> pulses pat \<noteq> [] \<and> duration pat = length (pulses pat)
     \<and> (\<forall>p\<in>set (pulses pat). 0 \<le> fst p \<and> 0 < snd p)"

lemma table_ok: "\<forall>pat\<in>set led_patterns. pattern_ok pat \<and> pat_repeat pat = LED_PATTERN_REPEAT_INFINITE"
  by (simp add: led_patterns_def boot_pattern_def network_connecting_pattern_def network_unhappy_pattern_def
      heart_beat_def pattern_ok_def)

lemma duration_pos: "p < length led_patterns \<Longrightarrow> 0 < duration (led_patterns ! p)"
  using table_ok by (auto simp: pattern_ok_def)

lemma led_ok_start: "led_ok s \<Longrightarrow> p < length led_patterns \<Longrightarrow> led_ok (snd (led_timer_start led_patterns (Some p) s))"
  by (auto simp: led_timer_start_def led_ok_def k_timer_start_def duration_pos split: option.splits if_splits)

lemma led_ok_stop: "led_ok s \<Longrightarrow> led_ok (led_timer_stop q s)"
  by (auto simp: led_ok_def led_timer_defs split: option.splits)

lemma led_count: "length led_patterns = 4"
  by (simp add: led_patterns_def)

lemma led_ok_expired:
  assumes "led_ok s"
  shows "led_ok (led_timer_expired led_patterns s)"
proof (cases "cur_pattern s")
  case None
  then show ?thesis
    by (simp add: led_timer_expired_def led_pattern_parse_def led_ok_def k_timer_stop_def)
next
  case (Some p)
  with assms have p: "p < length led_patterns" "cur_pulse s < duration (led_patterns ! p)"
    by (auto simp: led_ok_def)
  then have ok: "pattern_ok (led_patterns ! p)" "pat_repeat (led_patterns ! p) = LED_PATTERN_REPEAT_INFINITE"
    using table_ok by auto
  then have "pulses (led_patterns ! p) ! cur_pulse s \<in> set (pulses (led_patterns ! p))"
    using p by (simp add: pattern_ok_def)
  then have "0 < snd (pulses (led_patterns ! p) ! cur_pulse s)" using ok by (auto simp: pattern_ok_def)
  then show ?thesis
    using Some p ok assms
    by (auto simp: led_timer_expired_def led_pattern_parse_def led_ok_def led_pulse_step_def led_round_end_def
        led_timer_defs Let_def)
qed

lemma led_ok_handler: "led_ok s \<Longrightarrow> led_ok (led_thread_event_handler w s)"
  unfolding led_thread_event_handler_def by (auto intro!: led_ok_start simp: led_count)

lemma led_ok_cmd_start: "led_ok s \<Longrightarrow> led_ok (cmd_led_pattern_start argv s)"
  unfolding cmd_led_pattern_start_def led_patterns_count_get_def Let_def
  by (auto intro!: led_ok_start)

lemma led_ok_cmd_stop: "led_ok s \<Longrightarrow> cmd_led_pattern_stop argv s = Some s' \<Longrightarrow> led_ok s'"
  unfolding cmd_led_pattern_stop_def Let_def by (auto intro!: led_ok_stop split: if_splits)

lemma led_ok_enable: "led_ok s \<Longrightarrow> led_ok (led_timer_enable s)"
  by (auto simp: led_ok_def led_timer_enable_def k_timer_start_def split: option.splits)

lemma led_ok_disable: "led_ok s \<Longrightarrow> led_ok (led_timer_disable s)"
  by (auto simp: led_ok_def led_timer_disable_def k_timer_stop_def led_timer_stopped_def split: option.splits)

lemma led_ok_light: "led_ok s \<Longrightarrow> led_ok (led0_set b s)"
  by (auto simp: led_ok_def led0_set_def split: option.splits)

lemma led_ok_step: "led_ok s \<Longrightarrow> led_ok (led_step e s)"
  by (cases e)
    (simp_all add: led_ok_handler led_ok_expired led_ok_cmd_start led_ok_enable led_ok_disable led_ok_light
      led_ok_cmd_stop split: option.split)

lemma led_ok_boot: "led_ok (led_thread_start r c led_reset)"
  unfolding led_thread_start_def
  by (rule led_ok_start) (simp_all add: led0_init_def led_reset_def led_ok_def led_count)

interpretation led: machine "\<lambda>s. \<exists>r c. s = led_thread_start r c led_reset" led_step led_ok
  by unfold_locales (auto intro: led_ok_boot led_ok_step)

section \<open>The light a pattern shows\<close>

text \<open>\<open>led_play n\<close>: the light and the time armed after each of \<open>n\<close> expiries, and the state then.\<close>

fun led_play :: "led_pattern list \<Rightarrow> nat \<Rightarrow> led_state \<Rightarrow> (bool \<times> int option) list \<times> led_state" where
  "led_play tab 0 s = ([], s)"
| "led_play tab (Suc n) s =
     (let s1 = led_timer_expired tab s; (shown, s2) = led_play tab n s1
      in ((led0 s1, led_timer s1) # shown, s2))"

definition pulse_light :: "int \<times> int \<Rightarrow> (bool \<times> int option) list" where
  "pulse_light p = (if 0 < fst p then [(True, Some (fst p)), (False, Some (snd p))] else [(False, Some (snd p))])"

definition pattern_light :: "led_pattern \<Rightarrow> (bool \<times> int option) list" where
  "pattern_light pat = concat (map pulse_light (pulses pat))"

lemma led_play_add:
  "led_play tab (m + n) s =
     (fst (led_play tab m s) @ fst (led_play tab n (snd (led_play tab m s))),
      snd (led_play tab n (snd (led_play tab m s))))"
  by (induction m arbitrary: s) (simp_all add: Let_def split_beta)

text \<open>At the start of pulse \<open>i\<close> of pattern \<open>p\<close>, in repetition \<open>r\<close>; and the place after a round.\<close>

definition led_at :: "nat \<Rightarrow> nat \<Rightarrow> int \<Rightarrow> led_state \<Rightarrow> bool" where
  "led_at p i r s \<longleftrightarrow> cur_pattern s = Some p \<and> \<not> on_off s \<and> cur_pulse s = i \<and> cur_repeat s = r
     \<and> led_timer s \<noteq> None"

lemma led_round_end_keeps [simp]:
  "led0 (led_round_end x t) = led0 t" "led_timer (led_round_end x t) = led_timer t"
  by (simp_all add: led_round_end_def Let_def)

lemma expiry_on:
  assumes "led_at p i r s" and "pulses (tab ! p) ! i = q" and "0 < fst q" and "i < duration (tab ! p)"
  shows "led_timer_expired tab s = s\<lparr>led0 := True, led_timer := Some (fst q), on_off := True\<rparr>"
  using assms
  by (auto simp: led_at_def led_timer_expired_def led_pattern_parse_def led_pulse_step_def k_timer_start_def
      led0_set_def led_round_end_def)

lemma expiry_off:
  assumes "cur_pattern s = Some p" "cur_pulse s = i" "cur_repeat s = r" "led_timer s \<noteq> None"
    and "pulses (tab ! p) ! i = q" and "on_off s \<or> fst q \<le> 0" and "0 < snd q"
  obtains s1 where "led_timer_expired tab s = led_round_end (tab ! p) s1" "led_at p (Suc i) r s1"
    "\<not> led0 s1" "led_timer s1 = Some (snd q)"
proof
  let ?s1 = "s\<lparr>led0 := False, led_timer := Some (snd q), on_off := False, cur_pulse := Suc i\<rparr>"
  show "led_timer_expired tab s = led_round_end (tab ! p) ?s1"
    using assms
    by (auto simp: led_timer_expired_def led_pattern_parse_def led_pulse_step_def k_timer_start_def
      led0_set_def Let_def)
qed (use assms in \<open>simp_all add: led_at_def\<close>)

lemma led_play_pulse:
  assumes s: "led_at p i r s" and i: "i < length (pulses (tab ! p))" and ok: "pattern_ok (tab ! p)"
    and q: "pulses (tab ! p) ! i = q"
  obtains s1 where "led_play tab (length (pulse_light q)) s = (pulse_light q, led_round_end (tab ! p) s1)"
    "led_at p (Suc i) r s1" "\<not> led0 s1"
proof -
  have "q \<in> set (pulses (tab ! p))" using i q by auto
  then have ms: "0 \<le> fst q" "0 < snd q" using ok by (auto simp: pattern_ok_def)
  have d: "i < duration (tab ! p)" using i ok by (simp add: pattern_ok_def)
  show thesis
  proof (cases "0 < fst q")
    case True
    let ?t = "s\<lparr>led0 := True, led_timer := Some (fst q), on_off := True\<rparr>"
    have t: "led_timer_expired tab s = ?t" using expiry_on [OF s q True d] .
    obtain s1 where "led_timer_expired tab ?t = led_round_end (tab ! p) s1" "led_at p (Suc i) r s1"
        "\<not> led0 s1" "led_timer s1 = Some (snd q)"
      by (rule expiry_off [of ?t p i r tab q]) (use s q ms in \<open>simp_all add: led_at_def\<close>)
    with t True show thesis by (intro that [of s1]) (simp_all add: pulse_light_def)
  next
    case False
    obtain s1 where "led_timer_expired tab s = led_round_end (tab ! p) s1" "led_at p (Suc i) r s1"
        "\<not> led0 s1" "led_timer s1 = Some (snd q)"
      by (rule expiry_off [of s p i r tab q]) (use s q ms False in \<open>simp_all add: led_at_def\<close>)
    with False show thesis by (intro that [of s1]) (simp_all add: pulse_light_def)
  qed
qed

definition after_round :: "led_pattern \<Rightarrow> nat \<Rightarrow> int \<Rightarrow> led_state \<Rightarrow> bool" where
  "after_round pat p r s \<longleftrightarrow>
     (if pat_repeat pat = LED_PATTERN_REPEAT_INFINITE then led_at p 0 r s
      else if pat_repeat pat \<le> r + 1
      then cur_pattern s = None \<and> led_timer s \<noteq> None \<and> \<not> led0 s
      else led_at p 0 (r + 1) s)"

lemma after_round_end:
  assumes "led_at p (length (pulses pat)) r s" "pattern_ok pat" "\<not> led0 s"
  shows "after_round pat p r (led_round_end pat s)"
  using assms by (auto simp: led_at_def after_round_def led_round_end_def pattern_ok_def Let_def)

lemma led_play_from:
  assumes "pattern_ok (tab ! p)" and "led_at p i r s" and "i < length (pulses (tab ! p))"
  shows "\<exists>s2. led_play tab (length (concat (map pulse_light (drop i (pulses (tab ! p)))))) s
                = (concat (map pulse_light (drop i (pulses (tab ! p)))), s2)
              \<and> after_round (tab ! p) p r s2"
  using assms(2,3)
proof (induction "length (pulses (tab ! p)) - i" arbitrary: i s)
  case 0
  then show ?case by simp
next
  case (Suc n)
  define q where "q = pulses (tab ! p) ! i"
  have dr: "drop i (pulses (tab ! p)) = q # drop (Suc i) (pulses (tab ! p))"
    using Suc.prems(2) by (simp add: q_def Cons_nth_drop_Suc)
  have n: "n = length (pulses (tab ! p)) - Suc i" using Suc(2) by simp
  obtain s1 where s1: "led_play tab (length (pulse_light q)) s = (pulse_light q, led_round_end (tab ! p) s1)"
      "led_at p (Suc i) r s1" "\<not> led0 s1"
    by (rule led_play_pulse [OF Suc.prems assms(1) q_def [symmetric]])
  show ?case
  proof (cases "Suc i < length (pulses (tab ! p))")
    case True
    then have "led_round_end (tab ! p) s1 = s1"
      using s1(2) assms(1) by (simp add: led_round_end_def led_at_def pattern_ok_def)
    moreover obtain s2 where "led_play tab (length (concat (map pulse_light (drop (Suc i) (pulses (tab ! p)))))) s1
                = (concat (map pulse_light (drop (Suc i) (pulses (tab ! p)))), s2)"
        "after_round (tab ! p) p r s2"
      using Suc(1) [OF n s1(2) True] by blast
    ultimately show ?thesis using s1(1) by (simp add: dr led_play_add)
  next
    case False
    then have "Suc i = length (pulses (tab ! p))" using Suc.prems(2) by simp
    then show ?thesis using s1 after_round_end [of p "tab ! p" r s1] assms(1) by (simp add: dr)
  qed
qed

lemma led_play_round:
  assumes "pattern_ok (tab ! p)" and "led_at p 0 r s"
  obtains s2 where "led_play tab (length (pattern_light (tab ! p))) s = (pattern_light (tab ! p), s2)"
    "after_round (tab ! p) p r s2"
  using led_play_from [OF assms(1,2)] assms(1) that by (auto simp: pattern_light_def pattern_ok_def)

lemma led_play_forever:
  assumes "pattern_ok (tab ! p)" and "pat_repeat (tab ! p) = LED_PATTERN_REPEAT_INFINITE" and "led_at p 0 r s"
  shows "fst (led_play tab (k * length (pattern_light (tab ! p))) s) = concat (replicate k (pattern_light (tab ! p)))"
  using assms(3)
proof (induction k arbitrary: s)
  case (Suc k)
  obtain s2 where "led_play tab (length (pattern_light (tab ! p))) s = (pattern_light (tab ! p), s2)"
      "after_round (tab ! p) p r s2"
    by (rule led_play_round [OF assms(1) Suc.prems])
  then show ?case using Suc.IH assms(2) by (simp add: led_play_add after_round_def)
qed simp

lemma led_play_finite:
  assumes "pattern_ok (tab ! p)" and "0 \<le> r" and "led_at p 0 r s" and "pat_repeat (tab ! p) = r + 1 + int k"
  shows "\<exists>s2. led_play tab (Suc k * length (pattern_light (tab ! p))) s
      = (concat (replicate (Suc k) (pattern_light (tab ! p))), s2)
      \<and> cur_pattern s2 = None \<and> led_timer s2 \<noteq> None \<and> \<not> led0 s2"
  using assms(2-)
proof (induction k arbitrary: r s)
  case 0
  obtain s2 where "led_play tab (length (pattern_light (tab ! p))) s = (pattern_light (tab ! p), s2)"
      "after_round (tab ! p) p r s2"
    by (rule led_play_round [OF assms(1) 0(2)])
  then show ?case using 0 by (simp add: after_round_def LED_PATTERN_REPEAT_INFINITE_def)
next
  case (Suc k)
  obtain s2 where s2: "led_play tab (length (pattern_light (tab ! p))) s = (pattern_light (tab ! p), s2)"
      "after_round (tab ! p) p r s2"
    by (rule led_play_round [OF assms(1) Suc.prems(2)])
  then have "led_at p 0 (r + 1) s2"
    using Suc.prems by (simp add: after_round_def LED_PATTERN_REPEAT_INFINITE_def)
  from Suc.IH [OF _ this] Suc.prems obtain s3 where
    "led_play tab (Suc k * length (pattern_light (tab ! p))) s2
      = (concat (replicate (Suc k) (pattern_light (tab ! p))), s3)"
    "cur_pattern s3 = None" "led_timer s3 \<noteq> None" "\<not> led0 s3" by auto
  then show ?case using s2(1)
    by (simp add: led_play_add [of tab "length (pattern_light (tab ! p))"])
qed

section \<open>Properties\<close>

text \<open>
  Further: in every run from the start of the LED thread, with any Wi-Fi events, timer expiries and shell commands,
  a running pattern is one of the table, the pulse read next is inside its array and the timer is running.
\<close>

theorem led_pulse_in_table:
  assumes "cur_pattern (fold led_step es (led_thread_start ready cfg_ok led_reset)) = Some p"
  shows "p < length led_patterns
    \<and> cur_pulse (fold led_step es (led_thread_start ready cfg_ok led_reset)) < length (pulses (led_patterns ! p))
    \<and> led_timer (fold led_step es (led_thread_start ready cfg_ok led_reset)) \<noteq> None"
proof -
  have "led_ok (fold led_step es (led_thread_start ready cfg_ok led_reset))"
    by (rule led.inv_run) auto
  then show ?thesis using assms table_ok by (auto simp: led_ok_def pattern_ok_def)
qed

lemma led_thread_start_pattern [simp]: "cur_pattern (led_thread_start ready cfg_ok led_reset) = Some 0"
  by (simp add: led_thread_start_def led0_init_def led_reset_def led_timer_start_def k_timer_start_def)

theorem led_pulse_in_table_witness:
  "cur_pattern (fold led_step [Timer_expiry] (led_thread_start True True led_reset)) = Some 0
   \<and> cur_pulse (fold led_step [Timer_expiry] (led_thread_start True True led_reset)) < 1"
proof -
  have c: "cur_pattern (fold led_step [Timer_expiry] (led_thread_start True True led_reset)) = Some 0"
    by code_simp
  have "length (pulses (led_patterns ! 0)) = 1" by code_simp
  then show ?thesis using led_pulse_in_table [OF c] c by simp
qed

lemma led_started:
  assumes "cur_pattern s \<noteq> Some p" and "cur_pattern (snd (led_timer_start tab (Some p) s)) = Some p"
  shows "led_at p 0 0 (snd (led_timer_start tab (Some p) s))"
  using assms by (auto simp: led_timer_start_def led_at_def k_timer_start_def split: option.splits if_splits)

text \<open>
  Further: a pattern of the table that starts shows its pulses in order for ever: after every number of rounds the
  lights and their times are the listed ones, each round once.
\<close>

theorem led_shows_pattern:
  assumes "p < length led_patterns" and "cur_pattern s \<noteq> Some p"
    and "cur_pattern (snd (led_timer_start led_patterns (Some p) s)) = Some p"
  shows "fst (led_play led_patterns (k * length (pattern_light (led_patterns ! p)))
                (snd (led_timer_start led_patterns (Some p) s)))
           = concat (replicate k (pattern_light (led_patterns ! p)))"
  using assms table_ok by (intro led_play_forever [where r = 0] led_started) auto

theorem led_shows_pattern_witness:
  "fst (led_play led_patterns (2 * length (pattern_light (led_patterns ! 1)))
          (snd (led_timer_start led_patterns (Some 1) led_reset)))
     = concat (replicate 2 [(True, Some 100), (False, Some 100), (False, Some 200)])"
proof -
  have "pattern_light (led_patterns ! 1) = [(True, Some 100), (False, Some 100), (False, Some 200)]" by code_simp
  moreover have "cur_pattern (snd (led_timer_start led_patterns (Some 1) led_reset)) = Some 1" by code_simp
  moreover have "cur_pattern led_reset \<noteq> Some 1" by code_simp
  moreover have "(1::nat) < length led_patterns" by code_simp
  ultimately show ?thesis using led_shows_pattern [of 1 led_reset 2] by simp
qed


definition twice :: led_pattern where
  "twice = \<lparr>pat_name = ''twice'', pulses = [(50, 60)], duration = 1, pat_repeat = 2, priority = 9\<rparr>"


text \<open>The pattern the handler has for a failed, lost or complete connection.\<close>

definition net_pattern :: "string \<Rightarrow> nat option" where
  "net_pattern w =
     (if w = ''connect failed'' \<or> w = ''disconnected'' then Some LED_PATTERN_NETWORK_UNHAPPY
      else if w = ''ip acquired'' then Some LED_PATTERN_HEARTBEAT else None)"

fun statuses :: "led_event list \<Rightarrow> string list" where
  "statuses [] = []"
| "statuses (Wifi_status w # es) = w # statuses es"
| "statuses (e # es) = statuses es"

fun no_command :: "led_event \<Rightarrow> bool" where
  "no_command (Wifi_status w) = True"
| "no_command Timer_expiry = True"
| "no_command e = False"

definition net_shown :: "string list \<Rightarrow> nat" where
  "net_shown ws =
     (let qs = List.map_filter net_pattern ws
      in if qs \<noteq> [] then last qs
         else if ''connecting'' \<in> set ws then LED_PATTERN_CONNECTING else LED_PATTERN_BOOT)"

lemma statuses_append [simp]: "statuses (xs @ ys) = statuses xs @ statuses ys"
  by (induction xs rule: statuses.induct) simp_all

lemma map_filter_net_pattern: "q \<in> set (List.map_filter net_pattern ws) \<Longrightarrow> q = 2 \<or> q = 3"
  by (auto simp: List.map_filter_def net_pattern_def split: if_splits)

lemma net_shown_snoc:
  "net_shown (ws @ [w]) =
     (case net_pattern w of
        Some q \<Rightarrow> q
      | None \<Rightarrow> if w = ''connecting'' \<and> net_shown ws < 2 then 1 else net_shown ws)"
proof (cases "net_pattern w")
  case None
  have "List.map_filter net_pattern ws \<noteq> [] \<Longrightarrow> 2 \<le> last (List.map_filter net_pattern ws)"
    using map_filter_net_pattern [of "last (List.map_filter net_pattern ws)" ws] by fastforce
  then show ?thesis using None by (auto simp: net_shown_def List.map_filter_def Let_def)
qed (simp add: net_shown_def List.map_filter_def)

lemma priorities:
  "priority (led_patterns ! 0) = 5" "priority (led_patterns ! 1) = 5"
  "priority (led_patterns ! 2) = 6" "priority (led_patterns ! 3) = 6"
  by (simp_all add: led_patterns_def boot_pattern_def network_connecting_pattern_def network_unhappy_pattern_def
      heart_beat_def)

lemma started_pattern:
  "cur_pattern s = Some c \<Longrightarrow> cur_pattern (snd (led_timer_start led_patterns (Some p) s)) =
     Some (if priority (led_patterns ! c) \<le> priority (led_patterns ! p) then p else c)"
  by (auto simp: led_timer_start_def k_timer_start_def)

lemma handler_pattern:
  assumes "cur_pattern s = Some c" and "c < 4"
  shows "cur_pattern (led_thread_event_handler w s) =
    Some (case net_pattern w of Some q \<Rightarrow> q | None \<Rightarrow> if w = ''connecting'' \<and> c < 2 then 1 else c)"
proof -
  have c: "c = 0 \<or> c = 1 \<or> c = 2 \<or> c = 3" using assms(2) by auto
  have "priority (led_patterns ! c) \<le> 6" "priority (led_patterns ! c) \<le> 5 \<longleftrightarrow> c < 2"
    using c priorities by auto
  then show ?thesis
    using assms(1) priorities
    by (simp add: led_thread_event_handler_def strcmp_eq_def net_pattern_def started_pattern)
qed

lemma expiry_pattern:
  assumes "led_ok s" and "cur_pattern s = Some p"
  shows "cur_pattern (led_timer_expired led_patterns s) = Some p"
proof -
  have "pat_repeat (led_patterns ! p) = LED_PATTERN_REPEAT_INFINITE"
    using assms table_ok by (auto simp: led_ok_def)
  then show ?thesis using assms(2)
    by (simp add: led_timer_expired_def led_pattern_parse_def led_round_end_def led_pulse_step_def k_timer_start_def
        led0_set_def Let_def)
qed

text \<open>
  Further: without shell commands the LED shows the pattern of the last failed, lost or complete connection; once
  there was one, the pattern of a connection attempt is never shown again.
\<close>

theorem led_network_pattern:
  assumes "\<forall>e\<in>set es. no_command e"
  shows "cur_pattern (fold led_step es (led_thread_start ready cfg_ok led_reset)) = Some (net_shown (statuses es))"
  using assms
proof (induction es rule: rev_induct)
  case Nil
  then show ?case by (simp add: net_shown_def List.map_filter_def)
next
  case (snoc e es)
  let ?s = "fold led_step es (led_thread_start ready cfg_ok led_reset)"
  have ok: "led_ok ?s" by (rule led.inv_run) auto
  have p: "cur_pattern ?s = Some (net_shown (statuses es))" using snoc by simp
  then have "net_shown (statuses es) < 4" using ok by (simp add: led_ok_def led_count)
  then show ?case
    using snoc.prems p expiry_pattern [OF ok p] handler_pattern [OF p]
    by (cases e) (simp_all add: net_shown_snoc)
qed

theorem led_network_pattern_witness:
  "cur_pattern (fold led_step [Wifi_status ''connecting'', Timer_expiry, Wifi_status ''connect failed'', Wifi_status ''connecting'']
     (led_thread_start True True led_reset)) = Some 2"
proof -
  have "net_shown [''connecting'', ''connect failed'', ''connecting''] = 2"
    by (simp add: net_shown_def net_pattern_def List.map_filter_def)
  then show ?thesis
    using led_network_pattern [of "[Wifi_status ''connecting'', Timer_expiry, Wifi_status ''connect failed'', Wifi_status ''connecting'']"
        True True] by simp
qed

text \<open>
  Further: disabling the LED timer forgets the running pattern and leaves the light as it was; enabling it again
  shows nothing, and the timer stops with its first expiry.
\<close>

theorem led_enable_does_not_resume:
  assumes "led_timer s \<noteq> None"
  shows "led_timer_expired led_patterns (led_timer_enable (led_timer_disable s))
    = s\<lparr>cur_pattern := None, led_timer := None\<rparr>"
  using assms
  by (auto simp: led_timer_expired_def led_timer_enable_def led_timer_disable_def k_timer_stop_def
      led_timer_stopped_def k_timer_start_def led_pattern_parse_def)

theorem led_enable_does_not_resume_witness:
  "led_timer_expired led_patterns (led_timer_enable (led_timer_disable (led_thread_start True True led_reset)))
    = (led_thread_start True True led_reset)\<lparr>cur_pattern := None, led_timer := None\<rparr>"
proof -
  have "led_timer (led_thread_start True True led_reset) \<noteq> None" by code_simp
  then show ?thesis by (rule led_enable_does_not_resume)
qed

text \<open>Further: the command that stops the LED reads a missing argument exactly when it is given none.\<close>

theorem led_stop_needs_argument:
  "cmd_led_pattern_stop argv s = None \<longleftrightarrow> length argv \<le> 1"
  by (simp add: cmd_led_pattern_stop_def Let_def)

end
