(* ===== verification/Storage.thy ===== *)
theory Storage
  imports Prelude
begin

text \<open>
  src/storage/storage.c, storage\_counter.c and the two counters that use it. The file system (LittleFS
  behind Zephyr's \<open>fs\_\<close> calls) is not part of the repository: it is a record of operations on an abstract
  state, and \<open>fs_ok\<close> states what its documentation promises in terms of \<open>files\<close>, the contents it holds. An
  open file is its path; the position, which the calls advance, is an argument. File contents are lists
  of characters.
\<close>

section \<open>The file system\<close>

text \<open>
  \<open>fs_dir\<close> is the result of opening the directory, the names \<open>fs_readdir\<close> delivers with result 0, and the
  result and the entry name of the call that ends the listing (an empty name when all names were read).
\<close>

record 'f fs_api =
  fs_open :: "string \<Rightarrow> bool \<Rightarrow> 'f \<Rightarrow> int \<times> 'f"
  fs_read :: "string \<Rightarrow> nat \<Rightarrow> nat \<Rightarrow> 'f \<Rightarrow> int \<times> string"
  fs_seek :: "string \<Rightarrow> nat \<Rightarrow> 'f \<Rightarrow> int"
  fs_write :: "string \<Rightarrow> nat \<Rightarrow> string \<Rightarrow> 'f \<Rightarrow> int \<times> 'f"
  fs_close :: "string \<Rightarrow> 'f \<Rightarrow> int \<times> 'f"
  fs_unlink :: "string \<Rightarrow> 'f \<Rightarrow> int \<times> 'f"
  fs_rename :: "string \<Rightarrow> string \<Rightarrow> 'f \<Rightarrow> int \<times> 'f"
  fs_dir :: "'f \<Rightarrow> int \<times> string list \<times> int \<times> string"

text \<open>Writing \<open>bs\<close> at position \<open>pos\<close>.\<close>

definition overlay :: "nat \<Rightarrow> string \<Rightarrow> string \<Rightarrow> string" where
  "overlay pos bs c = take pos c @ bs @ drop (pos + length bs) c"

definition content :: "string option \<Rightarrow> string" where
  "content c = (case c of None \<Rightarrow> [] | Some x \<Rightarrow> x)"

definition fs_ok :: "'f fs_api \<Rightarrow> ('f \<Rightarrow> string \<Rightarrow> string option) \<Rightarrow> bool" where
  "fs_ok A files \<longleftrightarrow>
     (\<forall>p b f. files (snd (fs_open A p b f)) =
        (if 0 \<le> fst (fs_open A p b f) \<and> b then (files f)(p \<mapsto> content (files f p)) else files f))
     \<and> (\<forall>p pos n f. 0 \<le> fst (fs_read A p pos n f) \<longrightarrow>
        fs_read A p pos n f = (let bs = take n (drop pos (content (files f p))) in (int (length bs), bs)))
     \<and> (\<forall>p pos bs f. fst (fs_write A p pos bs f) \<le> int (length bs))
     \<and> (\<forall>p pos bs f. files (snd (fs_write A p pos bs f)) =
        (if 0 \<le> fst (fs_write A p pos bs f)
         then (files f)(p \<mapsto> overlay pos (take (nat (fst (fs_write A p pos bs f))) bs) (content (files f p)))
         else files f))
     \<and> (\<forall>p f. files (snd (fs_close A p f)) = files f)
     \<and> (\<forall>p f. files (snd (fs_unlink A p f)) =
        (if 0 \<le> fst (fs_unlink A p f) then (files f)(p := None) else files f))"

lemma fs_ok_open: "fs_ok A files \<Longrightarrow> files (snd (fs_open A p b f)) =
    (if 0 \<le> fst (fs_open A p b f) \<and> b then (files f)(p \<mapsto> content (files f p)) else files f)"
  unfolding fs_ok_def by blast

lemma fs_ok_read: "fs_ok A files \<Longrightarrow> 0 \<le> fst (fs_read A p pos n f) \<Longrightarrow>
    fs_read A p pos n f = (let bs = take n (drop pos (content (files f p))) in (int (length bs), bs))"
  unfolding fs_ok_def by blast

lemma fs_ok_write: "fs_ok A files \<Longrightarrow> files (snd (fs_write A p pos bs f)) =
    (if 0 \<le> fst (fs_write A p pos bs f)
     then (files f)(p \<mapsto> overlay pos (take (nat (fst (fs_write A p pos bs f))) bs) (content (files f p)))
     else files f)"
  unfolding fs_ok_def by blast

lemma fs_ok_write_le: "fs_ok A files \<Longrightarrow> fst (fs_write A p pos bs f) \<le> int (length bs)"
  unfolding fs_ok_def by blast

lemma fs_ok_close: "fs_ok A files \<Longrightarrow> files (snd (fs_close A p f)) = files f"
  unfolding fs_ok_def by blast

lemma fs_ok_unlink: "fs_ok A files \<Longrightarrow> files (snd (fs_unlink A p f)) =
    (if 0 \<le> fst (fs_unlink A p f) then (files f)(p := None) else files f)"
  unfolding fs_ok_def by blast

text \<open>A file system in memory that keeps the promises and never fails, for concrete runs.\<close>

definition ram_fs :: "(string \<Rightarrow> string option) fs_api" where
  "ram_fs = \<lparr>fs_open = (\<lambda>p b f. if b then (0, f(p \<mapsto> content (f p))) else if f p = None then (- ENOENT, f) else (0, f)),
     fs_read = (\<lambda>p pos n f. let bs = take n (drop pos (content (f p))) in (int (length bs), bs)),
     fs_seek = (\<lambda>_ _ _. 0),
     fs_write = (\<lambda>p pos bs f. (int (length bs), f(p \<mapsto> overlay pos bs (content (f p))))),
     fs_close = (\<lambda>_ f. (0, f)),
     fs_unlink = (\<lambda>p f. if f p = None then (- ENOENT, f) else (0, f(p := None))),
     fs_rename = (\<lambda>p q f. if f p = None then (- ENOENT, f) else (0, f(q := f p, p := None))),
     fs_dir = (\<lambda>f. (0, [], 0, []))\<rparr>"

lemma ram_fs_ok: "fs_ok ram_fs (\<lambda>f. f)"
  by (auto simp: fs_ok_def ram_fs_def Let_def fw_defs)

section \<open>storage.c\<close>

text \<open>The path, \<open>snprintf\<close> into 255 bytes; the board mounts the partition on /lfs1.\<close>

definition storage_path :: "string \<Rightarrow> string" where
  "storage_path name = take 254 (''/lfs1/'' @ name)"

text \<open>The result, the bytes stored through \<open>data\<close> and the new state.\<close>

definition storage_read :: "'f fs_api \<Rightarrow> string \<Rightarrow> nat \<Rightarrow> nat \<Rightarrow> 'f \<Rightarrow> int \<times> string \<times> 'f" where
  "storage_read A name offset max_len f =
     (if max_len = 0 then (- EINVAL, [], f)
      else let p = storage_path name; (rc, f1) = fs_open A p True f
           in if rc < 0 then (rc, [], snd (fs_close A p f1))
              else let rc = fs_seek A p offset f1
                   in if rc < 0 then (rc, [], snd (fs_close A p f1))
                      else let (rc, bs) = fs_read A p offset max_len f1
                           in (rc, if rc < 0 then [] else bs, snd (fs_close A p f1)))"

text \<open>The result of \<open>fs_write\<close> goes into a \<open>size_t\<close> whose test against zero cannot succeed.\<close>

definition storage_write :: "'f fs_api \<Rightarrow> string \<Rightarrow> string \<Rightarrow> 'f \<Rightarrow> int \<times> 'f" where
  "storage_write A name bs f =
     (let p = storage_path name; (rc, f1) = fs_open A p True f
      in if rc < 0 then (rc, snd (fs_close A p f1))
         else let (_, f2) = fs_write A p 0 bs f1 in (rc, snd (fs_close A p f2)))"

definition storage_remove :: "'f fs_api \<Rightarrow> string \<Rightarrow> 'f \<Rightarrow> int \<times> 'f" where
  "storage_remove A name f = fs_unlink A (storage_path name) f"

text \<open>Every path returns 0.\<close>

definition storage_move :: "'f fs_api \<Rightarrow> string \<Rightarrow> string \<Rightarrow> 'f \<Rightarrow> int \<times> 'f" where
  "storage_move A src dst f = (0, snd (fs_rename A (storage_path src) (storage_path dst) f))"

text \<open>
  \<open>list_loop names i\<close> is the loop with \<open>i\<close> bytes written: the text written from there and the name in
  \<open>entry\<close> at its end; \<open>lst\<close> is that name when the loop ends at the end of the directory.
\<close>

fun list_loop :: "nat \<Rightarrow> string \<Rightarrow> string list \<Rightarrow> nat \<Rightarrow> string \<times> string" where
  "list_loop max_len lst [] i = ([], lst)"
| "list_loop max_len lst (n # ns) i =
     (if i + length n + 1 > max_len then ([], n)
      else let (txt, e) = list_loop max_len lst ns (i + length n + 1) in (n @ [CHR 0x0A] @ txt, e))"

text \<open>
  \<open>None\<close> when the terminator is stored outside the buffer of \<open>max_len\<close> bytes, otherwise the result and
  the bytes stored in order from its start; between them and the terminator the buffer keeps what it held.
\<close>

definition storage_list :: "'f fs_api \<Rightarrow> nat \<Rightarrow> 'f \<Rightarrow> (int \<times> string) option" where
  "storage_list A max_len f =
     (let (res, names, _, lst) = fs_dir A f
      in if res \<noteq> 0 then Some (res, [])
         else let (txt, e) = list_loop max_len lst names 0
              in if length txt + length e \<ge> max_len then None else Some (int (length txt) + 1, txt))"

section \<open>storage\_counter.c\<close>

datatype counter_action = STORAGE_COUNTER_SET | STORAGE_COUNTER_GET | STORAGE_COUNTER_ADJUST

text \<open>An \<open>int32_t\<close> in a file, least significant byte first.\<close>

definition le32 :: "int \<Rightarrow> string" where
  "le32 v = map (\<lambda>i. char_of (nat (v div 256 ^ i mod 256))) [0, 1, 2, 3]"

definition le32_val :: "string \<Rightarrow> int" where
  "le32_val bs = s32 (\<Sum>i = 0..<4. int (of_char (bs ! i)) * 256 ^ i)"

definition counter_put :: "'f fs_api \<Rightarrow> string \<Rightarrow> int \<Rightarrow> int \<Rightarrow> 'f \<Rightarrow> int \<times> int \<times> 'f" where
  "counter_put A p counter res f =
     (let rc = fs_seek A p 0 f
      in if rc < 0 then (rc, res, f)
         else let (rc, f1) = fs_write A p 0 (le32 counter) f in (rc, res, f1))"

definition storage_manipulate_counter ::
  "'f fs_api \<Rightarrow> string \<Rightarrow> int \<Rightarrow> int \<Rightarrow> counter_action \<Rightarrow> 'f \<Rightarrow> int \<times> int \<times> 'f" where
  "storage_manipulate_counter A name i res action f =
     (let p = storage_path name; (rc, f1) = fs_open A p True f
      in if rc < 0 then (rc, res, f1)
         else let (rc, bs) = fs_read A p 0 4 f1;
                  counter = le32_val (bs @ drop (length bs) (le32 0));
                  (rc, res, f2) =
                    (if rc < 0 then (rc, res, f1)
                     else case action of
                       STORAGE_COUNTER_SET \<Rightarrow> counter_put A p i i f1
                     | STORAGE_COUNTER_GET \<Rightarrow>
                         (if rc = 0 then counter_put A p 0 0 f1 else (rc, counter, f1))
                     | STORAGE_COUNTER_ADJUST \<Rightarrow> counter_put A p (s32 (counter + i)) (s32 (counter + i)) f1);
                  (ret, f3) = fs_close A p f2
              in if ret < 0 then (ret, res, f3) else (if rc < 0 then rc else 0, res, f3))"

definition storage_counter_set :: "'f fs_api \<Rightarrow> string \<Rightarrow> int \<Rightarrow> int \<Rightarrow> 'f \<Rightarrow> int \<times> int \<times> 'f" where
  "storage_counter_set A name i res = storage_manipulate_counter A name i res STORAGE_COUNTER_SET"

definition storage_counter_get :: "'f fs_api \<Rightarrow> string \<Rightarrow> int \<Rightarrow> 'f \<Rightarrow> int \<times> int \<times> 'f" where
  "storage_counter_get A name res = storage_manipulate_counter A name 0 res STORAGE_COUNTER_GET"

definition storage_counter_adjust :: "'f fs_api \<Rightarrow> string \<Rightarrow> int \<Rightarrow> int \<Rightarrow> 'f \<Rightarrow> int \<times> int \<times> 'f" where
  "storage_counter_adjust A name i res = storage_manipulate_counter A name i res STORAGE_COUNTER_ADJUST"

text \<open>boot\_count.c and eol\_test\_result.c: the static value, returned, and the file system.\<close>

definition boot_count_increment :: "'f fs_api \<Rightarrow> int \<Rightarrow> 'f \<Rightarrow> int \<times> 'f" where
  "boot_count_increment A boot_count f = snd (storage_counter_adjust A ''boot_count'' 1 boot_count f)"

definition eol_test_result_set :: "'f fs_api \<Rightarrow> int \<Rightarrow> 'f \<Rightarrow> int \<times> 'f" where
  "eol_test_result_set A v f = snd (storage_counter_adjust A ''eol_test_result'' 1 v f)"

definition eol_test_result_get :: "'f fs_api \<Rightarrow> int \<Rightarrow> 'f \<Rightarrow> int \<times> 'f" where
  "eol_test_result_get A v f = snd (storage_counter_get A ''eol_test_result'' v f)"

section \<open>Files\<close>

text \<open>No call fails (removing an absent file may) and every write takes all of its bytes.\<close>

definition reliable :: "'f fs_api \<Rightarrow> ('f \<Rightarrow> string \<Rightarrow> string option) \<Rightarrow> bool" where
  "reliable A files \<longleftrightarrow>
     (\<forall>p f. 0 \<le> fst (fs_open A p True f)) \<and> (\<forall>p pos n f. 0 \<le> fst (fs_read A p pos n f))
     \<and> (\<forall>p n f. 0 \<le> fs_seek A p n f) \<and> (\<forall>p pos bs f. fst (fs_write A p pos bs f) = int (length bs))
     \<and> (\<forall>p f. 0 \<le> fst (fs_close A p f)) \<and> (\<forall>p f. files f p \<noteq> None \<longrightarrow> 0 \<le> fst (fs_unlink A p f))"

lemma ram_fs_reliable: "reliable ram_fs (\<lambda>f. f)"
  by (auto simp: reliable_def ram_fs_def Let_def)

lemma reliableD:
  assumes "reliable A files"
  shows "0 \<le> fst (fs_open A p True f)" "0 \<le> fst (fs_read A p pos n f)" "0 \<le> fs_seek A p n f"
    "fst (fs_write A p pos bs f) = int (length bs)" "0 \<le> fst (fs_close A p f)"
    "files f p \<noteq> None \<Longrightarrow> 0 \<le> fst (fs_unlink A p f)"
  using assms unfolding reliable_def by blast+

lemma overlay_0: "overlay 0 bs c = bs @ drop (length bs) c"
  by (simp add: overlay_def)

lemma storage_write_files:
  assumes ok: "fs_ok A files" and o: "0 \<le> fst (fs_open A (storage_path name) True f)"
  shows "\<exists>k \<le> length bs. files (snd (storage_write A name bs f)) =
      (files f)(storage_path name \<mapsto> take k bs @ drop k (content (files f (storage_path name))))
    \<and> int k = max 0 (fst (fs_write A (storage_path name) 0 bs (snd (fs_open A (storage_path name) True f))))"
proof -
  let ?p = "storage_path name"
  let ?f1 = "snd (fs_open A ?p True f)"
  let ?rc = "fst (fs_write A ?p 0 bs ?f1)"
  have f1: "files ?f1 = (files f)(?p \<mapsto> content (files f ?p))" using fs_ok_open [OF ok, of ?p True f] o by simp
  have "files (snd (storage_write A name bs f)) = files (snd (fs_write A ?p 0 bs ?f1))"
    using o by (simp add: storage_write_def Let_def split_beta fs_ok_close [OF ok])
  also have "\<dots> = (files f)(?p \<mapsto> take (nat ?rc) bs @ drop (nat ?rc) (content (files f ?p)))"
  proof -
    have "nat ?rc \<le> length bs" using fs_ok_write_le [OF ok, of ?p 0 bs ?f1] by (simp add: nat_le_iff)
    then show ?thesis by (simp add: fs_ok_write [OF ok] f1 overlay_0 content_def)
  qed
  finally show ?thesis
    using fs_ok_write_le [OF ok, of ?p 0 bs ?f1] by (intro exI [of _ "nat ?rc"]) (simp add: nat_le_iff)
qed

text \<open>
  Further: when a file can be opened, \<open>storage_write\<close> reports the result of opening it. The file then holds the
  bytes the file system took, followed by what an earlier, longer content had after them: neither a full
  disk nor a failed write is reported.
\<close>

theorem storage_write_reports_open:
  assumes ok: "fs_ok A files" and o: "0 \<le> fst (fs_open A (storage_path name) True f)"
  shows "fst (storage_write A name bs f) = fst (fs_open A (storage_path name) True f)
    \<and> (\<exists>k \<le> length bs. files (snd (storage_write A name bs f)) (storage_path name) =
           Some (take k bs @ drop k (content (files f (storage_path name))))
         \<and> int k = max 0 (fst (fs_write A (storage_path name) 0 bs (snd (fs_open A (storage_path name) True f)))))"
proof -
  have "fst (storage_write A name bs f) = fst (fs_open A (storage_path name) True f)"
    using o by (simp add: storage_write_def Let_def split_beta)
  then show ?thesis using storage_write_files [OF ok o, of bs] by auto
qed

text \<open>A disk that is full: nothing is ever written.\<close>

definition full_fs :: "(string \<Rightarrow> string option) fs_api" where
  "full_fs = ram_fs\<lparr>fs_write := \<lambda>p pos bs f. (- ENOMEM, f)\<rparr>"

lemma full_fs_ok: "fs_ok full_fs (\<lambda>f. f)"
  using ram_fs_ok by (simp add: fs_ok_def full_fs_def fw_defs)

theorem storage_write_reports_open_witness:
  "fst (storage_write full_fs ''a'' ''bcd'' Map.empty) = 0
    \<and> snd (storage_write full_fs ''a'' ''bcd'' Map.empty) (storage_path ''a'') = Some []"
proof -
  have "fs_open full_fs (storage_path ''a'') True Map.empty = (0, [storage_path ''a'' \<mapsto> []])"
    by (simp add: full_fs_def ram_fs_def content_def)
  moreover have "fst (fs_write full_fs p 0 bs f) = - ENOMEM" for p bs f by (simp add: full_fs_def)
  ultimately show ?thesis
    using storage_write_reports_open [OF full_fs_ok, of "''a''" Map.empty "''bcd''"]
    by (auto simp: fw_defs content_def)
qed

lemma storage_replace:
  assumes ok: "fs_ok A files" and rel: "reliable A files"
  shows "files (snd (storage_write A name bs (snd (storage_remove A name f)))) = (files f)(storage_path name \<mapsto> bs)"
proof -
  let ?p = "storage_path name" and ?f1 = "snd (storage_remove A name f)"
  note r = reliableD [OF rel]
  have f1: "files ?f1 = (files f)(?p := None)"
    using fs_ok_unlink [OF ok, of ?p f] r(6) [of f ?p]
    by (cases "files f ?p") (auto simp: storage_remove_def fun_eq_iff)
  show ?thesis
    using storage_write_files [of A files name ?f1 bs, OF ok r(1)] by (auto simp: r(4) f1 content_def)
qed

text \<open>
  Further: on a file system that does not fail, replacing a file (remove, then write) and reading it back gives
  the first bytes of what was written, as many as asked for; no other file changes.
\<close>

theorem storage_roundtrip:
  assumes ok: "fs_ok A files" and rel: "reliable A files" and n: "0 < n"
  shows "let f2 = snd (storage_write A name bs (snd (storage_remove A name f)));
             (rc, txt, f3) = storage_read A name 0 n f2
         in rc = int (length txt) \<and> txt = take n bs \<and> (\<forall>q. q \<noteq> storage_path name \<longrightarrow> files f3 q = files f q)"
proof -
  let ?p = "storage_path name" and ?f2 = "snd (storage_write A name bs (snd (storage_remove A name f)))"
  let ?f3 = "snd (fs_open A ?p True ?f2)"
  note r = reliableD [OF rel] and f2 = storage_replace [OF ok rel, of name bs f]
  have f3: "files ?f3 = (files f)(?p \<mapsto> bs)" using fs_ok_open [OF ok, of ?p True ?f2] r(1) f2 by (simp add: content_def)
  have rd: "fs_read A ?p 0 n ?f3 = (int (length (take n bs)), take n bs)"
    using fs_ok_read [OF ok r(2), of ?p 0 n ?f3] by (simp add: f3 content_def Let_def)
  have "storage_read A name 0 n ?f2 = (int (length (take n bs)), take n bs, snd (fs_close A ?p ?f3))"
    using n r(1) [of ?p ?f2] r(3) [of ?p 0 ?f3] rd by (simp add: storage_read_def Let_def split_beta)
  then show ?thesis by (simp add: fs_ok_close [OF ok] f3)
qed

theorem storage_roundtrip_witness:
  "let f2 = snd (storage_write ram_fs ''a'' ''new'' (snd (storage_remove ram_fs ''a'' [storage_path ''a'' \<mapsto> ''older''])));
       (rc, txt, f3) = storage_read ram_fs ''a'' 0 8 f2
   in txt = ''new''"
  using storage_roundtrip [OF ram_fs_ok ram_fs_reliable, of 8 "''a''" "''new''" "[storage_path ''a'' \<mapsto> ''older'']"]
  by (simp add: Let_def split_beta)

section \<open>Counters\<close>

lemma le32_length [simp]: "length (le32 v) = 4"
  by (simp add: le32_def)

lemma bytes_sum:
  fixes v :: int
  shows "v mod 256 + v div 256 mod 256 * 256 + v div 65536 mod 256 * 65536
      + v div 16777216 mod 256 * 16777216 = v mod 4294967296"
proof -
  have d: "v div 256 div 256 = v div 65536" "v div 65536 div 256 = v div 16777216"
    "v div 16777216 div 256 = v div 4294967296"
    by (simp_all add: zdiv_zmult2_eq [symmetric])
  show ?thesis
    unfolding minus_div_mult_eq_mod [of v 256, symmetric] minus_div_mult_eq_mod [of "v div 256" 256, symmetric]
      minus_div_mult_eq_mod [of "v div 65536" 256, symmetric]
      minus_div_mult_eq_mod [of "v div 16777216" 256, symmetric]
      minus_div_mult_eq_mod [of v 4294967296, symmetric] d
    by (simp add: algebra_simps)
qed

lemma char_byte: "int (of_char (char_of (nat (x mod 256)))) = x mod 256" for x :: int
proof -
  have "nat (x mod 256) < 256" using pos_mod_bound [of 256 x] by (simp add: nat_less_iff)
  then have "of_char (char_of (nat (x mod 256))) = nat (x mod 256)" by simp
  then show ?thesis using pos_mod_sign [of 256 x] by simp
qed

lemma s32_cong: "x mod 2 ^ 32 = y mod 2 ^ 32 \<Longrightarrow> s32 x = s32 y"
  unfolding s32_def using mod_add_cong [of x "2 ^ 32" y "2 ^ 31" "2 ^ 31"] by simp

lemma s32_mod: "s32 a mod 2 ^ 32 = a mod 2 ^ 32"
  unfolding s32_def by (simp only: mod_diff_left_eq add_diff_cancel_right')

lemma s32_add: "s32 (s32 a + b) = s32 (a + b)" "s32 (b + s32 a) = s32 (b + a)"
  by (intro s32_cong mod_add_cong s32_mod refl)+

lemma le32_val_le32: "le32_val (le32 v) = s32 v"
proof -
  have "le32_val (le32 v) = s32 (v mod 256 + v div 256 mod 256 * 256 + v div 65536 mod 256 * 65536
      + v div 16777216 mod 256 * 16777216)"
  proof -
    have "{0..<4} = {0, 1, 2, 3 :: nat}" by auto
    then show ?thesis by (simp add: le32_val_def le32_def char_byte add.assoc)
  qed
  also have "\<dots> = s32 (v mod 2 ^ 32)" unfolding bytes_sum by simp
  also have "\<dots> = s32 v" by (rule s32_cong) simp
  finally show ?thesis .
qed

text \<open>The value a counter file stands for, and the files that are one.\<close>

definition counter_value :: "string option \<Rightarrow> int" where
  "counter_value c = (if content c = [] then 0 else le32_val (content c))"

definition counter_file :: "string option \<Rightarrow> bool" where
  "counter_file c \<longleftrightarrow> content c = [] \<or> length (content c) = 4"

lemma s32_0: "s32 0 = 0"
  by (simp add: s32_def)

lemma adjust_step:
  assumes ok: "fs_ok A files" and rel: "reliable A files" and c: "counter_file (files f (storage_path name))"
  shows "\<exists>f'. storage_counter_adjust A name i res f =
      (0, s32 (counter_value (files f (storage_path name)) + i), f')
    \<and> files f' = (files f)(storage_path name \<mapsto> le32 (s32 (counter_value (files f (storage_path name)) + i)))"
proof -
  let ?p = "storage_path name" and ?f1 = "snd (fs_open A (storage_path name) True f)"
  let ?c = "content (files f (storage_path name))"
  note r = reliableD [OF rel]
  have f1: "files ?f1 = (files f)(?p \<mapsto> ?c)" using fs_ok_open [OF ok, of ?p True f] r(1) by simp
  have rd: "fs_read A ?p 0 4 ?f1 = (int (length ?c), ?c)"
    using fs_ok_read [OF ok r(2), of ?p 0 4 ?f1] c by (auto simp: f1 content_def counter_file_def Let_def)
  let ?v = "s32 (counter_value (files f (storage_path name)) + i)"
  have val: "le32_val (?c @ drop (length ?c) (le32 0)) = counter_value (files f ?p)"
    using c le32_val_le32 [of 0] by (auto simp: counter_file_def counter_value_def s32_0)
  let ?f2 = "snd (fs_write A ?p 0 (le32 ?v) ?f1)"
  have f2: "files ?f2 = (files f)(?p \<mapsto> le32 ?v)"
    using c by (auto simp: fs_ok_write [OF ok] r(4) f1 overlay_0 counter_file_def content_def)
  have "storage_counter_adjust A name i res f = (0, ?v, snd (fs_close A ?p ?f2))"
    using r(1) [of ?p f] r(3) [of ?p 0 ?f1] r(4) [of ?p 0 "le32 ?v" ?f1] r(5) [of ?p ?f2]
    by (simp add: storage_counter_adjust_def storage_manipulate_counter_def Let_def split_beta rd val counter_put_def)
  then show ?thesis using f2 by (simp add: fs_ok_close [OF ok])
qed

definition adjust_all :: "'f fs_api \<Rightarrow> string \<Rightarrow> int list \<Rightarrow> int \<times> int \<times> 'f \<Rightarrow> int \<times> int \<times> 'f" where
  "adjust_all A name is s = fold (\<lambda>i (rc, res, f). storage_counter_adjust A name i res f) is s"

text \<open>
  Further: on a file system that does not fail, a sequence of adjustments of a counter that starts absent, empty
  or as four bytes ends with the sum of the adjustments added, wrapped to 32 signed bits, in the file and
  in the caller's variable: the boot counter counts the boots.
\<close>

theorem counter_counts:
  assumes ok: "fs_ok A files" and rel: "reliable A files" and c: "counter_file (files f (storage_path name))"
    and ne: "is \<noteq> []"
  shows "let (rc, res, f') = adjust_all A name is (0, res0, f)
    in rc = 0 \<and> res = s32 (counter_value (files f (storage_path name)) + sum_list is)
       \<and> counter_value (files f' (storage_path name)) = res"
proof -
  let ?p = "storage_path name"
  have "\<exists>f'. adjust_all A name is s = (0, s32 (counter_value (files (snd (snd s)) ?p) + sum_list is), f')
      \<and> files f' ?p = Some (le32 (s32 (counter_value (files (snd (snd s)) ?p) + sum_list is)))"
    if "counter_file (files (snd (snd s)) ?p)" for s
    using ne that
  proof (induction "is" arbitrary: s)
    case (Cons i js)
    obtain rc res g where s: "s = (rc, res, g)" by (cases s)
    let ?v = "s32 (counter_value (files g ?p) + i)"
    obtain f' where st: "storage_counter_adjust A name i res g = (0, ?v, f')"
      and f': "files f' = (files g)(?p \<mapsto> le32 ?v)"
      using adjust_step [OF ok rel, of g name i res] Cons.prems(2) s by auto
    have cv: "counter_value (files f' ?p) = ?v"
      using le32_val_le32 [of ?v] s32_add(1) [of "counter_value (files g ?p) + i" 0]
      by (simp add: f' counter_value_def content_def) (metis le32_length list.size(3) zero_neq_numeral)
    show ?case
    proof (cases "js = []")
      case True
      then show ?thesis using st f' s by (simp add: adjust_all_def)
    next
      case False
      have "counter_file (files f' ?p)" by (simp add: f' counter_file_def content_def)
      with Cons.IH [OF False, of "(0, ?v, f')"] cv
      show ?thesis using st s by (simp add: adjust_all_def s32_add ac_simps)
    qed
  qed simp
  from this [of "(0, res0, f)"] c show ?thesis
    using le32_val_le32 s32_add(1) [of _ 0]
    by (auto simp: counter_value_def content_def)
       (metis le32_length list.size(3) zero_neq_numeral)+
qed

theorem counter_counts_witness:
  "let (rc, res, f') = adjust_all ram_fs ''boot_count'' [1, 1, 1] (0, 0, [storage_path ''boot_count'' \<mapsto> le32 41])
   in rc = 0 \<and> res = 44"
proof -
  have "counter_file (Some (le32 41))" by (simp add: counter_file_def content_def)
  moreover have "counter_value (Some (le32 41)) = 41" by code_simp
  ultimately show ?thesis
    using counter_counts [OF ram_fs_ok ram_fs_reliable, of "[storage_path ''boot_count'' \<mapsto> le32 41]" "''boot_count''"
        "[1, 1, 1]" 0]
    by (simp add: Let_def split_beta s32_def)
qed

section \<open>Listing\<close>

text \<open>The bytes a list of names takes, each with its line end.\<close>

definition listing_size :: "string list \<Rightarrow> nat" where
  "listing_size ns = (\<Sum>n\<leftarrow>ns. length n + 1)"

lemma listing_size_simps [simp]: "listing_size [] = 0" "listing_size (n # ns) = length n + 1 + listing_size ns"
  by (simp_all add: listing_size_def)

lemma list_loop_fits:
  "i + listing_size ns \<le> m \<Longrightarrow> list_loop m lst ns i = (concat (map (\<lambda>n. n @ [CHR 0x0A]) ns), lst)"
  by (induction ns arbitrary: i) (auto simp: ac_simps)

lemma list_loop_too_small:
  "i \<le> m \<Longrightarrow> m < i + listing_size ns \<Longrightarrow>
   (case list_loop m lst ns i of (txt, e) \<Rightarrow> m \<le> i + length txt + length e)"
proof (induction ns arbitrary: i)
  case (Cons n ns)
  show ?case
  proof (cases "m < i + length n + 1")
    case False
    with Cons.IH [of "i + length n + 1"] Cons.prems show ?thesis by (auto simp: split_beta)
  qed simp
qed simp

text \<open>
  C39: a complete listing stays in its buffer exactly when all names, their line ends and the terminator
  fit; then it is the names. Otherwise the terminator is stored outside the buffer, in spite of the test in
  the loop and also when the names alone fill the buffer exactly.
\<close>

theorem storage_list_safe_iff_fits:
  assumes "fs_dir A f = (0, names, res, [])"
  shows "storage_list A max_len f =
    (if listing_size names < max_len
     then Some (int (listing_size names) + 1, concat (map (\<lambda>n. n @ [CHR 0x0A]) names)) else None)"
proof -
  have len: "length (concat (map (\<lambda>n. n @ [CHR 0x0A]) names)) = listing_size names"
    by (induction names) auto
  show ?thesis
  proof (cases "listing_size names \<le> max_len")
    case True
    then show ?thesis
      using assms len list_loop_fits [of 0 names max_len "[]"] by (auto simp: storage_list_def)
  next
    case False
    then show ?thesis
      using assms list_loop_too_small [of 0 max_len names "[]"] by (auto simp: storage_list_def split_beta)
  qed
qed

theorem storage_list_safe_iff_fits_witness:
  "storage_list (ram_fs\<lparr>fs_dir := \<lambda>f. (0, [''abc'', ''de''], 0, [])\<rparr>) 7 Map.empty = None
    \<and> storage_list (ram_fs\<lparr>fs_dir := \<lambda>f. (0, [''abc'', ''de''], 0, [])\<rparr>) 8 Map.empty
        = Some (8, ''abc'' @ [CHR 0x0A] @ ''de'' @ [CHR 0x0A])"
  using storage_list_safe_iff_fits [of "ram_fs\<lparr>fs_dir := \<lambda>f. (0, [''abc'', ''de''], 0, [])\<rparr>" Map.empty
      "[''abc'', ''de'']" 0 7]
    storage_list_safe_iff_fits [of "ram_fs\<lparr>fs_dir := \<lambda>f. (0, [''abc'', ''de''], 0, [])\<rparr>" Map.empty
      "[''abc'', ''de'']" 0 8]
  by simp

end
