(* ===== verification/Cfg.thy ===== *)
theory Cfg
  imports Storage Utils
begin

text \<open>
  The configuration: src/cfg/cfg.c, cfg\_defaults.c and cfg\_json.c. At every start a pointer file names the
  configuration file, whose JSON text is decoded over the defaults. The file system is the parameter of
  Storage; Zephyr's JSON parser is the parameter \<open>parse\<close>, with the result of \<open>json_obj_parse\<close> and the structure it
  leaves; \<open>scan\<close> is \<open>sscanf("\%f")\<close>. A \<open>char *\<close> is the string it points to: after \<open>cfg_init\<close> all of them point to static
  buffers or literals. \<open>None\<close> is a store outside an array. Log output is not represented.
\<close>

section \<open>The structure and its defaults\<close>

record gen_cfg_t =
  cfg_v :: string

record pwr_cfg_t =
  is_prod_unit :: bool
  batt_mv_wifi_off :: int
  batt_mv_wifi_on :: int
  pv_mv_wifi_off :: int
  pv_mv_wifi_on :: int

record wifi_cfg_t =
  cfg_ssid :: string
  cfg_psk :: string
  cfg_mqtt_hn :: string

record manager_cfg_t =
  trd_mon_en :: bool
  cfg_wifi_to_ms :: int
  cfg_mqtt_to_ms :: int

record accel_cfg_t =
  temp_offset :: string

record cfg_t =
  gen_cfg :: gen_cfg_t
  pwr_cfg :: pwr_cfg_t
  wifi_cfg :: wifi_cfg_t
  manager_cfg :: manager_cfg_t
  accel_cfg :: accel_cfg_t

text \<open>The strings of the build configuration.\<close>

record build_strings =
  HELIOGEN_SSID_24GHZ :: string
  HELIOGEN_PASSWORD :: string
  MQTT_TRANSPORT_BROKER_HOSTNAME :: string

definition MANAGER_CONNECTIVITY_MONITOR_WIFI_TIMEOUT_MS :: int where
  "MANAGER_CONNECTIVITY_MONITOR_WIFI_TIMEOUT_MS = 5 * 60 * 1000"

definition MANAGER_CONNECTIVITY_MONITOR_TRANSPORT_TIMEOUT_MS :: int where
  "MANAGER_CONNECTIVITY_MONITOR_TRANSPORT_TIMEOUT_MS = 5 * 60 * 1000"

definition cfg_defaults :: "build_strings \<Rightarrow> cfg_t \<Rightarrow> cfg_t" where
  "cfg_defaults K c =
     c\<lparr>gen_cfg := \<lparr>cfg_v = ''default''\<rparr>,
       pwr_cfg := \<lparr>is_prod_unit = False, batt_mv_wifi_off = 3000, batt_mv_wifi_on = 3100, pv_mv_wifi_off = 1000,
                   pv_mv_wifi_on = 1250\<rparr>,
       wifi_cfg := \<lparr>cfg_ssid = HELIOGEN_SSID_24GHZ K, cfg_psk = HELIOGEN_PASSWORD K,
                    cfg_mqtt_hn = MQTT_TRANSPORT_BROKER_HOSTNAME K\<rparr>,
       manager_cfg := \<lparr>trd_mon_en = True, cfg_wifi_to_ms = MANAGER_CONNECTIVITY_MONITOR_WIFI_TIMEOUT_MS,
                       cfg_mqtt_to_ms = MANAGER_CONNECTIVITY_MONITOR_TRANSPORT_TIMEOUT_MS\<rparr>,
       accel_cfg := \<lparr>temp_offset = ''25.0''\<rparr>\<rparr>"

section \<open>Reading the files\<close>

text \<open>\<open>snprintf(path, len + 1, "\%s/\%s", ...)\<close> with the mount point.\<close>

definition cfg_path :: "nat \<Rightarrow> string \<Rightarrow> string" where
  "cfg_path len name = take len (''/lfs1/'' @ name)"

definition HELIOGEN_CONFIG_FILE_CONFIG :: string where "HELIOGEN_CONFIG_FILE_CONFIG = ''cfg_file.txt''"
definition HELIOGEN_CONFIG_FILE_DEFAULT :: string where "HELIOGEN_CONFIG_FILE_DEFAULT = ''cfg.json''"

definition copy_in :: "string \<Rightarrow> nat \<Rightarrow> string" where
  "copy_in s n = c_str (fst (safe_strlcpy s n))"

text \<open>
  \<open>cfg_file_get\<close>: the name left in the buffer of \<open>len\<close> bytes. The terminator goes behind the bytes read, outside
  the buffer when they fill it.
\<close>

definition cfg_file_get :: "'f fs_api \<Rightarrow> nat \<Rightarrow> 'f \<Rightarrow> (int \<times> string \<times> 'f) option" where
  "cfg_file_get A len f =
     (let p = cfg_path 254 HELIOGEN_CONFIG_FILE_CONFIG; (rc, f1) = fs_open A p False f
      in if rc < 0 then Some (rc, copy_in HELIOGEN_CONFIG_FILE_DEFAULT len, snd (fs_close A p f1))
         else let (rc, bs) = fs_read A p 0 len f1
              in if rc < 0 then Some (rc, copy_in HELIOGEN_CONFIG_FILE_DEFAULT len, snd (fs_close A p f1))
                 else if rc \<ge> int len then None
                 else Some (rc, c_str bs, snd (fs_close A p f1)))"

text \<open>\<open>cfg_file_read\<close>: its result and the text, meaningful when the result is not negative.\<close>

definition cfg_file_read :: "'f fs_api \<Rightarrow> string \<Rightarrow> nat \<Rightarrow> 'f \<Rightarrow> (int \<times> string \<times> 'f) option" where
  "cfg_file_read A name len f =
     (let p = cfg_path 255 name; (rc, f1) = fs_open A p False f
      in if rc < 0 then Some (rc, [], snd (fs_close A p f1))
         else let (rc, bs) = fs_read A p 0 len f1
              in if rc < 0 then Some (rc, [], snd (fs_close A p f1))
                 else if rc \<ge> int len then None
                 else Some (rc, c_str bs, snd (fs_close A p f1)))"

text \<open>\<open>cfg_decode\<close>; the required field is bit 0 of the result, the general part.\<close>

type_synonym json_parser = "string \<Rightarrow> cfg_t \<Rightarrow> int \<times> cfg_t"

definition cfg_decode :: "json_parser \<Rightarrow> string \<Rightarrow> cfg_t \<Rightarrow> int \<times> cfg_t" where
  "cfg_decode parse json_str c =
     (let (ret, c1) = parse json_str c
      in (if ret < 0 then - ENOEXEC else if ret mod 2 \<noteq> 1 then - EINVAL else 0, c1))"

section \<open>cfg\_init\<close>

text \<open>The copies into the static buffers, and the members made to point there.\<close>

definition cfg_copy :: "cfg_t \<Rightarrow> cfg_t" where
  "cfg_copy c =
     c\<lparr>gen_cfg := (gen_cfg c)\<lparr>cfg_v := copy_in (cfg_v (gen_cfg c)) 64\<rparr>,
       wifi_cfg := \<lparr>cfg_ssid = copy_in (cfg_ssid (wifi_cfg c)) 64, cfg_psk = copy_in (cfg_psk (wifi_cfg c)) 64,
                    cfg_mqtt_hn = copy_in (cfg_mqtt_hn (wifi_cfg c)) 64\<rparr>,
       accel_cfg := \<lparr>temp_offset = copy_in (temp_offset (accel_cfg c)) 16\<rparr>\<rparr>"

text \<open>The values set after decoding; \<open>hn\<close> is the broker address written into the image.\<close>

definition cfg_pin :: "string \<Rightarrow> cfg_t \<Rightarrow> cfg_t" where
  "cfg_pin hn c =
     c\<lparr>manager_cfg := (manager_cfg c)\<lparr>cfg_wifi_to_ms := MANAGER_CONNECTIVITY_MONITOR_WIFI_TIMEOUT_MS,
                        cfg_mqtt_to_ms := MANAGER_CONNECTIVITY_MONITOR_TRANSPORT_TIMEOUT_MS\<rparr>,
       wifi_cfg := (wifi_cfg c)\<lparr>cfg_ssid := ''G5-Heliostat-AP-5GHz_4'', cfg_mqtt_hn := hn\<rparr>\<rparr>"

text \<open>\<open>dflt\<close> is the floating-point constant 25.0.\<close>

definition cfg_init ::
  "'f fs_api \<Rightarrow> build_strings \<Rightarrow> string \<Rightarrow> json_parser \<Rightarrow> (string \<Rightarrow> 'r option) \<Rightarrow> 'r \<Rightarrow> cfg_t \<Rightarrow> 'f \<Rightarrow>
   (cfg_t \<times> 'r \<times> 'f) option" where
  "cfg_init A K hn parse scan dflt c f =
     (let c0 = cfg_defaults K c
      in case cfg_file_get A 255 f of
           None \<Rightarrow> None
         | Some (r, name, f1) \<Rightarrow>
             (case cfg_file_read A name 1024 f1 of
                None \<Rightarrow> None
              | Some (rc, txt, f2) \<Rightarrow>
                  let c1 = (if rc < 0 then c0 else snd (cfg_decode parse txt c0));
                      c2 = cfg_copy c1
                  in Some (cfg_pin hn c2,
                           case scan (temp_offset (accel_cfg c2)) of None \<Rightarrow> dflt | Some x \<Rightarrow> x, f2)))"

definition head_mqtt_hn :: string where "head_mqtt_hn = ''10.30.224.10''"
definition node_mqtt_hn :: string where "node_mqtt_hn = ''10.30.224.5''"

section \<open>What a start loads\<close>

lemma strlcpy_loop_string: "c_str (fst (strlcpy_loop n s) @ [NUL]) = take n (c_str s)"
  by (induction n s rule: strlcpy_loop.induct) (simp_all add: c_str_def split_beta)

lemma c_str_nul: "NUL \<in> set bs \<Longrightarrow> c_str (bs @ r) = c_str bs"
  unfolding c_str_def by (rule takeWhile_append1) auto

lemma strlcpy_loop_left: "strlcpy_loop n s = (w, l, r) \<Longrightarrow> l \<noteq> 0 \<Longrightarrow> NUL \<in> set w"
  by (induction n s arbitrary: w l r rule: strlcpy_loop.induct) (auto split: if_splits prod.splits)

lemma copy_in_take:
  assumes "0 < n"
  shows "copy_in s n = take (n - 1) (c_str s)"
proof -
  obtain w l r where w: "strlcpy_loop (n - 1) s = (w, l, r)" by (cases "strlcpy_loop (n - 1) s")
  have "c_str (w @ [NUL]) = take (n - 1) (c_str s)" using strlcpy_loop_string [of "n - 1" s] w by simp
  then show ?thesis using assms w strlcpy_loop_left [OF w] c_str_nul [of w "[NUL]"]
    by (simp add: copy_in_def safe_strlcpy_def)
qed

text \<open>
  What is read, as a function of the contents of the files: the pointer file, the configuration file it names
  and the structure before the copies.
\<close>

definition readable :: "'f fs_api \<Rightarrow> ('f \<Rightarrow> string \<Rightarrow> string option) \<Rightarrow> bool" where
  "readable A files \<longleftrightarrow>
     (\<forall>p f. 0 \<le> fst (fs_open A p False f) \<longleftrightarrow> files f p \<noteq> None) \<and> (\<forall>p pos n f. 0 \<le> fst (fs_read A p pos n f))"

definition pointer_file :: "(string \<Rightarrow> string option) \<Rightarrow> string option" where
  "pointer_file fl = fl (cfg_path 254 HELIOGEN_CONFIG_FILE_CONFIG)"

definition cfg_text :: "(string \<Rightarrow> string option) \<Rightarrow> string option" where
  "cfg_text fl =
     fl (cfg_path 255 (case pointer_file fl of None \<Rightarrow> HELIOGEN_CONFIG_FILE_DEFAULT | Some c \<Rightarrow> c_str c))"

definition oversized :: "(string \<Rightarrow> string option) \<Rightarrow> bool" where
  "oversized fl \<longleftrightarrow> 255 \<le> length (content (pointer_file fl)) \<or> 1024 \<le> length (content (cfg_text fl))"

definition loaded :: "json_parser \<Rightarrow> (string \<Rightarrow> string option) \<Rightarrow> cfg_t \<Rightarrow> cfg_t" where
  "loaded parse fl c0 = (case cfg_text fl of None \<Rightarrow> c0 | Some t \<Rightarrow> snd (parse (c_str t) c0))"

lemma open_read:
  assumes ok: "fs_ok A files" and rd: "readable A files" and o: "fs_open A p False f = (r, f1)"
  shows "files f1 = files f" "r < 0 \<longleftrightarrow> files f p = None"
    "fs_read A p 0 n f1 = (int (length (take n (content (files f p)))), take n (content (files f p)))"
    "files (snd (fs_close A p f1)) = files f"
proof -
  show f1: "files f1 = files f" using fs_ok_open [OF ok, of p False f] o by simp
  have "0 \<le> r \<longleftrightarrow> files f p \<noteq> None" using rd o unfolding readable_def by (metis fst_conv)
  then show "r < 0 \<longleftrightarrow> files f p = None" by linarith
  have "0 \<le> fst (fs_read A p 0 n f1)" using rd unfolding readable_def by blast
  from fs_ok_read [OF ok this]
  show "fs_read A p 0 n f1 = (int (length (take n (content (files f p)))), take n (content (files f p)))"
    by (simp add: f1 Let_def)
  show "files (snd (fs_close A p f1)) = files f" by (simp add: fs_ok_close [OF ok] f1)
qed

lemma default_name: "copy_in HELIOGEN_CONFIG_FILE_DEFAULT 255 = HELIOGEN_CONFIG_FILE_DEFAULT"
  by (simp add: copy_in_take HELIOGEN_CONFIG_FILE_DEFAULT_def c_str_def)

lemma cfg_file_get_spec:
  assumes ok: "fs_ok A files" and rd: "readable A files"
  shows "if 255 \<le> length (content (pointer_file (files f))) then cfg_file_get A 255 f = None
    else \<exists>r f1. cfg_file_get A 255 f = Some (r, case pointer_file (files f) of None \<Rightarrow> HELIOGEN_CONFIG_FILE_DEFAULT
                  | Some c \<Rightarrow> c_str c, f1) \<and> files f1 = files f"
proof -
  define p where "p = cfg_path 254 HELIOGEN_CONFIG_FILE_CONFIG"
  obtain r f1 where o: "fs_open A p False f = (r, f1)" by (cases "fs_open A p False f")
  note f1 = open_read [OF ok rd o]
  show ?thesis
  proof (cases "files f p")
    case None
    then show ?thesis using o f1
      by (simp add: cfg_file_get_def pointer_file_def p_def [symmetric] content_def default_name Let_def)
  next
    case (Some c)
    then show ?thesis using o f1(2,4) f1(3) [of 255]
      by (simp add: cfg_file_get_def pointer_file_def p_def [symmetric] content_def Let_def)
  qed
qed

lemma cfg_file_read_spec:
  fixes name :: string and f :: 'f
  assumes ok: "fs_ok A files" and rd: "readable A files"
  defines "t \<equiv> files f (cfg_path 255 name)"
  shows "if 1024 \<le> length (content t) then cfg_file_read A name 1024 f = None
    else \<exists>r f1. cfg_file_read A name 1024 f = Some (r, c_str (content t), f1)
      \<and> (r < 0 \<longleftrightarrow> t = None) \<and> files f1 = files f"
proof -
  define p where "p = cfg_path 255 name"
  obtain r f1 where o: "fs_open A p False f = (r, f1)" by (cases "fs_open A p False f")
  note f1 = open_read [OF ok rd o]
  show ?thesis
  proof (cases "files f p")
    case None
    then show ?thesis using o f1
      by (simp add: cfg_file_read_def t_def p_def [symmetric] content_def c_str_def Let_def)
  next
    case (Some c)
    then show ?thesis using o f1(2,4) f1(3) [of 1024]
      by (simp add: cfg_file_read_def t_def p_def [symmetric] content_def Let_def)
  qed
qed

definition scanned :: "(string \<Rightarrow> 'r option) \<Rightarrow> 'r \<Rightarrow> cfg_t \<Rightarrow> 'r" where
  "scanned scan dflt c = (case scan (temp_offset (accel_cfg c)) of None \<Rightarrow> dflt | Some x \<Rightarrow> x)"

lemma cfg_init_spec:
  assumes ok: "fs_ok A files" and rd: "readable A files"
  shows "if oversized (files f) then cfg_init A K hn parse scan dflt c f = None
    else \<exists>f'. cfg_init A K hn parse scan dflt c f =
           Some (cfg_pin hn (cfg_copy (loaded parse (files f) (cfg_defaults K c))),
                 scanned scan dflt (cfg_copy (loaded parse (files f) (cfg_defaults K c))), f')
         \<and> files f' = files f"
proof (cases "255 \<le> length (content (pointer_file (files f)))")
  case True
  then show ?thesis using cfg_file_get_spec [OF ok rd, of f] by (simp add: cfg_init_def oversized_def)
next
  case False
  let ?n = "case pointer_file (files f) of None \<Rightarrow> HELIOGEN_CONFIG_FILE_DEFAULT | Some c \<Rightarrow> c_str c"
  obtain r f1 where g: "cfg_file_get A 255 f = Some (r, ?n, f1)" "files f1 = files f"
    using cfg_file_get_spec [OF ok rd, of f] False by auto
  have t: "files f1 (cfg_path 255 ?n) = cfg_text (files f)" by (simp add: g(2) cfg_text_def)
  show ?thesis
  proof (cases "1024 \<le> length (content (cfg_text (files f)))")
    case True
    then show ?thesis using g cfg_file_read_spec [OF ok rd, of f1 ?n] t by (simp add: cfg_init_def oversized_def)
  next
    case small: False
    obtain rc f2 where "cfg_file_read A ?n 1024 f1 = Some (rc, c_str (content (cfg_text (files f))), f2)"
      "rc < 0 \<longleftrightarrow> cfg_text (files f) = None" "files f2 = files f1"
      using cfg_file_read_spec [OF ok rd, of f1 ?n] small t by auto
    then show ?thesis using g small False
      by (cases "cfg_text (files f)")
        (auto simp: cfg_init_def oversized_def loaded_def scanned_def cfg_decode_def content_def split_beta Let_def)
  qed
qed

text \<open>
  Further: what a start loads. If the pointer file is shorter than 255 bytes and the configuration file shorter than
  1024, the configuration is the decoded file over the defaults (the defaults alone without a file), its strings
  cut to their buffers and the pinned values put in; no file changes and the previous configuration plays no
  part. A longer file makes the terminator go outside the array.
\<close>

theorem cfg_init_loads:
  assumes "fs_ok A files" and "readable A files"
  shows "if oversized (files f) then cfg_init A K hn parse scan dflt c f = None
    else \<exists>f'. cfg_init A K hn parse scan dflt c f =
           Some (cfg_pin hn (cfg_copy (loaded parse (files f) (cfg_defaults K c))),
                 scanned scan dflt (cfg_copy (loaded parse (files f) (cfg_defaults K c))), f')
         \<and> files f' = files f \<and> cfg_defaults K c = cfg_defaults K c'"
  using cfg_init_spec [OF assms, of f K hn parse scan dflt c] by (cases c; cases c') (auto simp: cfg_defaults_def)

lemma ram_fs_readable: "readable ram_fs (\<lambda>f. f)"
  by (auto simp: readable_def ram_fs_def Let_def fw_defs)

definition no_strings :: build_strings where
  "no_strings = \<lparr>HELIOGEN_SSID_24GHZ = ''net'', HELIOGEN_PASSWORD = ''pw'', MQTT_TRANSPORT_BROKER_HOSTNAME = ''hub''\<rparr>"

text \<open>A parser that finds one number, for concrete runs.\<close>

definition batt_parser :: json_parser where
  "batt_parser t c = (3, c\<lparr>pwr_cfg := (pwr_cfg c)\<lparr>batt_mv_wifi_off := int (length t)\<rparr>\<rparr>)"

definition blank_cfg :: cfg_t where
  "blank_cfg = \<lparr>gen_cfg = \<lparr>cfg_v = []\<rparr>, pwr_cfg = \<lparr>is_prod_unit = False, batt_mv_wifi_off = 0, batt_mv_wifi_on = 0,
     pv_mv_wifi_off = 0, pv_mv_wifi_on = 0\<rparr>, wifi_cfg = \<lparr>cfg_ssid = [], cfg_psk = [], cfg_mqtt_hn = []\<rparr>,
     manager_cfg = \<lparr>trd_mon_en = False, cfg_wifi_to_ms = 0, cfg_mqtt_to_ms = 0\<rparr>, accel_cfg = \<lparr>temp_offset = []\<rparr>\<rparr>"

theorem cfg_init_loads_witness:
  "\<exists>st t f'. cfg_init ram_fs no_strings head_mqtt_hn batt_parser (\<lambda>_. None) (0 :: nat) blank_cfg
      [cfg_path 255 ''cfg.json'' \<mapsto> ''{ab}''] = Some (st, t, f') \<and> batt_mv_wifi_off (pwr_cfg st) = 4"
proof -
  let ?f = "[cfg_path 255 ''cfg.json'' \<mapsto> ''{ab}'']"
  have p: "pointer_file ?f = None"
    by (simp add: pointer_file_def cfg_path_def HELIOGEN_CONFIG_FILE_CONFIG_def)
  then have t: "cfg_text ?f = Some ''{ab}''" by (simp add: cfg_text_def HELIOGEN_CONFIG_FILE_DEFAULT_def)
  have "\<not> oversized ?f" by (simp add: oversized_def p t content_def)
  with cfg_init_loads [OF ram_fs_ok ram_fs_readable, of ?f no_strings head_mqtt_hn batt_parser "\<lambda>_. None" "0 :: nat" blank_cfg]
  show ?thesis by (auto simp: loaded_def t batt_parser_def cfg_pin_def cfg_copy_def c_str_def)
qed

text \<open>
  Further: whatever the files and the parser deliver, a start that ends has the network name and the broker address
  of the image and both connection time-outs at five minutes; the other strings fit their buffers.
\<close>

theorem cfg_network_pinned:
  assumes "cfg_init A K hn parse scan dflt c f = Some (st, t, f')"
  shows "cfg_ssid (wifi_cfg st) = ''G5-Heliostat-AP-5GHz_4'' \<and> cfg_mqtt_hn (wifi_cfg st) = hn
    \<and> cfg_wifi_to_ms (manager_cfg st) = 300000 \<and> cfg_mqtt_to_ms (manager_cfg st) = 300000
    \<and> length (cfg_psk (wifi_cfg st)) \<le> 63 \<and> length (cfg_v (gen_cfg st)) \<le> 63
    \<and> length (temp_offset (accel_cfg st)) \<le> 15"
  using assms
  by (auto simp: cfg_init_def Let_def cfg_pin_def cfg_copy_def copy_in_take
      MANAGER_CONNECTIVITY_MONITOR_WIFI_TIMEOUT_MS_def MANAGER_CONNECTIVITY_MONITOR_TRANSPORT_TIMEOUT_MS_def
      split: option.splits)

theorem cfg_network_pinned_witness:
  "\<exists>st t f'. cfg_init ram_fs no_strings head_mqtt_hn batt_parser (\<lambda>_. None) (0 :: nat) blank_cfg Map.empty
      = Some (st, t, f') \<and> cfg_mqtt_hn (wifi_cfg st) = ''10.30.224.10''"
proof -
  have "\<not> oversized Map.empty" by (simp add: oversized_def pointer_file_def cfg_text_def content_def)
  then obtain st t f' where i: "cfg_init ram_fs no_strings head_mqtt_hn batt_parser (\<lambda>_. None) (0 :: nat) blank_cfg Map.empty
      = Some (st, t, f')"
    using cfg_init_spec [OF ram_fs_ok ram_fs_readable, of Map.empty] by fastforce
  then show ?thesis using cfg_network_pinned [OF i] by (auto simp: head_mqtt_hn_def)
qed

text \<open>
  C22: a configuration file put in place by the file command (removed, then written) is what the next start
  decodes, when no pointer file names another one; a text of 1024 bytes or more, which the command accepts,
  makes every later start write outside its buffer.
\<close>

theorem cfg_upload_takes_effect:
  fixes bs :: string and f :: 'f and A :: "'f fs_api"
  assumes "fs_ok A files" and "readable A files" and "reliable A files"
    and "files f (cfg_path 254 HELIOGEN_CONFIG_FILE_CONFIG) = None"
  defines "g \<equiv> snd (storage_write A ''cfg.json'' bs (snd (storage_remove A ''cfg.json'' f)))"
  shows "if 1024 \<le> length bs then cfg_init A K hn parse scan dflt c g = None
    else \<exists>t f'. cfg_init A K hn parse scan dflt c g =
           Some (cfg_pin hn (cfg_copy (snd (parse (c_str bs) (cfg_defaults K c)))), t, f') \<and> files f' = files g"
proof -
  have g: "files g = (files f)(storage_path ''cfg.json'' \<mapsto> bs)"
    unfolding g_def by (rule storage_replace [OF assms(1,3)])
  have "cfg_path 254 HELIOGEN_CONFIG_FILE_CONFIG \<noteq> storage_path ''cfg.json''"
    by (simp add: cfg_path_def storage_path_def HELIOGEN_CONFIG_FILE_CONFIG_def)
  then have p: "pointer_file (files g) = None" using assms(4) by (simp add: pointer_file_def g)
  have "cfg_path 255 HELIOGEN_CONFIG_FILE_DEFAULT = storage_path ''cfg.json''"
    by (simp add: cfg_path_def storage_path_def HELIOGEN_CONFIG_FILE_DEFAULT_def)
  then have t: "cfg_text (files g) = Some bs" using p by (simp add: cfg_text_def g)
  have "oversized (files g) \<longleftrightarrow> 1024 \<le> length bs" by (simp add: oversized_def p t content_def)
  with cfg_init_spec [OF assms(1,2), of g K hn parse scan dflt c] t show ?thesis
    by (cases "1024 \<le> length bs") (auto simp: loaded_def)
qed

theorem cfg_upload_takes_effect_witness:
  "cfg_init ram_fs no_strings head_mqtt_hn batt_parser (\<lambda>_. None) (0 :: nat) blank_cfg
     (snd (storage_write ram_fs ''cfg.json'' (replicate 1024 CHR '' '') (snd (storage_remove ram_fs ''cfg.json'' Map.empty)))) = None"
  using cfg_upload_takes_effect [OF ram_fs_ok ram_fs_readable ram_fs_reliable, of Map.empty "replicate 1024 CHR '' ''"]
  by simp

end
