(* ===== verification/CrashRecord.thy ===== *)
theory CrashRecord
  imports Storage Utils
begin

text \<open>
  The way of an assertion, a fatal error or a watchdog expiry from the moment it happens to the file read
  after the restart: src/sys/retained\_ram.c, assert\_post\_action.c, fatal\_error\_handler.c,
  sys\_watchdog.c and the start of src/main.c. The record waits in RAM that a reset keeps, protected by a
  CRC; the CRC routine is Zephyr's and is a parameter. Character arrays are lists of their exact size.
  \<open>None\<close> is an access outside an array.
\<close>

section \<open>Retained memory\<close>

record retained_data =
  test_str :: string
  assert_err_str :: string
  fatal_err_str :: string
  watchdog_err_str :: string
  step_count_0 :: int
  step_count_1 :: int
  crc :: int

text \<open>Storing \<open>txt\<close> from the start of an array.\<close>

definition buf_put :: "string \<Rightarrow> string \<Rightarrow> string option" where
  "buf_put buf txt = (if length txt \<le> length buf then Some (txt @ drop (length txt) buf) else None)"

definition retained_ok :: "retained_data \<Rightarrow> bool" where
  "retained_ok r \<longleftrightarrow> length (test_str r) = 64 \<and> length (assert_err_str r) = 128
     \<and> length (fatal_err_str r) = 128 \<and> length (watchdog_err_str r) = 192"

text \<open>The bytes before the CRC (\<open>RETAINED_CRC_OFFSET\<close>) and all of them.\<close>

definition retained_bytes :: "retained_data \<Rightarrow> string" where
  "retained_bytes r = test_str r @ assert_err_str r @ fatal_err_str r @ watchdog_err_str r
     @ le32 (step_count_0 r) @ le32 (step_count_1 r)"

definition retained_checked :: "retained_data \<Rightarrow> string" where
  "retained_checked r = retained_bytes r @ le32 (crc r)"

definition retained_zero :: retained_data where
  "retained_zero = \<lparr>test_str = replicate 64 NUL, assert_err_str = replicate 128 NUL,
     fatal_err_str = replicate 128 NUL, watchdog_err_str = replicate 192 NUL,
     step_count_0 = 0, step_count_1 = 0, crc = 0\<rparr>"

definition CRC_RESIDUE :: int where
  "CRC_RESIDUE = 558161692"

text \<open>What the library documents of \<open>crc32_ieee\<close>: the CRC of a message followed by its CRC is the residue.\<close>

definition crc_ok :: "(string \<Rightarrow> int) \<Rightarrow> bool" where
  "crc_ok crc32 \<longleftrightarrow> (\<forall>m. crc32 (m @ le32 (crc32 m)) = CRC_RESIDUE)"

definition retained_validate :: "(string \<Rightarrow> int) \<Rightarrow> retained_data \<Rightarrow> bool \<times> retained_data" where
  "retained_validate crc32 r =
     (let valid = (crc32 (retained_checked r) = CRC_RESIDUE)
      in (valid, if \<not> valid then retained_zero else r))"

definition retained_update :: "(string \<Rightarrow> int) \<Rightarrow> retained_data \<Rightarrow> retained_data" where
  "retained_update crc32 r = r\<lparr>crc := crc32 (retained_bytes r)\<rparr>"

definition retained_ram_erase :: "(string \<Rightarrow> int) \<Rightarrow> retained_data" where
  "retained_ram_erase crc32 = retained_update crc32 retained_zero"

definition retained_ram_init :: "(string \<Rightarrow> int) \<Rightarrow> retained_data \<Rightarrow> bool \<times> retained_data" where
  "retained_ram_init crc32 r =
     (let (valid, r1) = retained_validate crc32 r in (valid, if valid then r1 else retained_update crc32 r1))"

section \<open>Writing a record\<close>

definition quoted :: "string \<Rightarrow> string" where
  "quoted s = [CHR 0x22] @ s @ [CHR 0x22]"

definition json_tail :: "int \<Rightarrow> int \<Rightarrow> string" where
  "json_tail boot_count uptime =
     quoted ''boot_count'' @ '':'' @ dec_str boot_count @ '','' @ quoted ''uptime'' @ '':'' @ dec_str uptime @ ''}''"

definition assert_msg :: "string \<Rightarrow> int \<Rightarrow> int \<Rightarrow> int \<Rightarrow> string" where
  "assert_msg file line boot_count uptime =
     ''{'' @ quoted ''file'' @ '':'' @ quoted file @ '','' @ quoted ''line'' @ '':'' @ dec_str (s32 line) @ '',''
     @ json_tail boot_count uptime"

text \<open>The text is built in 256 bytes and copied into the 128 bytes of the retained memory.\<close>

definition assert_post_action ::
  "(string \<Rightarrow> int) \<Rightarrow> string \<Rightarrow> int \<Rightarrow> int \<Rightarrow> int \<Rightarrow> retained_data \<Rightarrow> retained_data option" where
  "assert_post_action crc32 file line boot_count uptime r =
     (let msg = assert_msg file line boot_count uptime
      in if length msg \<ge> 256 then None
         else case buf_put (assert_err_str r) (fst (safe_strlcpy msg 128)) of
           None \<Rightarrow> None
         | Some b \<Rightarrow> Some (retained_update crc32 (r\<lparr>assert_err_str := b\<rparr>)))"

definition k_fatal_error_reason_strs :: "string list" where
  "k_fatal_error_reason_strs =
     [''K_ERR_CPU_EXCEPTION'', ''K_ERR_SPURIOUS_IRQ'', ''K_ERR_STACK_CHK_FAIL'', ''K_ERR_KERNEL_OOPS'',
      ''K_ERR_KERNEL_PANIC'']"

definition fatal_json :: "string \<Rightarrow> int \<Rightarrow> int \<Rightarrow> string" where
  "fatal_json reason boot_count uptime =
     ''{'' @ quoted ''error'' @ '':'' @ quoted ''fatal'' @ '','' @ quoted ''reason'' @ '':'' @ quoted reason @ '',''
     @ json_tail boot_count uptime"

text \<open>
  The text goes straight into the retained memory, which is then overwritten from the local buffer
  \<open>fatal_msg\<close>; \<open>junk\<close> is what that buffer, never written, holds.
\<close>

definition k_sys_fatal_error_handler ::
  "(string \<Rightarrow> int) \<Rightarrow> string \<Rightarrow> nat \<Rightarrow> int \<Rightarrow> int \<Rightarrow> retained_data \<Rightarrow> retained_data option" where
  "k_sys_fatal_error_handler crc32 junk reason boot_count uptime r =
     (if reason \<ge> length k_fatal_error_reason_strs then None
      else case buf_put (fatal_err_str r)
          (fatal_json (k_fatal_error_reason_strs ! reason) boot_count uptime @ [NUL]) of
        None \<Rightarrow> None
      | Some b1 \<Rightarrow>
          (case buf_put b1 (fst (safe_strlcpy (c_str junk) 128)) of
             None \<Rightarrow> None
           | Some b2 \<Rightarrow> Some (retained_update crc32 (r\<lparr>fatal_err_str := b2\<rparr>))))"

definition watchdog_json :: "int \<Rightarrow> string \<Rightarrow> int \<Rightarrow> int \<Rightarrow> string" where
  "watchdog_json channel_id thread_name boot_count uptime =
     ''{'' @ quoted ''error'' @ '':'' @ quoted ''watchdog'' @ '','' @ quoted ''channel_id'' @ '':''
     @ quoted (dec_str channel_id) @ '','' @ quoted ''thread'' @ '':'' @ quoted thread_name @ '',''
     @ json_tail boot_count uptime"

text \<open>The name of the thread is first copied into 64 bytes.\<close>

definition task_wdt_callback ::
  "(string \<Rightarrow> int) \<Rightarrow> int \<Rightarrow> string \<Rightarrow> int \<Rightarrow> int \<Rightarrow> retained_data \<Rightarrow> retained_data option" where
  "task_wdt_callback crc32 channel_id thread boot_count uptime r =
     (let thread_name = c_str (fst (safe_strlcpy thread 64))
      in case buf_put (watchdog_err_str r) (watchdog_json channel_id thread_name boot_count uptime @ [NUL]) of
           None \<Rightarrow> None
         | Some b \<Rightarrow> Some (retained_update crc32 (r\<lparr>watchdog_err_str := b\<rparr>)))"

section \<open>Saving it after the restart\<close>

definition fatal_error_to_file :: "'f fs_api \<Rightarrow> string \<Rightarrow> 'f \<Rightarrow> int \<times> 'f" where
  "fatal_error_to_file A msg f =
     storage_write A ''fatal.json'' (msg @ [NUL]) (snd (storage_remove A ''fatal.json'' f))"

definition assert_string_to_file :: "'f fs_api \<Rightarrow> string \<Rightarrow> 'f \<Rightarrow> int \<times> 'f" where
  "assert_string_to_file A msg f =
     storage_write A ''assert.json'' (msg @ [NUL]) (snd (storage_remove A ''assert.json'' f))"

definition watchdog_error_to_file :: "'f fs_api \<Rightarrow> string \<Rightarrow> 'f \<Rightarrow> int \<times> 'f" where
  "watchdog_error_to_file A msg f =
     (let p = storage_path ''watchdog.json''; f1 = snd (fs_unlink A p f); (rc, f2) = fs_open A p True f1
      in if rc \<ge> 0 then (rc, snd (fs_close A p (snd (fs_write A p 0 msg f2)))) else (rc, f2))"

definition retained_ram_to_files_save :: "'f fs_api \<Rightarrow> retained_data \<Rightarrow> 'f \<Rightarrow> 'f" where
  "retained_ram_to_files_save A r f =
     (let f1 = (if length (c_str (fatal_err_str r)) > 0 then snd (fatal_error_to_file A (c_str (fatal_err_str r)) f) else f);
          f2 = (if length (c_str (assert_err_str r)) > 0 then snd (assert_string_to_file A (c_str (assert_err_str r)) f1) else f1)
      in if length (c_str (watchdog_err_str r)) > 0
         then snd (watchdog_error_to_file A (c_str (watchdog_err_str r)) f2) else f2)"

text \<open>The start of \<open>main\<close>.\<close>

definition main_start ::
  "'f fs_api \<Rightarrow> (string \<Rightarrow> int) \<Rightarrow> retained_data \<times> int \<times> 'f \<Rightarrow> retained_data \<times> int \<times> 'f" where
  "main_start A crc32 s =
     (case s of (r, boot_count, f) \<Rightarrow>
        let (bc, f1) = boot_count_increment A boot_count f; (valid, r1) = retained_ram_init crc32 r
        in (r1, bc, if valid then retained_ram_to_files_save A r1 f1 else f1))"

section \<open>Reading it\<close>

definition default_assert_string :: string where
  "default_assert_string =
     ''{'' @ quoted ''file'' @ '':'' @ quoted [] @ '','' @ quoted ''line'' @ '':0,'' @ quoted ''boot_count'' @ '':0,''
     @ quoted ''uptime'' @ '':0}''"

definition default_fatal_error_string :: string where
  "default_fatal_error_string =
     ''{'' @ quoted ''error'' @ '':'' @ quoted ''none'' @ '','' @ quoted ''reason'' @ '':'' @ quoted ''none'' @ '',''
     @ quoted ''boot_count'' @ '':0,'' @ quoted ''uptime'' @ '':0 }''"

text \<open>
  The common body of \<open>assert_json_read\<close> and \<open>fatal_error_json_read\<close>: the file is read into 256 zeroed
  bytes; the result, the text stored for the caller and the file system. A file of 256 bytes without a
  terminator is read past its buffer.
\<close>

definition record_json_read ::
  "'f fs_api \<Rightarrow> string \<Rightarrow> string \<Rightarrow> nat \<Rightarrow> 'f \<Rightarrow> (int \<times> string \<times> 'f) option" where
  "record_json_read A file dflt len f =
     (let (rc, txt, f1) = storage_read A file 0 256 f;
          restore = (let (rc, f2) = storage_write A file (dflt @ [NUL]) (snd (storage_remove A file f1))
                     in Some (rc, c_str (fst (safe_strlcpy dflt len)), f2))
      in if rc < 0 then restore
         else if NUL \<notin> set txt \<and> length txt = 256 then None
         else if rc > 0 \<and> is_ascii_str (c_str txt) len then Some (rc, c_str (fst (safe_strlcpy (c_str txt) len)), f1)
         else restore)"

definition assert_json_read :: "'f fs_api \<Rightarrow> nat \<Rightarrow> 'f \<Rightarrow> (int \<times> string \<times> 'f) option" where
  "assert_json_read A = record_json_read A ''assert.json'' default_assert_string"

definition fatal_error_json_read :: "'f fs_api \<Rightarrow> nat \<Rightarrow> 'f \<Rightarrow> (int \<times> string \<times> 'f) option" where
  "fatal_error_json_read A = record_json_read A ''fatal.json'' default_fatal_error_string"

definition watchdog_error_json_read :: "'f fs_api \<Rightarrow> nat \<Rightarrow> 'f \<Rightarrow> int \<times> string \<times> 'f" where
  "watchdog_error_json_read A len f =
     (let p = storage_path ''watchdog.json''; (rc, f1) = fs_open A p False f
      in if rc < 0 then (rc, [], f1)
         else let (rc, bs) = fs_read A p 0 len f1 in (rc, if rc < 0 then [] else bs, snd (fs_close A p f1)))"

section \<open>The memory is valid after every write\<close>

lemma retained_update_valid: "crc_ok crc32 \<Longrightarrow> retained_validate crc32 (retained_update crc32 r) = (True, retained_update crc32 r)"
proof -
  assume "crc_ok crc32"
  moreover have "retained_checked (retained_update crc32 r) = retained_bytes r @ le32 (crc32 (retained_bytes r))"
    by (simp add: retained_checked_def retained_update_def retained_bytes_def)
  ultimately show ?thesis by (simp add: retained_validate_def crc_ok_def)
qed

text \<open>
  Further: whatever the RAM holds at start, after the initialisation it is valid: either unchanged, or erased
  when its CRC did not match, in which case nothing is saved to files. A second start finds it valid and
  leaves it alone.
\<close>

theorem retained_ram_init_valid:
  assumes crc: "crc_ok crc32" and i: "retained_ram_init crc32 r = (valid, r1)"
  shows "(if valid then r1 = r else r1 = retained_ram_erase crc32 \<and> c_str (assert_err_str r1) = []
      \<and> c_str (fatal_err_str r1) = [] \<and> c_str (watchdog_err_str r1) = [])
    \<and> retained_ram_init crc32 r1 = (True, r1)"
proof (cases "crc32 (retained_checked r) = CRC_RESIDUE")
  case True
  then show ?thesis using i by (simp add: retained_ram_init_def retained_validate_def)
next
  case False
  have z: "c_str (replicate n NUL) = []" for n by (induction n) (simp_all add: c_str_def)
  from False have "\<not> valid" "r1 = retained_update crc32 retained_zero"
    using i by (simp_all add: retained_ram_init_def retained_validate_def)
  moreover have "retained_ram_init crc32 (retained_update crc32 retained_zero) = (True, retained_update crc32 retained_zero)"
    using retained_update_valid [OF crc] by (simp add: retained_ram_init_def)
  ultimately show ?thesis by (simp add: retained_ram_erase_def retained_update_def retained_zero_def z)
qed

text \<open>A function with the documented property, for concrete runs.\<close>

function sample_crc :: "string \<Rightarrow> int" where
  "sample_crc m =
     (if length m < 4 then 0
      else if drop (length m - 4) m = le32 (sample_crc (take (length m - 4) m)) then CRC_RESIDUE else 0)"
  by pat_completeness auto
termination by (relation "measure length") auto

declare sample_crc.simps [simp del]

lemma sample_crc_ok: "crc_ok sample_crc"
  unfolding crc_ok_def by (simp add: sample_crc.simps [of "_ @ _"])

section \<open>From the assertion to the file\<close>

lemma c_str_append: "NUL \<notin> set a \<Longrightarrow> c_str (a @ NUL # b) = a"
  by (induction a) (auto simp: c_str_def)

lemma c_str_no_nul: "NUL \<notin> set (c_str b)"
  by (auto simp: c_str_def dest: set_takeWhileD)

lemma watchdog_file:
  assumes ok: "fs_ok A files" and rel: "reliable A files"
  shows "files (snd (watchdog_error_to_file A m f)) = (files f)(storage_path ''watchdog.json'' \<mapsto> m)"
proof -
  let ?p = "storage_path ''watchdog.json''"
  let ?f1 = "snd (fs_unlink A ?p f)"
  let ?f2 = "snd (fs_open A ?p True ?f1)"
  note r = reliableD [OF rel]
  have f1: "files ?f1 = (files f)(?p := None)"
    using fs_ok_unlink [OF ok, of ?p f] r(6) [of f ?p] by (cases "files f ?p") (auto simp: fun_eq_iff)
  have f2: "files ?f2 = (files f)(?p \<mapsto> [])"
    using fs_ok_open [OF ok, of ?p True ?f1] r(1) f1 by (simp add: content_def)
  show ?thesis
    using r(1) [of ?p ?f1]
    by (simp add: watchdog_error_to_file_def Let_def split_beta fs_ok_close [OF ok] fs_ok_write [OF ok] r(4) f2
        overlay_0 content_def)
qed

lemma record_paths: "storage_path ''fatal.json'' \<noteq> storage_path ''assert.json''"
  "storage_path ''watchdog.json'' \<noteq> storage_path ''assert.json''"
  "storage_path ''watchdog.json'' \<noteq> storage_path ''fatal.json''"
  by (simp_all add: storage_path_def)

lemma files_saved:
  assumes "fs_ok A files" "reliable A files"
  shows "c_str (assert_err_str r) \<noteq> [] \<Longrightarrow>
      files (retained_ram_to_files_save A r f) (storage_path ''assert.json'') = Some (c_str (assert_err_str r) @ [NUL])"
    "c_str (fatal_err_str r) \<noteq> [] \<Longrightarrow>
      files (retained_ram_to_files_save A r f) (storage_path ''fatal.json'') = Some (c_str (fatal_err_str r) @ [NUL])"
  using record_paths
  by (auto simp: retained_ram_to_files_save_def Let_def watchdog_file [OF assms] assert_string_to_file_def
      fatal_error_to_file_def storage_replace [OF assms])

lemma main_start_valid:
  assumes "crc32 (retained_checked r) = CRC_RESIDUE"
  shows "\<exists>bc' f1. main_start A crc32 (r, bc, f) = (r, bc', retained_ram_to_files_save A r f1)"
proof -
  have "retained_ram_init crc32 r = (True, r)"
    using assms by (simp add: retained_ram_init_def retained_validate_def)
  then show ?thesis by (auto simp: main_start_def split_beta)
qed

lemma read_record:
  assumes ok: "fs_ok A files" and rel: "reliable A files" and f: "files f (storage_path file) = Some (t @ [NUL])"
    and t: "NUL \<notin> set t" "\<forall>c\<in>set t. of_char c \<le> (127 :: nat)" "t \<noteq> []" "length t < 256"
  shows "\<exists>f'. record_json_read A file d 256 f = Some (int (length t) + 1, t, f')"
proof -
  let ?p = "storage_path file" and ?f1 = "snd (fs_open A (storage_path file) True f)"
  note r = reliableD [OF rel]
  have f1: "files ?f1 ?p = Some (t @ [NUL])" using fs_ok_open [OF ok, of ?p True f] r(1) f by (simp add: content_def)
  have "fs_read A ?p 0 256 ?f1 = (int (length t) + 1, t @ [NUL])"
    using fs_ok_read [OF ok r(2), of ?p 0 256 ?f1] t(4) f1 by (simp add: content_def Let_def)
  then have rd: "storage_read A file 0 256 f = (int (length t) + 1, t @ [NUL], snd (fs_close A ?p ?f1))"
    using r(1) [of ?p f] r(3) [of ?p 0 ?f1] by (simp add: storage_read_def Let_def split_beta)
  have "is_ascii_str t 256"
    using t by (auto simp: is_ascii_str_def is_ascii_loop_iff)
  moreover have "c_str (t @ [NUL]) = t" using c_str_append [OF t(1), of "[]"] by simp
  moreover have "c_str (fst (safe_strlcpy t 256)) = t"
    using safe_strlcpy_spec [OF t(1), of 256] t(4) c_str_append [OF t(1), of "[]"] by simp
  ultimately show ?thesis by (simp add: record_json_read_def rd)
qed

lemma quoted_simps [simp]: "set (quoted s) = insert CHR 0x22 (set s)" "length (quoted s) = length s + 2"
  by (auto simp: quoted_def)

lemma dec_nat_chars: "c \<in> set (dec_nat n) \<Longrightarrow> (48 :: nat) \<le> of_char c \<and> of_char c \<le> (57 :: nat)"
proof (induction n rule: dec_nat.induct)
  case (1 n)
  have d: "of_char (char_of (48 + k) :: char) = (48 + k :: nat)" if "k < 10" for k
    using that by simp
  show ?case
  proof (cases "n < 10")
    case True
    then show ?thesis using 1 d [of n] by (simp add: dec_nat.simps [of n])
  next
    case False
    have "n mod 10 < 10" by simp
    then show ?thesis using False 1 d [of "n mod 10"] by (auto simp: dec_nat.simps [of n])
  qed
qed

lemma dec_str_chars: "c \<in> set (dec_str i) \<Longrightarrow> (45 :: nat) \<le> of_char c \<and> of_char c \<le> (57 :: nat)"
  by (auto simp: dec_str_def split: if_splits dest: dec_nat_chars)

lemma assert_msg_chars:
  assumes "NUL \<notin> set file" "\<forall>c\<in>set file. of_char c \<le> (127 :: nat)"
  shows "NUL \<notin> set (assert_msg file line bc up)" "\<forall>c\<in>set (assert_msg file line bc up). of_char c \<le> (127 :: nat)"
proof -
  have d: "NUL \<notin> set (dec_str i)" for i using dec_str_chars [of NUL i] by auto
  have e: "\<forall>c\<in>set (dec_str i). of_char c \<le> (127 :: nat)" for i using dec_str_chars by fastforce
  show "NUL \<notin> set (assert_msg file line bc up)"
    using assms(1) d by (simp add: assert_msg_def json_tail_def)
  show "\<forall>c\<in>set (assert_msg file line bc up). of_char c \<le> (127 :: nat)"
    using assms(2) e by (simp add: assert_msg_def json_tail_def ball_Un)
qed

lemma assert_msg_nonempty: "take 127 (assert_msg file line bc up) \<noteq> []"
  by (simp add: assert_msg_def)

lemma assert_record:
  assumes r: "retained_ok r" and f: "NUL \<notin> set file" "\<forall>c\<in>set file. of_char c \<le> (127 :: nat)"
    and a: "assert_post_action crc32 file line bc up r = Some r'"
  shows "c_str (assert_err_str r') = take 127 (assert_msg file line bc up)"
    and "\<exists>r0. r' = retained_update crc32 r0"
proof -
  let ?m = "assert_msg file line bc up"
  have cp: "fst (safe_strlcpy ?m 128) = take 127 ?m @ [NUL]"
    using safe_strlcpy_spec [OF assert_msg_chars(1) [OF f], of 128] by simp
  have n: "NUL \<notin> set (take 127 ?m)" using assert_msg_chars(1) [OF f] by (auto dest: in_set_takeD)
  obtain b where b: "buf_put (assert_err_str r) (take 127 ?m @ [NUL]) = Some b"
    and r': "r' = retained_update crc32 (r\<lparr>assert_err_str := b\<rparr>)"
    using a by (auto simp: assert_post_action_def Let_def cp split: if_splits option.splits)
  from b have "\<exists>x. b = take 127 ?m @ NUL # x" by (auto simp: buf_put_def split: if_splits)
  then have "c_str b = take 127 ?m" using c_str_append [OF n] by auto
  then show "c_str (assert_err_str r') = take 127 ?m" by (simp add: r' retained_update_def)
  show "\<exists>r0. r' = retained_update crc32 r0" using r' by blast
qed

lemma update_checked: "crc_ok crc32 \<Longrightarrow> crc32 (retained_checked (retained_update crc32 r)) = CRC_RESIDUE"
  using retained_update_valid [of crc32 r] by (simp add: retained_validate_def Let_def)

text \<open>
  C21: an assertion that fails is found again after the restart: the retained memory is valid, \<open>main\<close> saves
  the record to the file, and the reader of the file gets the first 127 characters of the message.
\<close>

theorem assertion_reaches_reader:
  assumes ok: "fs_ok A files" and rel: "reliable A files" and crc: "crc_ok crc32" and r: "retained_ok r"
    and f: "NUL \<notin> set file" "\<forall>c\<in>set file. of_char c \<le> (127 :: nat)"
    and a: "assert_post_action crc32 file line bc up r = Some r'"
  shows "\<exists>n' f' rc f2. main_start A crc32 (r', n, f0) = (r', n', f')
    \<and> assert_json_read A 256 f' = Some (rc, take 127 (assert_msg file line bc up), f2)"
proof -
  let ?t = "take 127 (assert_msg file line bc up)"
  from assert_record(2) [OF r f a] have "crc32 (retained_checked r') = CRC_RESIDUE"
    using update_checked [OF crc] by auto
  from main_start_valid [of crc32 r' A n f0, OF this] obtain n' f1 where m:
    "main_start A crc32 (r', n, f0) = (r', n', retained_ram_to_files_save A r' f1)" by blast
  have t: "NUL \<notin> set ?t" "\<forall>c\<in>set ?t. of_char c \<le> (127 :: nat)"
    using assert_msg_chars [OF f] by (auto dest: in_set_takeD)
  have "files (retained_ram_to_files_save A r' f1) (storage_path ''assert.json'') = Some (?t @ [NUL])"
    using files_saved(1) [OF ok rel, of r' f1] assert_record(1) [OF r f a] assert_msg_nonempty by simp
  moreover have "length ?t < 256" by simp
  ultimately obtain f2 where "record_json_read A ''assert.json'' default_assert_string 256
      (retained_ram_to_files_save A r' f1) = Some (int (length ?t) + 1, ?t, f2)"
    using read_record [of A files "retained_ram_to_files_save A r' f1" "''assert.json''" ?t, OF ok rel _ t
        assert_msg_nonempty] by blast
  then show ?thesis unfolding assert_json_read_def using m by blast
qed

lemma zero_ok: "retained_ok retained_zero"
  by (simp add: retained_ok_def retained_zero_def)

lemma assert_runs:
  assumes "retained_ok r" "NUL \<notin> set (assert_msg file line bc up)" "length (assert_msg file line bc up) < 256"
  shows "\<exists>r'. assert_post_action crc32 file line bc up r = Some r'"
proof -
  have "fst (safe_strlcpy (assert_msg file line bc up) 128) = take 127 (assert_msg file line bc up) @ [NUL]"
    using safe_strlcpy_spec [OF assms(2), of 128] by simp
  then show ?thesis using assms by (simp add: assert_post_action_def Let_def buf_put_def retained_ok_def)
qed

lemma sample_assert: "\<exists>r'. assert_post_action sample_crc ''main.c'' 42 3 100 retained_zero = Some r'"
proof (rule assert_runs [OF zero_ok])
  show "NUL \<notin> set (assert_msg ''main.c'' 42 3 100)" by (rule assert_msg_chars(1)) simp_all
  have "length (dec_str 42) \<le> 11" "length (dec_str 3) \<le> 11" "length (dec_str 100) \<le> 11"
    by (rule dec_str_length; simp)+
  moreover have "s32 42 = 42" by (simp add: s32_def)
  ultimately show "length (assert_msg ''main.c'' 42 3 100) < 256"
    by (simp add: assert_msg_def json_tail_def)
qed

theorem assertion_reaches_reader_witness:
  "\<exists>r' n' f' rc f2. main_start ram_fs sample_crc (r', 0, Map.empty) = (r', n', f')
    \<and> assert_json_read ram_fs 256 f' = Some (rc, take 127 (assert_msg ''main.c'' 42 3 100), f2)"
proof -
  obtain r' where a: "assert_post_action sample_crc ''main.c'' 42 3 100 retained_zero = Some r'"
    using sample_assert by blast
  have "NUL \<notin> set ''main.c''" "\<forall>c\<in>set ''main.c''. of_char c \<le> (127 :: nat)" by simp_all
  from assertion_reaches_reader [OF ram_fs_ok ram_fs_reliable sample_crc_ok zero_ok this a]
  show ?thesis by blast
qed

definition starts :: "'f fs_api \<Rightarrow> (string \<Rightarrow> int) \<Rightarrow> 'f list \<Rightarrow> retained_data \<times> int \<times> 'f \<Rightarrow> retained_data \<times> int \<times> 'f" where
  "starts A crc32 gs s = fold (\<lambda>g (r, n, _). main_start A crc32 (r, n, g)) gs s"

text \<open>
  Further: the record is never cleared: after one assertion every later start, whatever the file system holds
  then, writes the same record again, so that an old assertion looks like the cause of the latest restart.
\<close>

theorem record_never_cleared:
  assumes ok: "fs_ok A files" and rel: "reliable A files" and crc: "crc_ok crc32" and r: "retained_ok r"
    and f: "NUL \<notin> set file" "\<forall>c\<in>set file. of_char c \<le> (127 :: nat)"
    and a: "assert_post_action crc32 file line bc up r = Some r'" and gs: "gs \<noteq> []"
  shows "\<exists>n' f'. starts A crc32 gs (r', n, f0) = (r', n', f')
    \<and> files f' (storage_path ''assert.json'') = Some (take 127 (assert_msg file line bc up) @ [NUL])"
  using gs
proof (induction gs arbitrary: n f0)
  case (Cons g gs)
  from assert_record(2) [OF r f a] have "crc32 (retained_checked r') = CRC_RESIDUE"
    using update_checked [OF crc] by auto
  from main_start_valid [of crc32 r' A n g, OF this] obtain n' f1 where m:
    "main_start A crc32 (r', n, g) = (r', n', retained_ram_to_files_save A r' f1)" by blast
  show ?case
  proof (cases "gs = []")
    case True
    then show ?thesis
      using m files_saved(1) [OF ok rel, of r' f1] assert_record(1) [OF r f a] assert_msg_nonempty
      by (simp add: starts_def)
  next
    case False
    then show ?thesis using Cons.IH [OF False] m by (simp add: starts_def)
  qed
qed simp

theorem record_never_cleared_witness:
  "\<exists>r' n' f'. starts ram_fs sample_crc [Map.empty, Map.empty] (r', 0, Map.empty) = (r', n', f')
    \<and> f' (storage_path ''assert.json'') = Some (take 127 (assert_msg ''main.c'' 42 3 100) @ [NUL])"
proof -
  obtain r' where a: "assert_post_action sample_crc ''main.c'' 42 3 100 retained_zero = Some r'"
    using sample_assert by blast
  have "NUL \<notin> set ''main.c''" "\<forall>c\<in>set ''main.c''. of_char c \<le> (127 :: nat)" by simp_all
  from record_never_cleared [OF ram_fs_ok ram_fs_reliable sample_crc_ok zero_ok this a,
      of "[Map.empty, Map.empty]"]
  show ?thesis by blast
qed

text \<open>
  C26: after a fatal error the retained record is what the never-written local buffer happened to hold: the
  reason, the boot count and the uptime are lost, for every reason the program knows. Where that buffer
  starts with a zero byte there is no record at all and nothing is saved.
\<close>

theorem fatal_record_lost:
  assumes r: "retained_ok r" and up: "- (2 ^ 31) \<le> bc" "bc < 2 ^ 31" "0 \<le> up" "up < 2 ^ 31"
    and reason: "reason < 5"
  shows "\<exists>r'. k_sys_fatal_error_handler crc32 junk reason bc up r = Some r'
    \<and> c_str (fatal_err_str r') = take 127 (c_str junk)"
proof -
  let ?m = "fatal_json (k_fatal_error_reason_strs ! reason) bc up"
  have n: "NUL \<notin> set (take 127 (c_str junk))" using c_str_no_nul [of junk] by (auto dest: in_set_takeD)
  have cp: "fst (safe_strlcpy (c_str junk) 128) = take 127 (c_str junk) @ [NUL]"
    using safe_strlcpy_spec [OF c_str_no_nul, of 128 junk] by simp
  consider "reason = 0" | "reason = 1" | "reason = 2" | "reason = 3" | "reason = 4" using reason by linarith
  then have "length (k_fatal_error_reason_strs ! reason) \<le> 20"
    by cases (simp_all add: k_fatal_error_reason_strs_def)
  then have l: "length (?m @ [NUL]) \<le> 128"
    using dec_str_length [of bc] dec_str_length [of up] up by (simp add: fatal_json_def json_tail_def)
  then obtain b1 where b1: "buf_put (fatal_err_str r) (?m @ [NUL]) = Some b1" "length b1 = 128"
    using r by (simp add: buf_put_def retained_ok_def)
  then obtain x where b2: "buf_put b1 (fst (safe_strlcpy (c_str junk) 128)) = Some (take 127 (c_str junk) @ NUL # x)"
    by (simp add: buf_put_def cp)
  then show ?thesis
    using b1 reason c_str_append [OF n]
    by (simp add: k_sys_fatal_error_handler_def k_fatal_error_reason_strs_def retained_update_def)
qed

theorem fatal_record_lost_witness:
  "\<exists>r'. k_sys_fatal_error_handler sample_crc (NUL # ''rest'') 2 5 3600 retained_zero = Some r'
    \<and> c_str (fatal_err_str r') = []"
  using fatal_record_lost [OF zero_ok, of 5 3600 2 sample_crc "NUL # ''rest''"] by (simp add: c_str_def)

text \<open>
  Further: the text of an assertion overruns its 256 bytes exactly when the path of the source file is longer
  than 212 characters less the digits of the three numbers.
\<close>

theorem assert_overrun_iff:
  assumes r: "retained_ok r" and f: "NUL \<notin> set file" "\<forall>c\<in>set file. of_char c \<le> (127 :: nat)"
  shows "assert_post_action crc32 file line bc up r = None \<longleftrightarrow>
    255 < 43 + length file + length (dec_str (s32 line)) + length (dec_str bc) + length (dec_str up)"
proof -
  have l: "length (assert_msg file line bc up)
      = 43 + length file + length (dec_str (s32 line)) + length (dec_str bc) + length (dec_str up)"
    by (simp add: assert_msg_def json_tail_def)
  show ?thesis
    using assert_runs [OF r assert_msg_chars(1) [OF f], of line bc up crc32] l
    by (auto simp: assert_post_action_def Let_def)
qed

theorem assert_overrun_iff_witness:
  "assert_post_action sample_crc (replicate 250 CHR ''a'') 1 1 1 retained_zero = None"
proof -
  have "NUL \<notin> set (replicate 250 CHR ''a'')" "\<forall>c\<in>set (replicate 250 CHR ''a''). of_char c \<le> (127 :: nat)"
    by simp_all
  from assert_overrun_iff [OF zero_ok this] show ?thesis by simp
qed

theorem retained_ram_init_valid_witness:
  "retained_ram_init sample_crc (retained_update sample_crc (retained_zero\<lparr>step_count_0 := 5\<rparr>))
     = (True, retained_update sample_crc (retained_zero\<lparr>step_count_0 := 5\<rparr>))"
proof -
  let ?r = "retained_update sample_crc (retained_zero\<lparr>step_count_0 := 5\<rparr>)"
  obtain valid r1 where i: "retained_ram_init sample_crc ?r = (valid, r1)" by fastforce
  moreover have "valid"
    using i retained_update_valid [OF sample_crc_ok] by (auto simp: retained_ram_init_def)
  ultimately show ?thesis using retained_ram_init_valid [OF sample_crc_ok i] by simp
qed

end
