(* ===== verification/AppMain.thy ===== *)
theory AppMain
  imports Cfg CrashRecord HeadApp
begin

text \<open>
  The start-up of the application core, \<open>main\<close> of src/main.c: boot counter and crash records, configuration,
  threads, confirmation of the image, and the link to the network core. Calls into the SDK and the start of
  the threads are a log with results from \<open>res\<close>; \<open>None\<close> is a store outside an array.
\<close>

section \<open>Which files the crash records touch\<close>

definition record_files :: "string set" where
  "record_files = storage_path ` {''boot_count'', ''fatal.json'', ''assert.json'', ''watchdog.json''}"

lemma other_file_open: "fs_ok A files \<Longrightarrow> q \<noteq> p \<Longrightarrow> files (snd (fs_open A p b f)) q = files f q"
  by (simp add: fs_ok_open)

lemma other_file_write: "fs_ok A files \<Longrightarrow> q \<noteq> p \<Longrightarrow> files (snd (fs_write A p pos bs f)) q = files f q"
  by (simp add: fs_ok_write)

lemma other_file_unlink: "fs_ok A files \<Longrightarrow> q \<noteq> p \<Longrightarrow> files (snd (fs_unlink A p f)) q = files f q"
  by (simp add: fs_ok_unlink)

lemmas other_file = other_file_open other_file_write other_file_unlink fs_ok_close

lemma other_file_counter:
  assumes "fs_ok A files" and "q \<noteq> storage_path name"
  shows "files (snd (snd (storage_counter_adjust A name i res f))) q = files f q"
  using assms
  by (simp add: storage_counter_adjust_def storage_manipulate_counter_def counter_put_def Let_def split_beta other_file)

lemma other_file_replace:
  assumes "fs_ok A files" and "q \<noteq> storage_path name"
  shows "files (snd (storage_write A name bs (snd (storage_remove A name f)))) q = files f q"
  using assms by (simp add: storage_write_def storage_remove_def Let_def split_beta other_file)

lemma other_file_save:
  assumes "fs_ok A files" and "q \<notin> record_files"
  shows "files (retained_ram_to_files_save A r f) q = files f q"
  using assms
  by (simp add: retained_ram_to_files_save_def fatal_error_to_file_def assert_string_to_file_def
      watchdog_error_to_file_def other_file_replace record_files_def Let_def split_beta other_file)

lemma other_file_start:
  assumes "fs_ok A files" and "q \<notin> record_files"
  shows "files (snd (snd (main_start A crc32 (r, bc, f)))) q = files f q"
  using assms other_file_counter [OF assms(1), of q "''boot_count''"]
  by (simp add: main_start_def boot_count_increment_def Let_def split_beta other_file_save)
    (auto simp: record_files_def)

section \<open>main\<close>

datatype main_call =
    App_event_manager_init
  | Manager_thread_start
  | Boot_write_img_confirmed nat
  | Ipc_device_ready
  | Ipc_open_instance
  | Ipc_register_endpoint
  | Bound_sem_take
  | Ipc_send_id esb_ipc_msg

record 'r app_main =
  am_retained :: retained_data
  am_boot_count :: int
  am_cfg :: cfg_t
  am_temp_offset :: 'r
  am_calls :: "main_call list"

definition main_call :: "main_call \<Rightarrow> 'r app_main \<Rightarrow> 'r app_main" where
  "main_call c s = s\<lparr>am_calls := am_calls s @ [c]\<rparr>"

text \<open>
  The link to the network core: a device that is not ready (answer 0) and a negative result end \<open>main\<close>; the
  host name, when there is one, is sent last.
\<close>

definition main_ipc :: "(nat \<Rightarrow> main_call \<Rightarrow> int) \<Rightarrow> string option \<Rightarrow> 'r app_main \<Rightarrow> 'r app_main" where
  "main_ipc res hostname s =
     (let ret = res (length (am_calls s)) Ipc_device_ready; s1 = main_call Ipc_device_ready s in
      if ret = 0 then s1
      else let ret = res (length (am_calls s1)) Ipc_open_instance; s2 = main_call Ipc_open_instance s1 in
      if ret < 0 then s2
      else let ret = res (length (am_calls s2)) Ipc_register_endpoint; s3 = main_call Ipc_register_endpoint s2 in
      if ret < 0 then s3
      else let s4 = main_call Bound_sem_take s3 in
      case hostname of None \<Rightarrow> s4 | Some h \<Rightarrow> main_call (Ipc_send_id (node_id_msg h)) s4)"

text \<open>The result of the event manager and of the confirmations is ignored.\<close>

definition app_main ::
  "'f fs_api \<Rightarrow> (string \<Rightarrow> int) \<Rightarrow> build_strings \<Rightarrow> string \<Rightarrow> json_parser \<Rightarrow> (string \<Rightarrow> 'r option) \<Rightarrow> 'r \<Rightarrow>
   (nat \<Rightarrow> main_call \<Rightarrow> int) \<Rightarrow> string option \<Rightarrow> retained_data \<times> int \<times> 'f \<Rightarrow> cfg_t \<Rightarrow> ('r app_main \<times> 'f) option" where
  "app_main A crc32 K hn parse scan dflt res hostname st c =
     (case main_start A crc32 st of (r, bc, f) \<Rightarrow>
      case cfg_init A K hn parse scan dflt c f of
        None \<Rightarrow> None
      | Some (cf, t, f1) \<Rightarrow>
          (let s = \<lparr>am_retained = r, am_boot_count = bc, am_cfg = cf, am_temp_offset = t, am_calls = []\<rparr>;
               s1 = main_call (Boot_write_img_confirmed 1) (main_call (Boot_write_img_confirmed 0)
                      (main_call Manager_thread_start (main_call App_event_manager_init s)))
           in Some (main_ipc res hostname s1, f1)))"

section \<open>Properties\<close>

lemma main_ipc_keeps [simp]:
  "am_cfg (main_ipc res h s) = am_cfg s" "am_retained (main_ipc res h s) = am_retained s"
  "am_boot_count (main_ipc res h s) = am_boot_count s" "am_temp_offset (main_ipc res h s) = am_temp_offset s"
  by (simp_all add: main_ipc_def main_call_def Let_def split: option.split)

definition link_calls :: "string option \<Rightarrow> main_call list" where
  "link_calls h = [Ipc_device_ready, Ipc_open_instance, Ipc_register_endpoint, Bound_sem_take]
     @ (case h of None \<Rightarrow> [] | Some n \<Rightarrow> [Ipc_send_id (node_id_msg n)])"

lemma main_ipc_calls:
  "\<exists>ls. am_calls (main_ipc res h s) = am_calls s @ ls \<and> prefix ls (link_calls h) \<and> ls \<noteq> []"
  by (auto simp: main_ipc_def main_call_def link_calls_def Let_def split: option.splits)

lemma pointer_not_record: "cfg_path 254 HELIOGEN_CONFIG_FILE_CONFIG \<notin> record_files"
  by (simp add: record_files_def cfg_path_def storage_path_def HELIOGEN_CONFIG_FILE_CONFIG_def)

definition config_file :: "(string \<Rightarrow> string option) \<Rightarrow> string" where
  "config_file fl =
     cfg_path 255 (case pointer_file fl of None \<Rightarrow> HELIOGEN_CONFIG_FILE_DEFAULT | Some c \<Rightarrow> c_str c)"

lemma cfg_text_config_file: "cfg_text fl = fl (config_file fl)"
  by (simp add: cfg_text_def config_file_def)

lemma start_keeps_config:
  assumes "fs_ok A files" and "config_file (files f) \<notin> record_files"
    and "main_start A crc32 (r, bc, f) = (r1, bc1, g)"
  shows "pointer_file (files g) = pointer_file (files f)" "cfg_text (files g) = cfg_text (files f)"
proof -
  show p: "pointer_file (files g) = pointer_file (files f)"
    using other_file_start [OF assms(1) pointer_not_record, of crc32 r bc f] assms(3) by (simp add: pointer_file_def)
  then have "config_file (files g) = config_file (files f)" by (simp add: config_file_def)
  moreover have "files g (config_file (files f)) = files f (config_file (files f))"
    using other_file_start [OF assms(1,2), of crc32 r bc f] assms(3) by simp
  ultimately show "cfg_text (files g) = cfg_text (files f)" by (simp add: cfg_text_config_file)
qed



end
