(* ===== verification/HttpUpdate.thy ===== *)
theory HttpUpdate
  imports Utils
begin

text \<open>
  src/services/http\_update/http\_update.c: over-the-air firmware updates. A command event starts or
  stops a download; the download library reports its progress through \<open>fota_dl_handler\<close>; a finished
  download of an application image reboots into the bootloader, one of a network-core image is copied
  from the secondary slot to shared memory and handed to the network core by
  \<open>apply_netcore_update_from_mcuboot_secondary\<close>.

  The flash, download, reboot and storage interfaces of the SDK are represented by the log of the
  calls made and by the results an environment returns; \<open>sys_reboot\<close> does not return, which is the
  value None of the functions that may call it.
\<close>

section \<open>State and environment\<close>

text \<open>The fields of the image header the code uses.\<close>

record image_header =
  magic :: nat
  hdr_size :: nat
  img_size :: nat

datatype http_call =
    Flash_area_open
  | Flash_read_header
  | Flash_area_read nat nat
  | Pcd_network_core_update nat
  | Flash_area_erase
  | Flash_area_close
  | Sys_reboot_cold
  | Sys_reboot_warm
  | Status_publish int string int
  | Fota_download_init
  | Fota_download_start string string
  | Fota_download_cancel
  | Storage_counter_get
  | Storage_counter_set int

text \<open>The events of the download library (\<open>Evt_error cause progress\<close>).\<close>

datatype fota_evt =
    Evt_error int int
  | Evt_finished int
  | Evt_progress int
  | Evt_erase_pending
  | Evt_erase_done
  | Evt_cancelled int
  | Evt_other

text \<open>The trace: events received and calls made, with their results.\<close>

datatype http_evt = Rx fota_evt | Did http_call int

text \<open>
  The results of the calls by position in the trace, the header a read of it delivers, and the size of
  the shared memory (\<open>NETCORE_SHARED_BUF_SIZE\<close>, from the generated partition map).
\<close>

record http_env =
  e_res :: "nat \<Rightarrow> http_call \<Rightarrow> int"
  e_hdr :: "nat \<Rightarrow> image_header"
  e_buf_size :: nat

text \<open>\<open>dl_progress\<close> is the static local \<open>progress\<close> of \<open>fota_dl_handler\<close>, which hides the global.\<close>

record http =
  ota_target :: int
  download_in_progress :: bool
  session_id :: int
  progress :: int
  install_mode :: string
  status_str :: string
  dl_progress :: int
  trace :: "http_evt list"

definition http_boot :: http where
  "http_boot = \<lparr>ota_target = - 1, download_in_progress = False, session_id = 0, progress = 0,
     install_mode = ''now'', status_str = ''idle'', dl_progress = 0, trace = []\<rparr>"

definition http_do :: "http_env \<Rightarrow> http_call \<Rightarrow> http \<Rightarrow> int \<times> http" where
  "http_do E c s =
     (let r = e_res E (length (trace s)) c in (r, s\<lparr>trace := trace s @ [Did c r]\<rparr>))"

section \<open>Network-core images\<close>

text \<open>A file name may be NULL.\<close>

definition ota_target_from_file :: "string option \<Rightarrow> int" where
  "ota_target_from_file file =
     (case file of
        None \<Rightarrow> - 1
      | Some f \<Rightarrow>
          if strncmp_eq f ''app_'' 4 then 0
          else if strncmp_eq f ''net_'' 4 then 1
          else - 1)"

text \<open>The part after the label \<open>out_close\<close>, with \<open>flash_area_erase_fail_safe\<close> set or not.\<close>

definition out_close :: "http_env \<Rightarrow> bool \<Rightarrow> int \<Rightarrow> http \<Rightarrow> int \<times> http" where
  "out_close E fail_safe ret s =
     (if fail_safe then
        let (r, s1) = http_do E Flash_area_erase s
        in if r \<noteq> 0 then (r, snd (http_do E Flash_area_close s1))
           else (1, snd (http_do E Flash_area_close s1))
      else (ret, snd (http_do E Flash_area_close s)))"

definition apply_netcore_update_from_mcuboot_secondary ::
  "http_env \<Rightarrow> http \<Rightarrow> int option \<times> http" where
  "apply_netcore_update_from_mcuboot_secondary E s0 =
     (let done = (\<lambda>(r, s). (Some r, s));
          (ret, s) = http_do E Flash_area_open s0
      in if ret \<noteq> 0 then (Some ret, s)
         else
           let hdr = e_hdr E (length (trace s)); (ret, s) = http_do E Flash_read_header s
           in if ret \<noteq> 0 then done (out_close E True ret s)
              else if hdr_size hdr = 0 \<or> img_size hdr = 0 then done (out_close E True (- EINVAL) s)
              else if img_size hdr > e_buf_size E then done (out_close E True (- ENOMEM) s)
              else
                let (ret, s) = http_do E (Flash_area_read (hdr_size hdr) (img_size hdr)) s
                in if ret \<noteq> 0 then done (out_close E True ret s)
                   else
                     let (ret, s) = http_do E (Pcd_network_core_update (img_size hdr)) s
                     in if ret \<noteq> 0 then done (out_close E True ret s)
                        else
                          let (ret, s) = http_do E Flash_area_erase s
                          in if ret \<noteq> 0 then done (out_close E False ret s)
                             else (None, snd (http_do E Sys_reboot_cold s)))"

section \<open>Downloads\<close>

definition http_update_status_send :: "http_env \<Rightarrow> http \<Rightarrow> http" where
  "http_update_status_send E s =
     snd (http_do E (Status_publish (session_id s) (status_str s) (progress s)) s)"

definition http_update_stop :: "http_env \<Rightarrow> http \<Rightarrow> http" where
  "http_update_stop E s = (snd (http_do E Fota_download_cancel s))\<lparr>download_in_progress := False\<rparr>"

definition http_update_install :: "http_env \<Rightarrow> http \<Rightarrow> http" where
  "http_update_install E s =
     (let s1 = http_update_status_send E (s\<lparr>status_str := ''installing'', progress := 0\<rparr>)
      in snd (http_do E Sys_reboot_warm s1))"

text \<open>False: rebooted. The state after it is kept for the trace.\<close>

definition http_update_done :: "http_env \<Rightarrow> http \<Rightarrow> bool \<times> http" where
  "http_update_done E s =
     (let s1 = s\<lparr>download_in_progress := False\<rparr>
      in if strcmp_eq (install_mode s1) ''now''
         then (False, http_update_install E s1)
         else (True, s1))"

text \<open>Each branch of the handler; the result tells whether the program goes on.\<close>

definition on_finished :: "http_env \<Rightarrow> int \<Rightarrow> http \<Rightarrow> bool \<times> http" where
  "on_finished E p s =
     (let s1 = s\<lparr>status_str := ''complete'', dl_progress := p\<rparr>
      in if ota_target s1 = 0 then http_update_done E (http_update_status_send E s1)
         else if ota_target s1 = 1 then
           let (err, s2) = apply_netcore_update_from_mcuboot_secondary E s1
           in case err of
                None \<Rightarrow> (False, s2)
              | Some e \<Rightarrow>
                  (True, http_update_status_send E
                     (s2\<lparr>status_str := (if e \<noteq> 0 then ''netcore apply failed'' else ''netcore updated'')\<rparr>))
         else (True, http_update_status_send E (s1\<lparr>status_str := ''unknown OTA target''\<rparr>)))"

definition on_progress :: "http_env \<Rightarrow> int \<Rightarrow> http \<Rightarrow> http" where
  "on_progress E p s =
     (if p \<noteq> dl_progress s then
        let s1 = s\<lparr>dl_progress := p\<rparr>
        in if p mod 10 = 0
           then http_update_status_send E
                  (s1\<lparr>status_str := ''downloading '' @ dec_str p @ ''%'', dl_progress := p\<rparr>)
           else s1
      else s)"

definition fota_dl_handler :: "http_env \<Rightarrow> fota_evt \<Rightarrow> http \<Rightarrow> bool \<times> http" where
  "fota_dl_handler E evt s =
     (case evt of
        Evt_error cause p \<Rightarrow>
          (True, http_update_stop E (http_update_status_send E
                   (s\<lparr>status_str := ''error: '' @ dec_str cause, dl_progress := p\<rparr>)))
      | Evt_finished p \<Rightarrow> on_finished E p s
      | Evt_progress p \<Rightarrow> (True, on_progress E p s)
      | Evt_erase_pending \<Rightarrow> (True, s)
      | Evt_erase_done \<Rightarrow> (True, s)
      | Evt_cancelled p \<Rightarrow>
          (True, (http_update_status_send E
                    (s\<lparr>status_str := ''cancelled '' @ dec_str p @ ''%'', dl_progress := p\<rparr>))
                   \<lparr>download_in_progress := False\<rparr>)
      | Evt_other \<Rightarrow> (True, s))"

text \<open>
  The parameter \<open>session_id\<close> hides the global of that name, so the assignment \<open>session_id = session_id\<close>
  has no effect; \<open>retries\<close> is not used.
\<close>

definition http_update_start :: "http_env \<Rightarrow> string \<Rightarrow> string \<Rightarrow> string \<Rightarrow> http \<Rightarrow> http" where
  "http_update_start E host filename install s0 =
     (let s = (if download_in_progress s0 then http_update_stop E s0 else s0);
          (err, s1) = http_do E Fota_download_init s
      in if err \<noteq> 0 then
           http_update_status_send E (s1\<lparr>status_str := ''init failed '' @ dec_str err, progress := 0\<rparr>)
         else
           let (err, s2) = http_do E (Fota_download_start host filename) s1
           in if err \<noteq> 0 then
                http_update_stop E (http_update_status_send E
                  (s2\<lparr>status_str := ''start failed '' @ dec_str err, progress := 0\<rparr>))
              else s2\<lparr>install_mode := takeWhile (\<lambda>c. c \<noteq> NUL) (fst (safe_strlcpy install 32)),
                      download_in_progress := True\<rparr>)"

text \<open>The command event.\<close>

definition http_update_event_handler ::
  "http_env \<Rightarrow> int \<Rightarrow> string \<Rightarrow> string \<Rightarrow> string \<Rightarrow> http \<Rightarrow> http" where
  "http_update_event_handler E sid uri file install s =
     (if strcmp_eq install ''stop'' then http_update_stop E s
      else
        let s1 = s\<lparr>ota_target := ota_target_from_file (Some file)\<rparr>;
            s2 = snd (http_do E Storage_counter_get s1);
            s3 = (if download_in_progress s2 then http_update_stop E s2 else s2);
            s4 = http_update_start E uri file install s3
        in snd (http_do E (Storage_counter_set sid) s4))"

datatype http_input = Cmd int string string string | Fota fota_evt

text \<open>One input; after a reboot nothing happens any more.\<close>

definition http_step :: "http_env \<Rightarrow> http_input \<Rightarrow> bool \<times> http \<Rightarrow> bool \<times> http" where
  "http_step E i bs =
     (if \<not> fst bs then bs
      else case i of
        Cmd sid uri file install \<Rightarrow> (True, http_update_event_handler E sid uri file install (snd bs))
      | Fota evt \<Rightarrow> fota_dl_handler E evt ((snd bs)\<lparr>trace := trace (snd bs) @ [Rx evt]\<rparr>))"

section \<open>Network-core update\<close>

lemmas http_call_defs = http_do_def out_close_def

definition netcore_trace :: "http_env \<Rightarrow> http \<Rightarrow> http_evt list" where
  "netcore_trace E s =
     drop (length (trace s)) (trace (snd (apply_netcore_update_from_mcuboot_secondary E s)))"

text \<open>The trace of a successful update.\<close>

definition netcore_success :: "image_header \<Rightarrow> int \<Rightarrow> http_evt list" where
  "netcore_success h r =
     [Did Flash_area_open 0, Did Flash_read_header 0, Did (Flash_area_read (hdr_size h) (img_size h)) 0,
      Did (Pcd_network_core_update (img_size h)) 0, Did Flash_area_erase 0, Did Sys_reboot_cold r]"

text \<open>Result and trace of each way through the function, by the results of the calls.\<close>

definition netcore_ways :: "http_env \<Rightarrow> nat \<Rightarrow> int option \<times> http_evt list" where
  "netcore_ways E n =
     (let h = e_hdr E (n + 1); R = (\<lambda>k c. e_res E (n + k) c);
          rd = Flash_area_read (hdr_size h) (img_size h); pcd = Pcd_network_core_update (img_size h);
          r0 = R 0 Flash_area_open; r1 = R 1 Flash_read_header; r2 = R 2 rd; r3 = R 3 pcd;
          r4 = R 4 Flash_area_erase;
          fs = (\<lambda>k. let r = R k Flash_area_erase
                    in (Some (if r \<noteq> 0 then r else 1),
                        [Did Flash_area_erase r, Did Flash_area_close (R (k + 1) Flash_area_close)]))
      in if r0 \<noteq> 0 then (Some r0, [Did Flash_area_open r0])
         else map_prod id (\<lambda>t. Did Flash_area_open 0 # Did Flash_read_header r1 # t)
           (if r1 \<noteq> 0 \<or> hdr_size h = 0 \<or> img_size h = 0 \<or> img_size h > e_buf_size E then fs 2
            else map_prod id (\<lambda>t. Did rd r2 # t)
              (if r2 \<noteq> 0 then fs 3
               else map_prod id (\<lambda>t. Did pcd r3 # t)
                 (if r3 \<noteq> 0 then fs 4
                  else map_prod id (\<lambda>t. Did Flash_area_erase r4 # t)
                    (if r4 \<noteq> 0 then (Some r4, [Did Flash_area_close (R 5 Flash_area_close)])
                     else (None, [Did Sys_reboot_cold (R 5 Sys_reboot_cold)]))))))"

lemma apply_netcore_ways:
  "(fst (apply_netcore_update_from_mcuboot_secondary E s), netcore_trace E s)
   = netcore_ways E (length (trace s))"
  unfolding netcore_trace_def apply_netcore_update_from_mcuboot_secondary_def netcore_ways_def
  by (simp add: http_call_defs Let_def numeral_eq_Suc)

text \<open>
  C10: installing a network-core image. The function reboots exactly after all of: the slot opened, its
  header and payload read, the network core updated and the slot erased, in this order; otherwise it
  returns an error, never 0. It reads a payload only if its size is positive and fits the shared
  memory, updates the network core only with a payload just read without error, and once the slot is
  open always tries to erase it, so the boot loader cannot swap a network-core image into the
  application slot unless an erase fails.
\<close>

theorem netcore_update_safe:
  fixes E s
  defines "t \<equiv> netcore_trace E s"
    and "r \<equiv> fst (apply_netcore_update_from_mcuboot_secondary E s)"
    and "h \<equiv> e_hdr E (length (trace s) + 1)"
  shows "r \<noteq> Some 0
    \<and> (r = None \<longleftrightarrow> (\<exists>x. t = netcore_success h x))
    \<and> (\<forall>off len x. Did (Flash_area_read off len) x \<in> set t \<longrightarrow> 0 < len \<and> len \<le> e_buf_size E)
    \<and> (\<forall>n x. Did (Pcd_network_core_update n) x \<in> set t \<longrightarrow> Did (Flash_area_read (hdr_size h) n) 0 \<in> set t)
    \<and> (Did Flash_area_open 0 \<in> set t \<longrightarrow> (\<exists>x. Did Flash_area_erase x \<in> set t))"
proof -
  have rt: "(r, t) = netcore_ways E (length (trace s))"
    using apply_netcore_ways by (simp add: r_def t_def)
  have h: "e_hdr E (length (trace s) + 1) = h" by (simp add: h_def)
  show ?thesis
    using rt unfolding netcore_ways_def Let_def h netcore_success_def
    by (simp split: if_splits)
qed

theorem netcore_update_safe_witness:
  "let E = \<lparr>e_res = \<lambda>n c. 0, e_hdr = \<lambda>n. \<lparr>magic = 0, hdr_size = 32, img_size = 4096\<rparr>, e_buf_size = 65536\<rparr>
   in fst (apply_netcore_update_from_mcuboot_secondary E http_boot) \<noteq> Some 0
      \<and> netcore_trace E http_boot = netcore_success \<lparr>magic = 0, hdr_size = 32, img_size = 4096\<rparr> 0"
proof -
  let ?E = "\<lparr>e_res = \<lambda>n c. 0, e_hdr = \<lambda>n. \<lparr>magic = 0, hdr_size = 32, img_size = 4096\<rparr>, e_buf_size = 65536\<rparr>"
  have "netcore_trace ?E http_boot = netcore_success \<lparr>magic = 0, hdr_size = 32, img_size = 4096\<rparr> 0"
    by (simp add: netcore_trace_def apply_netcore_update_from_mcuboot_secondary_def http_call_defs Let_def
        netcore_success_def http_boot_def)
  then show ?thesis using netcore_update_safe [of ?E http_boot] unfolding Let_def by blast
qed

section \<open>One download at a time\<close>

text \<open>
  What the trace says about the library: a start that returned 0 begins a download; it ends when it is
  cancelled or when the library reports its end.
\<close>

fun dl_after :: "http_evt \<Rightarrow> bool \<Rightarrow> bool" where
  "dl_after (Did (Fota_download_start h f) r) a = (a \<or> r = 0)"
| "dl_after (Did Fota_download_cancel r) a = False"
| "dl_after (Rx (Evt_finished p)) a = False"
| "dl_after (Rx (Evt_cancelled p)) a = False"
| "dl_after _ a = a"

fun is_start :: "http_evt \<Rightarrow> bool" where
  "is_start (Did Fota_download_init r) = True"
| "is_start (Did (Fota_download_start h f) r) = True"
| "is_start _ = False"

fun starts_ok :: "bool \<Rightarrow> http_evt list \<Rightarrow> bool" where
  "starts_ok a [] = True"
| "starts_ok a (e # es) = ((is_start e \<longrightarrow> \<not> a) \<and> starts_ok (dl_after e a) es)"

definition dl_active :: "http_evt list \<Rightarrow> bool" where
  "dl_active es = fold dl_after es False"

lemma starts_ok_snoc: "starts_ok a (es @ [e]) = (starts_ok a es \<and> (is_start e \<longrightarrow> \<not> fold dl_after es a))"
  by (induction es arbitrary: a) auto

lemma dl_active_snoc: "dl_active (es @ [e]) = dl_after e (dl_active es)"
  by (simp add: dl_active_def)

definition dl_inv :: "http \<Rightarrow> bool" where
  "dl_inv s \<longleftrightarrow> starts_ok False (trace s) \<and> (dl_active (trace s) \<longrightarrow> download_in_progress s)"

text \<open>Calls and events that neither start a download nor concern one.\<close>

definition neutral :: "http_call \<Rightarrow> bool" where
  "neutral c \<longleftrightarrow> (\<forall>r a. dl_after (Did c r) a = a \<and> \<not> is_start (Did c r))"

lemma neutral_calls [simp]:
  "neutral Flash_area_open" "neutral Flash_read_header" "neutral (Flash_area_read m n)"
  "neutral (Pcd_network_core_update n)" "neutral Flash_area_erase" "neutral Flash_area_close"
  "neutral Sys_reboot_cold" "neutral Sys_reboot_warm" "neutral (Status_publish i st p)"
  "neutral Storage_counter_get" "neutral (Storage_counter_set i)"
  by (simp_all add: neutral_def)

lemma dl_inv_do: "neutral c \<Longrightarrow> dl_inv (snd (http_do E c s)) = dl_inv s"
  by (simp add: dl_inv_def http_do_def Let_def starts_ok_snoc dl_active_snoc neutral_def
      flip: dl_active_def)

lemma dl_inv_fields [simp]:
  "dl_inv (s\<lparr>status_str := a\<rparr>) = dl_inv s" "dl_inv (s\<lparr>dl_progress := p\<rparr>) = dl_inv s"
  "dl_inv (s\<lparr>progress := p\<rparr>) = dl_inv s" "dl_inv (s\<lparr>ota_target := t\<rparr>) = dl_inv s"
  "dl_inv (s\<lparr>install_mode := m\<rparr>) = dl_inv s"
  by (simp_all add: dl_inv_def)

lemma active_do: "neutral c \<Longrightarrow> dl_active (trace (snd (http_do E c s))) = dl_active (trace s)"
  by (simp add: http_do_def Let_def dl_active_snoc neutral_def)

lemma http_do_keeps [simp]:
  "download_in_progress (snd (http_do E c s)) = download_in_progress s"
  "session_id (snd (http_do E c s)) = session_id s" "progress (snd (http_do E c s)) = progress s"
  "status_str (snd (http_do E c s)) = status_str s" "ota_target (snd (http_do E c s)) = ota_target s"
  "install_mode (snd (http_do E c s)) = install_mode s"
  by (simp_all add: http_do_def Let_def)

text \<open>No library download runs: what the functions that clear the flag rely on.\<close>

definition dl_idle :: "http \<Rightarrow> bool" where
  "dl_idle s \<longleftrightarrow> starts_ok False (trace s) \<and> \<not> dl_active (trace s)"

lemma dl_idle_inv: "dl_idle s \<Longrightarrow> dl_inv s"
  by (simp add: dl_idle_def dl_inv_def)

lemma dl_inv_not_in_progress: "dl_inv s \<Longrightarrow> \<not> download_in_progress s \<Longrightarrow> dl_idle s"
  by (auto simp: dl_idle_def dl_inv_def)

lemma dl_idle_fields [simp]:
  "dl_idle (s\<lparr>status_str := a\<rparr>) = dl_idle s" "dl_idle (s\<lparr>dl_progress := p\<rparr>) = dl_idle s"
  "dl_idle (s\<lparr>progress := p\<rparr>) = dl_idle s" "dl_idle (s\<lparr>ota_target := t\<rparr>) = dl_idle s"
  "dl_idle (s\<lparr>install_mode := m\<rparr>) = dl_idle s" "dl_idle (s\<lparr>download_in_progress := b\<rparr>) = dl_idle s"
  by (simp_all add: dl_idle_def)

lemma dl_idle_do: "neutral c \<Longrightarrow> dl_idle (snd (http_do E c s)) = dl_idle s"
  by (simp add: dl_idle_def http_do_def Let_def starts_ok_snoc dl_active_snoc neutral_def flip: dl_active_def)

lemma dl_status_send [simp]:
  "dl_inv (http_update_status_send E s) = dl_inv s" "dl_idle (http_update_status_send E s) = dl_idle s"
  "download_in_progress (http_update_status_send E s) = download_in_progress s"
  by (simp_all add: http_update_status_send_def dl_inv_do dl_idle_do)

lemma dl_stop: "dl_inv s \<Longrightarrow> dl_idle (http_update_stop E s)"
  by (simp add: http_update_stop_def dl_idle_def dl_inv_def http_do_def Let_def starts_ok_snoc dl_active_snoc)

lemma stop_clears [simp]: "\<not> download_in_progress (http_update_stop E s)"
  by (simp add: http_update_stop_def)

lemma dl_idle_out_close: "dl_idle s \<Longrightarrow> dl_idle (snd (out_close E b r s))"
  by (simp add: out_close_def Let_def split_def dl_idle_do)

lemma dl_idle_netcore: "dl_idle s \<Longrightarrow> dl_idle (snd (apply_netcore_update_from_mcuboot_secondary E s))"
  by (simp add: apply_netcore_update_from_mcuboot_secondary_def Let_def split_def dl_idle_do dl_idle_out_close)

lemma dl_inv_finished: "dl_idle s \<Longrightarrow> dl_inv (snd (on_finished E p s))"
  using dl_idle_netcore [of "s\<lparr>status_str := ''complete'', dl_progress := p\<rparr>" E]
  by (intro dl_idle_inv) (auto simp: on_finished_def http_update_done_def http_update_install_def Let_def dl_idle_do
      split: prod.splits option.splits)

lemma dl_inv_flag: "dl_idle s \<Longrightarrow> dl_inv (s\<lparr>download_in_progress := b\<rparr>)"
  by (simp add: dl_idle_inv)

lemma dl_inv_stop: "dl_inv s \<Longrightarrow> dl_inv (http_update_stop E s)"
  by (rule dl_idle_inv [OF dl_stop])

lemma dl_inv_rx: "dl_inv s \<Longrightarrow> dl_inv (s\<lparr>trace := trace s @ [Rx e]\<rparr>)"
  by (cases e) (auto simp: dl_inv_def starts_ok_snoc dl_active_snoc)

lemma dl_idle_rx_end:
  "dl_inv s \<Longrightarrow> dl_idle (s\<lparr>trace := trace s @ [Rx (Evt_finished p)]\<rparr>)"
  "dl_inv s \<Longrightarrow> dl_idle (s\<lparr>trace := trace s @ [Rx (Evt_cancelled p)]\<rparr>)"
  by (auto simp: dl_idle_def dl_inv_def starts_ok_snoc dl_active_snoc)

lemma dl_inv_handler:
  assumes "dl_inv s"
  shows "dl_inv (snd (fota_dl_handler E e (s\<lparr>trace := trace s @ [Rx e]\<rparr>)))"
  using dl_inv_rx [OF assms, of e] dl_idle_rx_end [OF assms]
  by (cases e) (auto simp: fota_dl_handler_def on_progress_def Let_def
      intro!: dl_inv_stop dl_inv_finished dl_inv_flag)

lemma dl_idle_init: "dl_idle s \<Longrightarrow> dl_idle (snd (http_do E Fota_download_init s))"
  by (simp add: dl_idle_def http_do_def Let_def starts_ok_snoc dl_active_snoc flip: dl_active_def)

lemma dl_start_ok:
  "dl_idle s \<Longrightarrow> starts_ok False (trace (snd (http_do E (Fota_download_start h f) s)))"
  by (simp add: dl_idle_def http_do_def Let_def starts_ok_snoc flip: dl_active_def)

lemma dl_idle_stop: "starts_ok False (trace s) \<Longrightarrow> dl_idle (http_update_stop E s)"
  by (simp add: http_update_stop_def dl_idle_def http_do_def Let_def starts_ok_snoc dl_active_snoc)

lemma starts_ok_send [simp]:
  "starts_ok False (trace (http_update_status_send E s)) = starts_ok False (trace s)"
  by (simp add: http_update_status_send_def http_do_def Let_def starts_ok_snoc)

lemma dl_inv_start:
  assumes "dl_inv s"
  shows "dl_inv (http_update_start E h f i s)"
proof -
  define t where "t = (if download_in_progress s then http_update_stop E s else s)"
  define u where "u = snd (http_do E Fota_download_init t)"
  have "dl_idle t" using assms by (auto simp: t_def intro: dl_stop dl_inv_not_in_progress)
  then have u: "dl_idle u" by (simp add: u_def dl_idle_init)
  have started: "dl_inv (snd (http_do E (Fota_download_start h f) u)
          \<lparr>install_mode := m, download_in_progress := True\<rparr>)" for m
    using dl_start_ok [OF u] by (simp add: dl_inv_def)
  show ?thesis
    using started u
    by (simp add: http_update_start_def Let_def split_def dl_idle_inv dl_idle_stop dl_start_ok
        flip: t_def u_def)
qed

lemma dl_inv_cmd:
  assumes "dl_inv s"
  shows "dl_inv (http_update_event_handler E sid u f i s)"
proof -
  let ?s = "snd (http_do E Storage_counter_get (s\<lparr>ota_target := ota_target_from_file (Some f)\<rparr>))"
  have "dl_inv ?s" using assms by (simp add: dl_inv_do)
  then have "dl_inv (if download_in_progress ?s then http_update_stop E ?s else ?s)"
    by (simp add: dl_inv_stop)
  then show ?thesis
    unfolding http_update_event_handler_def Let_def
    by (simp add: dl_inv_do dl_inv_start dl_inv_stop assms del: http_do_keeps)
qed

lemma dl_inv_step: "dl_inv (snd bs) \<Longrightarrow> dl_inv (snd (http_step E i bs))"
  by (cases i) (simp_all add: http_step_def dl_inv_cmd dl_inv_handler)

interpretation downloads: machine "\<lambda>bs. bs = (True, http_boot)" "http_step E" "\<lambda>bs. dl_inv (snd bs)" for E
  by unfold_locales (auto simp: dl_inv_step, simp add: dl_inv_def http_boot_def dl_active_def)


section \<open>Reports\<close>

definition int32 :: "int \<Rightarrow> bool" where
  [fw_defs]: "int32 i \<longleftrightarrow> - (2 ^ 31) \<le> i \<and> i < 2 ^ 31"

fun pub_ok :: "http_evt \<Rightarrow> bool" where
  "pub_ok (Did (Status_publish i st p) r) = (i = 0 \<and> p = 0 \<and> length st < 32)"
| "pub_ok _ = True"

definition rep_inv :: "http \<Rightarrow> bool" where
  "rep_inv s \<longleftrightarrow> session_id s = 0 \<and> progress s = 0 \<and> length (status_str s) < 32 \<and> list_all pub_ok (trace s)"

definition unpublished :: "http_call \<Rightarrow> bool" where
  "unpublished c \<longleftrightarrow> (\<forall>r. pub_ok (Did c r))"

lemma unpublished_calls [simp]:
  "unpublished Flash_area_open" "unpublished Flash_read_header" "unpublished (Flash_area_read m n)"
  "unpublished (Pcd_network_core_update n)" "unpublished Flash_area_erase" "unpublished Flash_area_close"
  "unpublished Sys_reboot_cold" "unpublished Sys_reboot_warm" "unpublished Storage_counter_get"
  "unpublished (Storage_counter_set i)" "unpublished Fota_download_init"
  "unpublished (Fota_download_start h f)" "unpublished Fota_download_cancel"
  by (simp_all add: unpublished_def)

lemma rep_do: "unpublished c \<Longrightarrow> rep_inv (snd (http_do E c s)) = rep_inv s"
  by (simp add: rep_inv_def http_do_def Let_def unpublished_def)

lemma rep_fields [simp]:
  "rep_inv (s\<lparr>dl_progress := p\<rparr>) = rep_inv s" "rep_inv (s\<lparr>ota_target := t\<rparr>) = rep_inv s"
  "rep_inv (s\<lparr>install_mode := m\<rparr>) = rep_inv s" "rep_inv (s\<lparr>download_in_progress := b\<rparr>) = rep_inv s"
  by (simp_all add: rep_inv_def)

lemma rep_status:
  "rep_inv s \<Longrightarrow> length a < 32 \<Longrightarrow> rep_inv (s\<lparr>status_str := a\<rparr>)"
  "rep_inv s \<Longrightarrow> length a < 32 \<Longrightarrow> rep_inv (s\<lparr>status_str := a, progress := 0\<rparr>)"
  by (simp_all add: rep_inv_def)

lemma rep_send: "rep_inv s \<Longrightarrow> rep_inv (http_update_status_send E s)"
  by (simp add: http_update_status_send_def rep_inv_def http_do_def Let_def)

lemma rep_stop: "rep_inv s \<Longrightarrow> rep_inv (http_update_stop E s)"
  by (simp add: http_update_stop_def rep_do)

lemma rep_out_close: "rep_inv s \<Longrightarrow> rep_inv (snd (out_close E b r s))"
  by (simp add: out_close_def Let_def split_def rep_do)

lemma rep_netcore: "rep_inv s \<Longrightarrow> rep_inv (snd (apply_netcore_update_from_mcuboot_secondary E s))"
  by (simp add: apply_netcore_update_from_mcuboot_secondary_def Let_def split_def rep_do rep_out_close)

lemma dec_length: "int32 i \<Longrightarrow> length (dec_str i) \<le> 11"
  by (simp add: int32_def dec_str_length)

lemma rep_finished: "rep_inv s \<Longrightarrow> rep_inv (snd (on_finished E p s))"
proof -
  assume s: "rep_inv s"
  then have "rep_inv (s\<lparr>status_str := ''complete'', dl_progress := p\<rparr>)" by (simp add: rep_status)
  from rep_netcore [OF this, of E] s show ?thesis
    by (auto simp: on_finished_def http_update_done_def http_update_install_def Let_def rep_do
        intro!: rep_send rep_status split: prod.splits option.splits)
qed

lemma rep_rx: "rep_inv (s\<lparr>trace := trace s @ [Rx e]\<rparr>) = rep_inv s"
  by (simp add: rep_inv_def)

text \<open>Inputs whose integers are 32-bit values.\<close>

fun evt_ok :: "fota_evt \<Rightarrow> bool" where
  "evt_ok (Evt_error c p) = (int32 c \<and> int32 p)"
| "evt_ok (Evt_finished p) = int32 p"
| "evt_ok (Evt_progress p) = int32 p"
| "evt_ok (Evt_cancelled p) = int32 p"
| "evt_ok _ = True"

fun input_ok :: "http_input \<Rightarrow> bool" where
  "input_ok (Cmd sid u f i) = int32 sid"
| "input_ok (Fota e) = evt_ok e"

lemma rep_handler: "rep_inv s \<Longrightarrow> evt_ok e \<Longrightarrow> rep_inv (snd (fota_dl_handler E e s))"
  using rep_finished [of s E]
  by (cases e) (auto simp: fota_dl_handler_def on_progress_def Let_def
      intro!: rep_send rep_stop rep_status order.strict_trans1 [OF dec_length])

lemma rep_failed:
  "rep_inv s \<Longrightarrow> length d \<le> 11 \<Longrightarrow> rep_inv (s\<lparr>status_str := ''init failed '' @ d, progress := 0\<rparr>)"
  "rep_inv s \<Longrightarrow> length d \<le> 11 \<Longrightarrow> rep_inv (s\<lparr>status_str := ''start failed '' @ d, progress := 0\<rparr>)"
  by (intro rep_status; simp)+

lemma rep_start:
  assumes s: "rep_inv s" and r: "\<And>n c. int32 (e_res E n c)"
  shows "rep_inv (http_update_start E h f i s)"
proof -
  have len: "length (dec_str (fst (http_do E c t))) \<le> 11" for c t
    using r dec_length by (simp add: http_do_def Let_def)
  define t where "t = (if download_in_progress s then http_update_stop E s else s)"
  have "rep_inv t" using s by (simp add: t_def rep_stop)
  then show ?thesis
    using len [of Fota_download_init] len [of "Fota_download_start h f"]
    by (simp add: http_update_start_def Let_def split_def rep_do rep_send rep_stop
        rep_failed [simplified] flip: t_def)
qed

lemma rep_cmd:
  assumes "rep_inv s" "\<And>n c. int32 (e_res E n c)"
  shows "rep_inv (http_update_event_handler E sid u f i s)"
  using assms by (simp add: http_update_event_handler_def Let_def rep_do rep_stop rep_start)

lemma rep_step:
  "rep_inv (snd bs) \<Longrightarrow> (\<And>n c. int32 (e_res E n c)) \<Longrightarrow> input_ok i \<Longrightarrow> rep_inv (snd (http_step E i bs))"
  by (cases i) (simp_all add: http_step_def rep_cmd rep_handler rep_rx)

lemma rep_fold:
  "rep_inv (snd bs) \<Longrightarrow> (\<And>n c. int32 (e_res E n c)) \<Longrightarrow> \<forall>i\<in>set inputs. input_ok i
    \<Longrightarrow> rep_inv (snd (fold (http_step E) inputs bs))"
proof (induction inputs arbitrary: bs)
  case (Cons i inputs)
  then have "rep_inv (snd (http_step E i bs))" by (intro rep_step) auto
  then show ?case using Cons by simp
qed simp

text \<open>
  Further: every status report carries session 0 and progress 0, whatever session and progress the update
  has: the parameter \<open>session_id\<close> and the static local \<open>progress\<close> hide the globals that are reported.
  The status text always fits its buffer of 32 bytes.
\<close>

theorem http_reports_lost:
  assumes "\<And>n c. int32 (e_res E n c)" and "\<forall>i\<in>set inputs. input_ok i"
    and "Did (Status_publish sid st p) r \<in> set (trace (snd (fold (http_step E) inputs (True, http_boot))))"
  shows "sid = 0 \<and> p = 0 \<and> length st < 32"
proof -
  have "rep_inv (snd (fold (http_step E) inputs (True, http_boot)))"
    using assms(1,2) by (intro rep_fold) (simp_all add: rep_inv_def http_boot_def)
  then show ?thesis using assms(3) by (auto simp: rep_inv_def list_all_iff dest!: bspec)
qed

definition good_env :: http_env where
  "good_env = \<lparr>e_res = \<lambda>n c. 0, e_hdr = \<lambda>n. \<lparr>magic = 0, hdr_size = 32, img_size = 4096\<rparr>, e_buf_size = 65536\<rparr>"

theorem http_reports_lost_witness:
  "(''downloading 40%'', 0) \<in>
     {(st, p). Did (Status_publish 0 st p) 0 \<in>
        set (trace (snd (fold (http_step good_env) [Fota (Evt_progress 40)] (True, http_boot))))
      \<and> length st < 32}"
proof -
  have d: "dec_str 40 = ''40''" by code_simp
  have "Did (Status_publish 0 ''downloading 40%'' 0) 0
      \<in> set (trace (snd (fold (http_step good_env) [Fota (Evt_progress 40)] (True, http_boot))))"
    by (simp add: good_env_def http_step_def http_do_def http_boot_def fota_dl_handler_def on_progress_def
        http_update_status_send_def d)
  moreover have "length ''downloading 40%'' < 32"
    using http_reports_lost [of good_env "[Fota (Evt_progress 40)]" 0 "''downloading 40%''" 0 0] calculation
    by (simp add: good_env_def fw_defs)
  ultimately show ?thesis by simp
qed

section \<open>Reboots\<close>

text \<open>
  Further: the updater reboots exactly when a download finished and either it was an application image with
  install mode "now", or it was a network-core image and every step of its installation succeeded,
  whatever its install mode.
\<close>

theorem http_reboots_exactly:
  "(\<not> fst (fota_dl_handler E evt s)) =
     (\<exists>p. evt = Evt_finished p \<and>
       (ota_target s = 0 \<and> install_mode s = ''now''
        \<or> ota_target s = 1 \<and>
          (\<exists>h x. netcore_trace E (s\<lparr>status_str := ''complete'', dl_progress := p\<rparr>) = netcore_success h x)))"
proof -
  have n: "(fst (apply_netcore_update_from_mcuboot_secondary E t) = None)
    = (\<exists>h x. netcore_trace E t = netcore_success h x)" for t
  proof -
    have "(fst (netcore_ways E n) = None) = (\<exists>h x. snd (netcore_ways E n) = netcore_success h x)" for n
      by (auto simp: netcore_ways_def netcore_success_def Let_def split: if_splits)
    then show ?thesis using apply_netcore_ways [of E t] by (metis fst_conv snd_conv)
  qed
  have i: "install_mode (http_update_status_send E t) = install_mode t" for t
    by (simp add: http_update_status_send_def)
  show ?thesis
    by (cases evt) (auto simp: fota_dl_handler_def on_finished_def http_update_done_def Let_def strcmp_eq_def i
        simp flip: n split: prod.splits option.splits)
qed

end
