(* ===== verification/TransportQueue.thy ===== *)
theory TransportQueue
  imports KernelApi
begin

text \<open>
  src/transport/transport\_queue.c: the queue of messages waiting to be published. The kernel queue holds
  pointers; topic and payload are copies on the heap. The kernel queue (\<open>ops\<close>, at most
  \<open>CONFIG_TRANSPORT_MSGQ_LEN\<close> entries) and \<open>k_malloc\<close> (\<open>alloc\<close>, of which only the documented promise
  is used, that a returned block is not in use) are parameters. \<open>heap_ok\<close> is the ownership invariant:
  the live blocks are exactly the topics and payloads of the queued messages, each owned once, so no
  operation leaks a block, frees one twice or reads a freed one.
\<close>

record transport_msg =
  tm_topic :: nat
  tm_payload :: nat
  tm_qos :: nat

record 'q tqueue =
  transport_msgq :: 'q
  heap :: "nat \<Rightarrow> string option"

type_synonym alloc = "(nat \<Rightarrow> string option) \<Rightarrow> nat \<Rightarrow> nat option"

definition alloc_ok :: "alloc \<Rightarrow> bool" where
  "alloc_ok alloc \<longleftrightarrow> (\<forall>h n a. alloc h n = Some a \<longrightarrow> h a = None)"

definition k_free :: "nat \<Rightarrow> 'q tqueue \<Rightarrow> 'q tqueue" where
  "k_free a s = s\<lparr>heap := (heap s)(a := None)\<rparr>"

section \<open>Operations\<close>

definition transport_queue_add ::
  "('q, transport_msg) msgq_ops \<Rightarrow> alloc \<Rightarrow> string option \<Rightarrow> string option \<Rightarrow> nat \<Rightarrow> 'q tqueue
     \<Rightarrow> int \<times> 'q tqueue" where
  "transport_queue_add ops alloc topic payload qos s =
     (case topic of None \<Rightarrow> (- EINVAL, s) | Some tp \<Rightarrow>
      case payload of None \<Rightarrow> (- EINVAL, s) | Some pl \<Rightarrow>
      case alloc (heap s) (length tp + 1) of
        None \<Rightarrow> (- 1, s)
      | Some t \<Rightarrow>
          let s1 = s\<lparr>heap := (heap s)(t \<mapsto> tp)\<rparr> in
          case alloc (heap s1) (length pl + 1) of
            None \<Rightarrow> (- 1, k_free t s1)
          | Some p \<Rightarrow>
              let s2 = s1\<lparr>heap := (heap s1)(p \<mapsto> pl)\<rparr> in
              case mq_put ops \<lparr>tm_topic = t, tm_payload = p, tm_qos = qos\<rparr> (transport_msgq s2) of
                None \<Rightarrow> (- 1, k_free p (k_free t s2))
              | Some q \<Rightarrow> (0, s2\<lparr>transport_msgq := q\<rparr>))"

definition transport_queue_pending :: "('q, transport_msg) msgq_ops \<Rightarrow> 'q tqueue \<Rightarrow> nat" where
  "transport_queue_pending ops s = mq_used ops (transport_msgq s)"

definition transport_queue_peek ::
  "('q, transport_msg) msgq_ops \<Rightarrow> 'q tqueue \<Rightarrow> int \<times> transport_msg option" where
  "transport_queue_peek ops s =
     (case mq_peek ops (transport_msgq s) of None \<Rightarrow> (- 1, None) | Some m \<Rightarrow> (0, Some m))"

definition transport_queue_remove ::
  "('q, transport_msg) msgq_ops \<Rightarrow> 'q tqueue \<Rightarrow> int \<times> 'q tqueue" where
  "transport_queue_remove ops s =
     (case mq_get ops (transport_msgq s) of
        None \<Rightarrow> (- 1, s)
      | Some (m, q) \<Rightarrow> (0, k_free (tm_payload m) (k_free (tm_topic m) (s\<lparr>transport_msgq := q\<rparr>))))"

text \<open>The clearing loop frees each message it takes; \<open>None\<close> if it does not end.\<close>

definition free_msg :: "transport_msg \<Rightarrow> 'q tqueue \<Rightarrow> 'q tqueue" where
  "free_msg m s = k_free (tm_payload m) (k_free (tm_topic m) s)"

definition transport_queue_clear ::
  "('q, transport_msg) msgq_ops \<Rightarrow> 'q tqueue \<Rightarrow> 'q tqueue option" where
  "transport_queue_clear ops s =
     (case msgq_drain (mq_get ops) (transport_msgq s) of
        None \<Rightarrow> None
      | Some (ms, q) \<Rightarrow> Some (fold free_msg ms (s\<lparr>transport_msgq := q\<rparr>)))"

section \<open>Ownership and the abstract queue\<close>

definition ptrs :: "transport_msg list \<Rightarrow> nat list" where
  "ptrs ms = concat (List.map (\<lambda>m. [tm_topic m, tm_payload m]) ms)"

definition heap_ok :: "('q \<Rightarrow> transport_msg list) \<Rightarrow> 'q tqueue \<Rightarrow> bool" where
  "heap_ok items s \<longleftrightarrow>
     distinct (ptrs (items (transport_msgq s))) \<and> dom (heap s) = set (ptrs (items (transport_msgq s)))"

text \<open>The queue the clients see: topic, payload and quality of service of each message.\<close>

definition msg_of :: "(nat \<Rightarrow> string option) \<Rightarrow> transport_msg \<Rightarrow> string \<times> string \<times> nat" where
  "msg_of h m = (the (h (tm_topic m)), the (h (tm_payload m)), tm_qos m)"

definition contents :: "('q \<Rightarrow> transport_msg list) \<Rightarrow> 'q tqueue \<Rightarrow> (string \<times> string \<times> nat) list" where
  "contents items s = List.map (msg_of (heap s)) (items (transport_msgq s))"

lemma ptrs_simps [simp]:
  "ptrs [] = []" "ptrs (m # ms) = tm_topic m # tm_payload m # ptrs ms" "ptrs (a @ b) = ptrs a @ ptrs b"
  by (simp_all add: ptrs_def)

lemma ptrs_mem: "m \<in> set ms \<Longrightarrow> tm_topic m \<in> set (ptrs ms) \<and> tm_payload m \<in> set (ptrs ms)"
  by (induction ms) auto

lemma map_msg_of_outside:
  "a \<notin> set (ptrs ms) \<Longrightarrow> List.map (msg_of (h(a := v))) ms = List.map (msg_of h) ms"
  by (induction ms) (auto simp: msg_of_def)

section \<open>The interface\<close>

text \<open>
  What the transport state machine relies on: a first-in first-out queue of messages. \<open>inv\<close> is what
  the queue keeps of itself, \<open>view\<close> its messages.
\<close>

locale publish_queue =
  fixes add :: "string option \<Rightarrow> string option \<Rightarrow> nat \<Rightarrow> 's \<Rightarrow> int \<times> 's"
    and pending :: "'s \<Rightarrow> nat"
    and remove :: "'s \<Rightarrow> int \<times> 's"
    and clear :: "'s \<Rightarrow> 's option"
    and inv :: "'s \<Rightarrow> bool"
    and view :: "'s \<Rightarrow> (string \<times> string \<times> nat) list"
  assumes add_inv: "inv s \<Longrightarrow> inv (snd (add t p qos s))"
    and add_view: "inv s \<Longrightarrow>
      (fst (add t p qos s) = 0 \<longrightarrow> t \<noteq> None \<and> p \<noteq> None
         \<and> view (snd (add t p qos s)) = view s @ [(the t, the p, qos)])
      \<and> (fst (add t p qos s) \<noteq> 0 \<longrightarrow> view (snd (add t p qos s)) = view s)"
    and pending_view: "inv s \<Longrightarrow> pending s = length (view s)"
    and remove_inv: "inv s \<Longrightarrow> inv (snd (remove s))"
    and remove_view: "inv s \<Longrightarrow>
      view (snd (remove s)) = tl (view s) \<and> (fst (remove s) = 0 \<longleftrightarrow> view s \<noteq> [])"
    and clear_view: "inv s \<Longrightarrow> \<exists>s'. clear s = Some s' \<and> inv s' \<and> view s' = []"
begin

lemma remove_n: "inv s \<Longrightarrow> inv (((\<lambda>s. snd (remove s)) ^^ n) s) \<and> view (((\<lambda>s. snd (remove s)) ^^ n) s) = drop n (view s)"
proof (induction n)
  case (Suc n)
  then show ?case using remove_inv remove_view by (simp add: drop_Suc tl_drop)
qed simp

lemma clear_total: "inv s \<Longrightarrow> clear s \<noteq> None"
  using clear_view [of s] by auto

end

text \<open>The queue over a kernel that keeps its promises.\<close>

locale transport_heap =
  fixes ops :: "('q, transport_msg) msgq_ops"
    and cap :: nat
    and items :: "'q \<Rightarrow> transport_msg list"
    and alloc :: alloc
  assumes kernel_queue: "msgq_ok ops cap items"
    and kernel_alloc: "alloc_ok alloc"
begin

lemma fresh: "heap_ok items s \<Longrightarrow> alloc (heap s) n = Some a \<Longrightarrow> a \<notin> set (ptrs (items (transport_msgq s)))"
  using kernel_alloc by (auto simp: alloc_ok_def heap_ok_def)

lemma add_cases:
  assumes "heap_ok items s"
  shows "(fst (transport_queue_add ops alloc t p qos s) \<noteq> 0
            \<and> snd (transport_queue_add ops alloc t p qos s) = s)
       \<or> (fst (transport_queue_add ops alloc t p qos s) = 0 \<and> t \<noteq> None \<and> p \<noteq> None
            \<and> length (items (transport_msgq s)) < cap
            \<and> heap_ok items (snd (transport_queue_add ops alloc t p qos s))
            \<and> contents items (snd (transport_queue_add ops alloc t p qos s)) =
                contents items s @ [(the t, the p, qos)])"
proof (cases "t = None \<or> p = None")
  case True
  then show ?thesis by (auto simp: transport_queue_add_def fw_defs split: option.split)
next
  case False
  then obtain tp pl where tp: "t = Some tp" "p = Some pl" by auto
  show ?thesis
  proof (cases "alloc (heap s) (length tp + 1)")
    case None
    then show ?thesis using tp by (simp add: transport_queue_add_def)
  next
    case (Some a)
    have a: "a \<notin> set (ptrs (items (transport_msgq s)))" "heap s a = None"
      using fresh [OF assms Some] assms by (auto simp: heap_ok_def)
    let ?h1 = "(heap s)(a \<mapsto> tp)"
    show ?thesis
    proof (cases "alloc ?h1 (length pl + 1)")
      case None
      then show ?thesis using tp Some a by (simp add: transport_queue_add_def k_free_def fun_upd_idem)
    next
      case b: (Some b)
      have bh: "?h1 b = None" using kernel_alloc b unfolding alloc_ok_def by blast
      then have bn: "b \<noteq> a" "heap s b = None" by (auto split: if_splits)
      then have bp: "b \<notin> set (ptrs (items (transport_msgq s)))" using assms by (auto simp: heap_ok_def)
      let ?m = "\<lparr>tm_topic = a, tm_payload = b, tm_qos = qos\<rparr>"
      show ?thesis
      proof (cases "mq_put ops ?m (transport_msgq s)")
        case None
        have "(heap s)(a := None, b := None) = heap s" using a bn by (auto simp: fun_eq_iff)
        then show ?thesis using None tp Some b bn
          by (simp add: transport_queue_add_def k_free_def fun_upd_twist [of b a])
      next
        case q: (Some q)
        have i: "items q = items (transport_msgq s) @ [?m]" "length (items (transport_msgq s)) < cap"
          using msgq_put_items [OF kernel_queue q] msgq_put_full [OF kernel_queue, of ?m "transport_msgq s"] q
          by auto
        then show ?thesis using tp Some b q a bn bp assms
          by (auto simp: transport_queue_add_def heap_ok_def contents_def map_msg_of_outside msg_of_def)
      qed
    qed
  qed
qed

lemma free_msg_ok:
  assumes "distinct (ptrs (m # ms))" and "dom (heap s) = set (ptrs (m # ms))"
  shows "dom (heap (free_msg m s)) = set (ptrs ms)"
    and "List.map (msg_of (heap (free_msg m s))) ms = List.map (msg_of (heap s)) ms"
    and "transport_msgq (free_msg m s) = transport_msgq s"
  using assms by (auto simp: free_msg_def k_free_def map_msg_of_outside)

lemma remove_ok:
  assumes "heap_ok items s"
  shows "heap_ok items (snd (transport_queue_remove ops s))
    \<and> contents items (snd (transport_queue_remove ops s)) = tl (contents items s)
    \<and> (fst (transport_queue_remove ops s) = 0 \<longleftrightarrow> contents items s \<noteq> [])"
proof (cases "mq_get ops (transport_msgq s)")
  case None
  then show ?thesis using assms msgq_get_none [OF kernel_queue, of "transport_msgq s"]
    by (simp add: transport_queue_remove_def contents_def)
next
  case (Some mq)
  then obtain m q where mq: "mq_get ops (transport_msgq s) = Some (m, q)" by (cases mq) auto
  then have i: "items (transport_msgq s) = m # items q" by (rule msgq_get_items [OF kernel_queue])
  have r: "transport_queue_remove ops s = (0, free_msg m (s\<lparr>transport_msgq := q\<rparr>))"
    using mq by (simp add: transport_queue_remove_def free_msg_def)
  have "heap_ok items (free_msg m (s\<lparr>transport_msgq := q\<rparr>))
    \<and> contents items (free_msg m (s\<lparr>transport_msgq := q\<rparr>)) = tl (contents items s)"
    using assms free_msg_ok [of m "items q" "s\<lparr>transport_msgq := q\<rparr>"]
    by (simp add: heap_ok_def contents_def i)
  then show ?thesis using i r by (simp add: contents_def)
qed

lemma fold_free:
  "distinct (ptrs ms) \<Longrightarrow> dom (heap s) = set (ptrs ms) \<Longrightarrow>
   dom (heap (fold free_msg ms s)) = {} \<and> transport_msgq (fold free_msg ms s) = transport_msgq s"
proof (induction ms arbitrary: s)
  case (Cons m ms)
  then show ?case using free_msg_ok [OF Cons.prems] Cons.IH [of "free_msg m s"] by simp
qed simp

lemma clear_ok:
  assumes "heap_ok items s"
  shows "\<exists>s'. transport_queue_clear ops s = Some s' \<and> heap_ok items s' \<and> contents items s' = []"
proof -
  obtain q where q: "msgq_drain (mq_get ops) (transport_msgq s) = Some (items (transport_msgq s), q)"
    "items q = []" using msgq_drain_returns [OF kernel_queue] by blast
  then show ?thesis using assms fold_free [of "items (transport_msgq s)" "s\<lparr>transport_msgq := q\<rparr>"]
    by (simp add: transport_queue_clear_def heap_ok_def contents_def)
qed

lemma pending_ok: "transport_queue_pending ops s = length (contents items s)"
  by (simp add: transport_queue_pending_def contents_def msgq_used_items [OF kernel_queue])

lemma peek_ok:
  "transport_queue_peek ops s =
     (case items (transport_msgq s) of [] \<Rightarrow> (- 1, None) | m # _ \<Rightarrow> (0, Some m))"
  by (simp add: transport_queue_peek_def msgq_peek_items [OF kernel_queue] split: list.split)

end

sublocale transport_heap \<subseteq> publish_queue "transport_queue_add ops alloc" "transport_queue_pending ops"
  "transport_queue_remove ops" "transport_queue_clear ops" "heap_ok items" "contents items"
proof (unfold_locales, goal_cases)
  case (1 s t p qos)
  then show ?case using add_cases [of s t p qos] by auto
next
  case (2 s t p qos)
  then show ?case using add_cases [of s t p qos] by auto
next
  case (3 s)
  then show ?case by (simp add: pending_ok)
next
  case (4 s)
  then show ?case using remove_ok by blast
next
  case (5 s)
  then show ?case using remove_ok by blast
next
  case (6 s)
  then show ?case using clear_ok by blast
qed

context transport_heap begin

lemma publish_queue: "publish_queue (transport_queue_add ops alloc) (transport_queue_pending ops)
    (transport_queue_remove ops) (transport_queue_clear ops) (heap_ok items) (contents items)"
  by (rule publish_queue_axioms)

end

text \<open>
  The instance for concrete runs: a list as the kernel queue with the configured 50 entries and an
  allocator that takes the first free of 200 blocks.
\<close>

definition first_free :: alloc where
  "first_free h n = List.find (\<lambda>a. h a = None) [1..<201]"

lemma first_free_ok: "alloc_ok first_free"
  by (auto simp: alloc_ok_def first_free_def find_Some_iff)

interpretation tq: transport_heap "list_msgq 50" 50 "\<lambda>q. q" first_free
  by unfold_locales (simp_all add: list_msgq_ok first_free_ok)

section \<open>Properties\<close>

datatype queue_op = Op_add "string option" "string option" nat | Op_remove | Op_clear

definition queue_step ::
  "('q, transport_msg) msgq_ops \<Rightarrow> alloc \<Rightarrow> queue_op \<Rightarrow> 'q tqueue \<Rightarrow> 'q tqueue" where
  "queue_step ops alloc opn s =
     (case opn of
        Op_add t p qos \<Rightarrow> snd (transport_queue_add ops alloc t p qos s)
      | Op_remove \<Rightarrow> snd (transport_queue_remove ops s)
      | Op_clear \<Rightarrow> (case transport_queue_clear ops s of Some s' \<Rightarrow> s' | None \<Rightarrow> s))"

lemma queue_step_ok:
  assumes "transport_heap ops cap items alloc" and "heap_ok items s"
  shows "heap_ok items (queue_step ops alloc opn s)"
proof -
  have pq: "publish_queue (transport_queue_add ops alloc) (transport_queue_pending ops)
      (transport_queue_remove ops) (transport_queue_clear ops) (heap_ok items) (contents items)"
    using assms(1) by (rule transport_heap.publish_queue)
  show ?thesis
  proof (cases opn)
    case (Op_add t p qos)
    then show ?thesis using publish_queue.add_inv [OF pq assms(2)] by (simp add: queue_step_def)
  next
    case Op_remove
    then show ?thesis using publish_queue.remove_inv [OF pq assms(2)] by (simp add: queue_step_def)
  next
    case Op_clear
    then show ?thesis using publish_queue.clear_view [OF pq assms(2)] by (auto simp: queue_step_def)
  qed
qed

text \<open>
  Further: no sequence of queue operations leaks, double-frees or loses a block: at any time the allocated
  blocks are exactly the topics and payloads of the queued messages, each owned by one message; so when
  the queue is empty nothing is allocated.
\<close>

theorem queue_ownership:
  assumes "msgq_ok ops cap items" and "alloc_ok alloc" and "items q0 = []"
  shows "let s = fold (queue_step ops alloc) opns \<lparr>transport_msgq = q0, heap = Map.empty\<rparr> in
    distinct (ptrs (items (transport_msgq s))) \<and> dom (heap s) = set (ptrs (items (transport_msgq s)))"
proof -
  have th: "transport_heap ops cap items alloc" using assms(1,2) by unfold_locales
  have "heap_ok items s \<Longrightarrow> heap_ok items (fold (queue_step ops alloc) opns s)" for s
    by (induction opns arbitrary: s) (auto intro: queue_step_ok [OF th])
  from this [of "\<lparr>transport_msgq = q0, heap = Map.empty\<rparr>"] show ?thesis
    using assms(3) by (simp add: heap_ok_def Let_def)
qed

theorem queue_ownership_witness:
  "let s = fold (queue_step (list_msgq 50) first_free)
       [Op_add (Some ''a'') (Some ''1'') 0, Op_add (Some ''b'') (Some ''2'') 1, Op_remove]
       \<lparr>transport_msgq = [], heap = Map.empty\<rparr> in
    distinct (ptrs (transport_msgq s)) \<and> dom (heap s) = set (ptrs (transport_msgq s))"
  using queue_ownership [OF list_msgq_ok [of 50] first_free_ok, of "[]"] by blast

text \<open>
  Further: the operations implement a first-in first-out queue of (topic, payload, qos). A successful add
  appends the message, and only if the queue was not full; a failing one leaves everything as it was,
  the half-made copies released; peek shows the first message, remove drops it and fails exactly on an
  empty queue; clear ends and empties the queue.
\<close>

theorem queue_refines_fifo:
  assumes "msgq_ok ops cap items" and "alloc_ok alloc" and "heap_ok items s"
  shows "(if fst (transport_queue_add ops alloc t p qos s) = 0
          then length (contents items s) < cap \<and> t \<noteq> None \<and> p \<noteq> None
            \<and> contents items (snd (transport_queue_add ops alloc t p qos s)) =
                contents items s @ [(the t, the p, qos)]
          else snd (transport_queue_add ops alloc t p qos s) = s)
    \<and> (case transport_queue_peek ops s of
         (r, None) \<Rightarrow> r = - 1 \<and> contents items s = []
       | (r, Some m) \<Rightarrow> r = 0 \<and> contents items s \<noteq> [] \<and> msg_of (heap s) m = hd (contents items s))
    \<and> contents items (snd (transport_queue_remove ops s)) = tl (contents items s)
    \<and> (fst (transport_queue_remove ops s) = 0 \<longleftrightarrow> contents items s \<noteq> [])
    \<and> (\<exists>s'. transport_queue_clear ops s = Some s' \<and> contents items s' = [] \<and> dom (heap s') = {})"
proof -
  have th: "transport_heap ops cap items alloc" using assms(1,2) by unfold_locales
  obtain s' where s': "transport_queue_clear ops s = Some s'" "heap_ok items s'" "contents items s' = []"
    using transport_heap.clear_ok [OF th assms(3)] by blast
  have "dom (heap s') = {}" using s' by (simp add: heap_ok_def contents_def)
  then show ?thesis
    using transport_heap.add_cases [OF th assms(3), of t p qos] transport_heap.remove_ok [OF th assms(3)] s'
    by (auto simp: transport_heap.peek_ok [OF th] contents_def split: list.split)
qed

theorem queue_refines_fifo_witness:
  "contents (\<lambda>q. q) (snd (transport_queue_remove (list_msgq 50)
     \<lparr>transport_msgq = [\<lparr>tm_topic = 1, tm_payload = 2, tm_qos = 1\<rparr>],
      heap = [1 \<mapsto> ''t'', 2 \<mapsto> ''p'']\<rparr>)) = []"
proof -
  have "heap_ok (\<lambda>q. q) \<lparr>transport_msgq = [\<lparr>tm_topic = 1, tm_payload = 2, tm_qos = 1\<rparr>],
      heap = [1 \<mapsto> ''t'', 2 \<mapsto> ''p'']\<rparr>" by (auto simp: heap_ok_def)
  from queue_refines_fifo [OF list_msgq_ok [of 50] first_free_ok this] show ?thesis
    by (simp add: contents_def)
qed

end
