(* ===== verification/MqttHelper.thy ===== *)
theory MqttHelper
  imports Prelude
begin

text \<open>
  src/transport/mqtt\_helper\_heliogen.c: the connection state of the MQTT library. The library itself
  (\<open>mqtt_connect\<close> and so on), the resolver and the socket are not part of the repository: what they
  return, and the events they deliver to \<open>mqtt_evt_handler\<close> while a call is running, are arguments.
  The images are built with assertions, so an illegal state change stops the program: \<open>None\<close>.
\<close>

section \<open>State\<close>

datatype mqtt_state =
    MQTT_STATE_UNINIT
  | MQTT_STATE_DISCONNECTED
  | MQTT_STATE_TRANSPORT_CONNECTING
  | MQTT_STATE_CONNECTING
  | MQTT_STATE_TRANSPORT_CONNECTED
  | MQTT_STATE_CONNECTED
  | MQTT_STATE_DISCONNECTING

text \<open>The callbacks made, and the library calls issued.\<close>

datatype mqtt_cb =
    Cb_connack bool
  | Cb_disconnect int
  | Cb_publish string string
  | Cb_puback nat int
  | Cb_suback nat int
  | Cb_pingresp
  | Cb_error

datatype mqtt_call =
    Mqtt_connect
  | Mqtt_disconnect
  | Mqtt_subscribe "string list" nat
  | Mqtt_publish string string nat nat
  | Mqtt_ack nat
  | Mqtt_abort

record mqtt_helper =
  mh_state :: mqtt_state
  mh_cfg :: bool
  mh_poll_sem :: nat
  mh_broker :: "nat option"
  mh_cbs :: "mqtt_cb list"
  mh_calls :: "mqtt_call list"

definition mh_boot :: mqtt_helper where
  "mh_boot = \<lparr>mh_state = MQTT_STATE_UNINIT, mh_cfg = False, mh_poll_sem = 0, mh_broker = None,
     mh_cbs = [], mh_calls = []\<rparr>"

definition legal_transition :: "mqtt_state \<Rightarrow> mqtt_state \<Rightarrow> bool" where
  "legal_transition old new_state =
     (case old of
        MQTT_STATE_UNINIT \<Rightarrow> new_state = MQTT_STATE_DISCONNECTED
      | MQTT_STATE_DISCONNECTED \<Rightarrow> new_state \<in> {MQTT_STATE_CONNECTING, MQTT_STATE_UNINIT,
                                               MQTT_STATE_TRANSPORT_CONNECTING}
      | MQTT_STATE_TRANSPORT_CONNECTING \<Rightarrow> new_state \<in> {MQTT_STATE_TRANSPORT_CONNECTED,
                                                       MQTT_STATE_DISCONNECTED}
      | MQTT_STATE_CONNECTING \<Rightarrow> new_state \<in> {MQTT_STATE_CONNECTED, MQTT_STATE_DISCONNECTED}
      | MQTT_STATE_TRANSPORT_CONNECTED \<Rightarrow> new_state \<in> {MQTT_STATE_CONNECTING, MQTT_STATE_DISCONNECTED}
      | MQTT_STATE_CONNECTED \<Rightarrow> new_state \<in> {MQTT_STATE_DISCONNECTING, MQTT_STATE_DISCONNECTED}
      | MQTT_STATE_DISCONNECTING \<Rightarrow> new_state = MQTT_STATE_DISCONNECTED)"

definition mqtt_state_set :: "mqtt_state \<Rightarrow> mqtt_helper \<Rightarrow> mqtt_helper option" where
  "mqtt_state_set new_state s =
     (if mh_state s = new_state then Some s
      else if legal_transition (mh_state s) new_state then Some (s\<lparr>mh_state := new_state\<rparr>)
      else None)"

definition mh_cb :: "mqtt_cb \<Rightarrow> mqtt_helper \<Rightarrow> mqtt_helper" where
  "mh_cb c s = (if mh_cfg s then s\<lparr>mh_cbs := mh_cbs s @ [c]\<rparr> else s)"

definition mh_call :: "mqtt_call \<Rightarrow> mqtt_helper \<Rightarrow> mqtt_helper" where
  "mh_call c s = s\<lparr>mh_calls := mh_calls s @ [c]\<rparr>"

section \<open>Events of the library\<close>

text \<open>
  \<open>EVT_PUBLISH topic payload qos id rd\<close>: \<open>rd\<close> is the result of reading the payload from the socket.
\<close>

datatype mqtt_evt =
    EVT_CONNACK bool
  | EVT_DISCONNECT int
  | EVT_PUBLISH string string nat nat int
  | EVT_PUBACK nat int
  | EVT_SUBACK nat int
  | EVT_PINGRESP
  | EVT_PUBREC nat int
  | EVT_OTHER nat

text \<open>\<open>buflen\<close> is the configured size of the payload buffer.\<close>

definition publish_get_payload :: "nat \<Rightarrow> nat \<Rightarrow> int \<Rightarrow> int" where
  "publish_get_payload buflen n rd = (if n > buflen then - EMSGSIZE else rd)"

definition on_publish :: "nat \<Rightarrow> string \<Rightarrow> string \<Rightarrow> nat \<Rightarrow> nat \<Rightarrow> int \<Rightarrow> mqtt_helper \<Rightarrow> mqtt_helper" where
  "on_publish buflen topic payload qos mid rd s =
     (if publish_get_payload buflen (length payload) rd \<noteq> 0 then mh_cb Cb_error s
      else mh_cb (Cb_publish topic payload) (if qos = 1 then mh_call (Mqtt_ack mid) s else s))"

definition mqtt_evt_handler :: "nat \<Rightarrow> mqtt_evt \<Rightarrow> mqtt_helper \<Rightarrow> mqtt_helper option" where
  "mqtt_evt_handler buflen e s =
     (case e of
        EVT_CONNACK accepted \<Rightarrow>
          map_option (mh_cb (Cb_connack accepted))
            (mqtt_state_set (if accepted then MQTT_STATE_CONNECTED else MQTT_STATE_DISCONNECTED) s)
      | EVT_DISCONNECT r \<Rightarrow> map_option (mh_cb (Cb_disconnect r)) (mqtt_state_set MQTT_STATE_DISCONNECTED s)
      | EVT_PUBLISH t p q i rd \<Rightarrow> Some (on_publish buflen t p q i rd s)
      | EVT_PUBACK i r \<Rightarrow> Some (mh_cb (Cb_puback i r) s)
      | EVT_SUBACK i r \<Rightarrow> Some (mh_cb (Cb_suback i r) s)
      | EVT_PINGRESP \<Rightarrow> Some (mh_cb Cb_pingresp s)
      | EVT_PUBREC i r \<Rightarrow> Some (mh_cb (Cb_puback i r) s)
      | EVT_OTHER n \<Rightarrow> Some s)"

fun mqtt_evts :: "nat \<Rightarrow> mqtt_evt list \<Rightarrow> mqtt_helper \<Rightarrow> mqtt_helper option" where
  "mqtt_evts buflen [] s = Some s"
| "mqtt_evts buflen (e # es) s = Option.bind (mqtt_evt_handler buflen e s) (mqtt_evts buflen es)"

section \<open>Operations\<close>

text \<open>
  \<open>broker_init\<close>: \<open>addrs\<close> is the outcome of the resolver, an error or the list of found addresses
  (is it IPv4, address). The loop looks at one address only, because of the \<open>break\<close> after the advance.
\<close>

definition broker_init :: "int + (bool \<times> nat) list \<Rightarrow> mqtt_helper \<Rightarrow> int \<times> mqtt_helper" where
  "broker_init addrs s =
     (case addrs of
        Inl err \<Rightarrow> (- err, s)
      | Inr [] \<Rightarrow> (0, s)
      | Inr ((ipv4, a) # rest) \<Rightarrow> (0, if ipv4 then s\<lparr>mh_broker := Some a\<rparr> else s))"

text \<open>The library's answers to \<open>mqtt_connect\<close>, with the events delivered during the call.\<close>

definition client_connect ::
  "nat \<Rightarrow> int + (bool \<times> nat) list \<Rightarrow> int \<Rightarrow> mqtt_evt list \<Rightarrow> mqtt_helper \<Rightarrow> (int \<times> mqtt_helper) option" where
  "client_connect buflen addrs conn_ret evts s =
     (let (err, s1) = broker_init addrs s
      in if err \<noteq> 0 then Some (err, s1)
         else case mqtt_state_set MQTT_STATE_TRANSPORT_CONNECTING s1 of
           None \<Rightarrow> None
         | Some s2 \<Rightarrow>
             (case mqtt_evts buflen evts (mh_call Mqtt_connect s2) of
                None \<Rightarrow> None
              | Some s3 \<Rightarrow>
                  if conn_ret \<noteq> 0 then Some (conn_ret, s3)
                  else (case mqtt_state_set MQTT_STATE_TRANSPORT_CONNECTED s3 of
                          None \<Rightarrow> None
                        | Some s4 \<Rightarrow> map_option (Pair 0) (mqtt_state_set MQTT_STATE_CONNECTING s4))))"

definition mqtt_helper_init :: "mqtt_helper \<Rightarrow> (int \<times> mqtt_helper) option" where
  "mqtt_helper_init s =
     (if mh_state s \<noteq> MQTT_STATE_UNINIT \<and> mh_state s \<noteq> MQTT_STATE_DISCONNECTED
      then Some (- EOPNOTSUPP, s)
      else map_option (Pair 0) (mqtt_state_set MQTT_STATE_DISCONNECTED (s\<lparr>mh_cfg := True\<rparr>)))"

definition mqtt_helper_connect ::
  "nat \<Rightarrow> int + (bool \<times> nat) list \<Rightarrow> int \<Rightarrow> mqtt_evt list \<Rightarrow> mqtt_helper \<Rightarrow> (int \<times> mqtt_helper) option" where
  "mqtt_helper_connect buflen addrs conn_ret evts s =
     (if mh_state s \<noteq> MQTT_STATE_DISCONNECTED \<and> mh_state s \<noteq> MQTT_STATE_CONNECTING
      then Some (- EOPNOTSUPP, s)
      else case client_connect buflen addrs conn_ret evts s of
        None \<Rightarrow> None
      | Some (err, s1) \<Rightarrow>
          if err \<noteq> 0 then map_option (Pair err) (mqtt_state_set MQTT_STATE_DISCONNECTED s1)
          else Some (0, s1\<lparr>mh_poll_sem := min 1 (mh_poll_sem s1 + 1)\<rparr>))"

definition mqtt_helper_disconnect ::
  "nat \<Rightarrow> int \<Rightarrow> mqtt_evt list \<Rightarrow> mqtt_helper \<Rightarrow> (int \<times> mqtt_helper) option" where
  "mqtt_helper_disconnect buflen disc_ret evts s =
     (if mh_state s \<noteq> MQTT_STATE_CONNECTED then Some (- EOPNOTSUPP, s)
      else case mqtt_state_set MQTT_STATE_DISCONNECTING s of
        None \<Rightarrow> None
      | Some s1 \<Rightarrow>
          (case mqtt_evts buflen evts (mh_call Mqtt_disconnect s1) of
             None \<Rightarrow> None
           | Some s2 \<Rightarrow>
               if disc_ret \<noteq> 0
               then map_option (\<lambda>s3. (disc_ret, mh_cb (Cb_disconnect disc_ret) s3))
                      (mqtt_state_set MQTT_STATE_DISCONNECTED s2)
               else Some (disc_ret, s2)))"

definition mqtt_helper_subscribe :: "string list \<Rightarrow> nat \<Rightarrow> int \<Rightarrow> mqtt_helper \<Rightarrow> int \<times> mqtt_helper" where
  "mqtt_helper_subscribe topics mid sub_ret s =
     (if mh_state s \<noteq> MQTT_STATE_CONNECTED then (- EOPNOTSUPP, s)
      else (sub_ret, mh_call (Mqtt_subscribe topics mid) s))"

definition mqtt_helper_publish ::
  "string \<Rightarrow> string \<Rightarrow> nat \<Rightarrow> nat \<Rightarrow> int \<Rightarrow> mqtt_helper \<Rightarrow> int \<times> mqtt_helper" where
  "mqtt_helper_publish topic payload qos mid pub_ret s =
     (if mh_state s \<noteq> MQTT_STATE_CONNECTED then (- EOPNOTSUPP, s)
      else (pub_ret, mh_call (Mqtt_publish topic payload qos mid) s))"

definition mqtt_helper_deinit :: "mqtt_helper \<Rightarrow> (int \<times> mqtt_helper) option" where
  "mqtt_helper_deinit s =
     (if mh_state s \<noteq> MQTT_STATE_DISCONNECTED then Some (- EOPNOTSUPP, s)
      else map_option (Pair 0) (mqtt_state_set MQTT_STATE_UNINIT (s\<lparr>mh_cfg := False\<rparr>)))"

section \<open>The poll loop\<close>

text \<open>
  One round: the result of \<open>poll\<close>, the flags it reports, what \<open>mqtt_live\<close> or \<open>mqtt_input\<close> answer,
  and the events delivered during input and abort.
\<close>

record poll_round =
  po_ret :: int
  po_in :: bool
  po_nval :: bool
  po_hup :: bool
  po_err :: bool
  po_live :: int
  po_input :: int
  po_evts :: "mqtt_evt list"
  po_abort_evts :: "mqtt_evt list"

definition mqtt_abort :: "nat \<Rightarrow> poll_round \<Rightarrow> mqtt_helper \<Rightarrow> mqtt_helper option" where
  "mqtt_abort buflen r s = mqtt_evts buflen (po_abort_evts r) (mh_call Mqtt_abort s)"

text \<open>The result says whether the loop goes on.\<close>

definition poll_step :: "nat \<Rightarrow> poll_round \<Rightarrow> mqtt_helper \<Rightarrow> (bool \<times> mqtt_helper) option" where
  "poll_step buflen r s =
     (if mh_state s \<noteq> MQTT_STATE_CONNECTING \<and> mh_state s \<noteq> MQTT_STATE_CONNECTED then Some (False, s)
      else if po_ret r < 0 then Some (False, s)
      else if po_ret r = 0 then Some (po_live r = 0 \<or> po_live r = - EAGAIN, s)
      else
        (let flags = (\<lambda>s1. if po_nval r \<or> po_hup r \<or> po_err r
                           then map_option (Pair False) (mqtt_abort buflen r s1) else Some (True, s1))
         in if po_in r
            then (case mqtt_evts buflen (po_evts r) s of
                    None \<Rightarrow> None
                  | Some s1 \<Rightarrow>
                      if po_input r \<noteq> 0 then map_option (Pair False) (mqtt_abort buflen r s1)
                      else if mh_state s1 = MQTT_STATE_DISCONNECTED \<or> mh_state s1 = MQTT_STATE_UNINIT
                      then Some (False, s1)
                      else flags s1)
            else flags s))"

text \<open>The rounds of one connection; the flag says whether the loop ended within them.\<close>

fun mqtt_helper_poll_loop :: "nat \<Rightarrow> poll_round list \<Rightarrow> mqtt_helper \<Rightarrow> (bool \<times> mqtt_helper) option" where
  "mqtt_helper_poll_loop buflen [] s = Some (False, s)"
| "mqtt_helper_poll_loop buflen (r # rs) s =
     (case poll_step buflen r s of
        None \<Rightarrow> None
      | Some (cont, s1) \<Rightarrow> if cont then mqtt_helper_poll_loop buflen rs s1 else Some (True, s1))"

section \<open>Properties\<close>

lemma set_disconnected: "mqtt_state_set MQTT_STATE_DISCONNECTED s = Some (s\<lparr>mh_state := MQTT_STATE_DISCONNECTED\<rparr>)"
  by (cases "mh_state s") (auto simp: mqtt_state_set_def legal_transition_def)

text \<open>The two cases of a connection attempt that the transport's work handler meets.\<close>

lemma connect_from_disconnected:
  "mh_state s = MQTT_STATE_DISCONNECTED \<Longrightarrow>
   mqtt_helper_connect buflen (Inr [(True, a)]) 0 [] s =
     Some (0, (mh_call Mqtt_connect (s\<lparr>mh_broker := Some a\<rparr>))
       \<lparr>mh_state := MQTT_STATE_CONNECTING, mh_poll_sem := min 1 (mh_poll_sem s + 1)\<rparr>)"
  by (simp add: mqtt_helper_connect_def client_connect_def broker_init_def mqtt_state_set_def
      legal_transition_def mh_call_def)

lemma connect_from_connecting:
  "mh_state s = MQTT_STATE_CONNECTING \<Longrightarrow> mqtt_helper_connect buflen (Inr addrs) r [] s = None"
  by (auto simp: mqtt_helper_connect_def client_connect_def broker_init_def mqtt_state_set_def
      legal_transition_def Let_def split: list.split)

lemma broker_init_state: "mh_state (snd (broker_init addrs s)) = mh_state s"
  by (auto simp: broker_init_def split: sum.split list.split)

text \<open>
  Further: the outcome of a connection attempt during which the library delivers no event. From
  DISCONNECTED it ends in CONNECTING with the poll thread released, or back in DISCONNECTED with the
  error; in the other states it is refused, except that in CONNECTING, which the guard lets through, a
  resolved broker leads to an illegal state change and stops the program.
\<close>

theorem mqtt_connect_outcome:
  "mqtt_helper_connect buflen addrs conn_ret [] s =
     (let (err, s1) = broker_init addrs s in
      case mh_state s of
        MQTT_STATE_DISCONNECTED \<Rightarrow>
          Some (if err \<noteq> 0 then (err, s1)
                else if conn_ret \<noteq> 0 then (conn_ret, mh_call Mqtt_connect s1)
                else (0, (mh_call Mqtt_connect s1)\<lparr>mh_state := MQTT_STATE_CONNECTING,
                           mh_poll_sem := min 1 (mh_poll_sem s + 1)\<rparr>))
      | MQTT_STATE_CONNECTING \<Rightarrow>
          if err \<noteq> 0 then Some (err, s1\<lparr>mh_state := MQTT_STATE_DISCONNECTED\<rparr>) else None
      | _ \<Rightarrow> Some (- EOPNOTSUPP, s))"
proof -
  obtain err s1 where b: "broker_init addrs s = (err, s1)" by fastforce
  have st: "mh_state s1 = mh_state s" "mh_poll_sem s1 = mh_poll_sem s"
    using b by (auto simp: broker_init_def split: sum.splits list.splits if_splits)
  show ?thesis
    by (cases "mh_state s")
      (simp_all add: mqtt_helper_connect_def client_connect_def b st mqtt_state_set_def
        legal_transition_def mh_call_def Let_def)
qed

text \<open>
  Further: the event handler stops the program exactly when an accepting CONNACK arrives although no
  connection is being made; every other event is handled in every state. A received message is
  delivered whole, and acknowledged when its quality of service is 1, or, if it does not fit the payload
  buffer or cannot be read, reported as an error and neither delivered nor acknowledged.
\<close>

theorem mqtt_event_handling:
  "(mqtt_evt_handler buflen e s = None \<longleftrightarrow>
      e = EVT_CONNACK True \<and> mh_state s \<noteq> MQTT_STATE_CONNECTING \<and> mh_state s \<noteq> MQTT_STATE_CONNECTED)
   \<and> (mh_cfg s \<longrightarrow>
        (\<exists>s'. mqtt_evt_handler buflen (EVT_PUBLISH topic payload qos mid rd) s = Some s'
          \<and> mh_state s' = mh_state s
          \<and> (if length payload \<le> buflen \<and> rd = 0
             then mh_cbs s' = mh_cbs s @ [Cb_publish topic payload]
               \<and> mh_calls s' = mh_calls s @ (if qos = 1 then [Mqtt_ack mid] else [])
             else mh_cbs s' = mh_cbs s @ [Cb_error] \<and> mh_calls s' = mh_calls s)))"
proof
  show "mqtt_evt_handler buflen e s = None \<longleftrightarrow>
      e = EVT_CONNACK True \<and> mh_state s \<noteq> MQTT_STATE_CONNECTING \<and> mh_state s \<noteq> MQTT_STATE_CONNECTED"
    by (cases e; cases "mh_state s")
      (auto simp: mqtt_evt_handler_def mqtt_state_set_def legal_transition_def)
  show "mh_cfg s \<longrightarrow>
        (\<exists>s'. mqtt_evt_handler buflen (EVT_PUBLISH topic payload qos mid rd) s = Some s'
          \<and> mh_state s' = mh_state s
          \<and> (if length payload \<le> buflen \<and> rd = 0
             then mh_cbs s' = mh_cbs s @ [Cb_publish topic payload]
               \<and> mh_calls s' = mh_calls s @ (if qos = 1 then [Mqtt_ack mid] else [])
             else mh_cbs s' = mh_cbs s @ [Cb_error] \<and> mh_calls s' = mh_calls s))"
    by (simp add: mqtt_evt_handler_def on_publish_def publish_get_payload_def mh_cb_def mh_call_def
        EMSGSIZE_def)
qed

theorem mqtt_event_handling_witness:
  "mqtt_evt_handler 4096 (EVT_CONNACK True) mh_boot = None"
  using mqtt_event_handling [of 4096 "EVT_CONNACK True" mh_boot] by (simp add: mh_boot_def)

text \<open>
  Further: when \<open>poll\<close> fails on an established connection the poll loop ends but the helper stays
  CONNECTED: no abort is issued and no callback made, so nobody is told that input is no longer read.
\<close>

theorem poll_error_unreported:
  assumes "mh_state s = MQTT_STATE_CONNECTED" and "po_ret r < 0"
  shows "mqtt_helper_poll_loop buflen (r # rs) s = Some (True, s)"
  using assms by (simp add: poll_step_def)

theorem poll_error_unreported_witness:
  "mqtt_helper_poll_loop 4096
     [\<lparr>po_ret = - 1, po_in = False, po_nval = False, po_hup = False, po_err = False, po_live = 0,
       po_input = 0, po_evts = [], po_abort_evts = []\<rparr>] (mh_boot\<lparr>mh_state := MQTT_STATE_CONNECTED\<rparr>)
   = Some (True, mh_boot\<lparr>mh_state := MQTT_STATE_CONNECTED\<rparr>)"
  by (rule poll_error_unreported) simp_all

end
