(* ===== verification/Transport.thy ===== *)
theory Transport
  imports TransportQueue MqttHelper
begin

text \<open>
  The MQTT transport of the application core (src/transport): the state machine of transport\_fsm.c, the
  callbacks, statistics, timer, publish entry point, Wi-Fi event handler and client id. The state is one
  record; delayable work items and the publish timer are represented by "pending in so many seconds" and
  "running". The Zephyr state machine framework is a parameter with its documented contract \<open>smf_ok\<close>:
  changing the state runs the exit action of the current state, then makes the new state current, then
  runs its entry action. \<open>None\<close> means that an assertion stopped the program, that a released block was
  read, or that a loop did not end.
\<close>

section \<open>Data\<close>

datatype module_state =
    MQTT_NETWORK_DISCONNECTED
  | MQTT_CONNECTING_TO_BROKER
  | MQTT_CONNECTED_SUBSCRIBING
  | MQTT_CONNECTED_PUBLISHING

datatype network_events = NETWORK_NO_EVENT | NETWORK_DISCONNECTED | NETWORK_CONNECTED_WITH_IP

datatype mqtt_events =
    MQTT_BROKER_NO_EVENT
  | MQTT_BROKER_DISCONNECTED
  | MQTT_BROKER_CONNECT_TO_BROKER_FAIL
  | MQTT_BROKER_CONNECT_TO_BROKER_SUCCESS
  | MQTT_BROKER_SUBSCRIBE_ACK
  | MQTT_BROKER_SUBSCRIBE_FAIL
  | MQTT_BROKER_PUBLISH_ACK
  | MQTT_BROKER_PUBLISH_FAIL
  | MQTT_BROKER_RX_MSG
  | MQTT_BROKER_ERROR

datatype transport_status = STATUS_READY | STATUS_DISCONNECTED

text \<open>The counters of transport\_stats.c with their two time stamps (milliseconds of up-time).\<close>

record transport_stats_t =
  st_con :: int
  st_dcon :: int
  st_con_s :: int
  st_dcon_s :: int
  st_con_fail :: int
  st_sub_ack :: int
  st_sub_fail :: int
  st_pub_ack :: int
  st_pub_fail :: int
  st_rx :: int
  st_err :: int
  con_ts :: int
  dcon_ts :: int

record 'q transport =
  fs_current :: module_state
  fs_network_event :: network_events
  fs_mqtt_event :: mqtt_events
  fs_last_message_id :: nat
  is_mqtt_active :: bool
  connect_work :: "nat option"
  subscribe_work :: "nat option"
  pub_timer :: bool
  tr_queue :: "'q tqueue"
  tr_status :: "transport_status list"
  tr_received :: "(string \<times> string) list"
  tr_helper :: mqtt_helper
  tr_stats :: transport_stats_t

type_synonym 'q action = "'q transport \<Rightarrow> 'q transport option"

text \<open>
  The environment of one call: the kernel queue, the state machine framework, the up-time, and what the
  library answers to a disconnect and to a publish during the call.
\<close>

record 'q tenv =
  e_ops :: "('q, transport_msg) msgq_ops"
  e_smf :: "'q action \<Rightarrow> 'q action \<Rightarrow> module_state \<Rightarrow> 'q action"
  e_now :: int
  e_buflen :: nat
  e_disc_ret :: int
  e_disc_evts :: "mqtt_evt list"
  e_pub_ret :: int

definition smf_ok :: "('q action \<Rightarrow> 'q action \<Rightarrow> module_state \<Rightarrow> 'q action) \<Rightarrow> bool" where
  "smf_ok smf \<longleftrightarrow>
     (\<forall>ex en new s. smf ex en new s = Option.bind (ex s) (\<lambda>s1. en (s1\<lparr>fs_current := new\<rparr>)))"

section \<open>transport\_stats.c\<close>

definition session_stats_reset :: "transport_stats_t \<Rightarrow> transport_stats_t" where
  "session_stats_reset st =
     st\<lparr>st_con_s := 0, st_dcon_s := 0, st_pub_ack := 0, st_pub_fail := 0, st_sub_ack := 0,
        st_sub_fail := 0, st_rx := 0, st_err := 0\<rparr>"

text \<open>
  \<open>k_uptime_delta(\&ts)\<close> answers the time since \<open>ts\<close> and stores the present time in it; \<open>now\<close> is the
  up-time throughout one call.
\<close>

definition transport_stats :: "mqtt_events \<Rightarrow> int \<Rightarrow> transport_stats_t \<Rightarrow> transport_stats_t" where
  "transport_stats evt now st =
     (case evt of
        MQTT_BROKER_DISCONNECTED \<Rightarrow>
          st\<lparr>st_dcon := st_dcon st + 1, dcon_ts := now, st_con := s32 (now - con_ts st),
             con_ts := now, st_con_fail := 0\<rparr>
      | MQTT_BROKER_CONNECT_TO_BROKER_FAIL \<Rightarrow> st\<lparr>st_con_fail := st_con_fail st + 1\<rparr>
      | MQTT_BROKER_CONNECT_TO_BROKER_SUCCESS \<Rightarrow>
          (session_stats_reset (st\<lparr>st_con := st_con st + 1\<rparr>))
            \<lparr>con_ts := now, st_dcon := s32 (now - dcon_ts st), dcon_ts := now\<rparr>
      | MQTT_BROKER_SUBSCRIBE_ACK \<Rightarrow> st\<lparr>st_sub_ack := st_sub_ack st + 1\<rparr>
      | MQTT_BROKER_PUBLISH_ACK \<Rightarrow> st\<lparr>st_pub_ack := st_pub_ack st + 1\<rparr>
      | MQTT_BROKER_RX_MSG \<Rightarrow> st\<lparr>st_rx := st_rx st + 1\<rparr>
      | MQTT_BROKER_ERROR \<Rightarrow> st\<lparr>st_err := st_err st + 1\<rparr>
      | _ \<Rightarrow> st)"

text \<open>\<open>transport_stats_get\<close>: the values reported and the time stamps it moves.\<close>

definition transport_stats_get :: "int \<Rightarrow> transport_stats_t \<Rightarrow> transport_stats_t \<times> transport_stats_t" where
  "transport_stats_get now st =
     (if con_ts st - dcon_ts st > 0
      then let st1 = st\<lparr>con_ts := now\<rparr>
           in (st1\<lparr>st_con_s := c_div (now - con_ts st) 1000,
                   st_dcon_s := c_div (con_ts st1 - dcon_ts st1) 1000\<rparr>, st1)
      else let st1 = st\<lparr>dcon_ts := now\<rparr>
           in (st1\<lparr>st_con_s := 0, st_dcon_s := c_div (now - dcon_ts st) 1000\<rparr>, st1))"

section \<open>transport\_timer.c and the work items\<close>

definition transport_pub_timer_start :: "'q transport \<Rightarrow> 'q transport" where
  "transport_pub_timer_start s = s\<lparr>pub_timer := True\<rparr>"

definition transport_pub_timer_stop :: "'q transport \<Rightarrow> 'q transport" where
  "transport_pub_timer_stop s = s\<lparr>pub_timer := False\<rparr>"

definition CONNECT_TO_BROKER_DELAY_SECS :: nat where "CONNECT_TO_BROKER_DELAY_SECS = 10"
definition RECONNECTION_TIMEOUT_SECONDS :: nat where "RECONNECTION_TIMEOUT_SECONDS = 30"

section \<open>Callbacks of the MQTT helper\<close>

definition transport_fsm_msg_published :: "'q tenv \<Rightarrow> nat \<Rightarrow> int \<Rightarrow> 'q transport \<Rightarrow> 'q transport" where
  "transport_fsm_msg_published E msg_id result s =
     (let s1 = transport_pub_timer_stop s
      in s1\<lparr>tr_queue := snd (transport_queue_remove (e_ops E) (tr_queue s1))\<rparr>)"

definition count_event :: "'q tenv \<Rightarrow> mqtt_events \<Rightarrow> 'q transport \<Rightarrow> 'q transport" where
  "count_event E e s = s\<lparr>tr_stats := transport_stats e (e_now E) (tr_stats s)\<rparr>"

definition on_mqtt_cb :: "'q tenv \<Rightarrow> mqtt_cb \<Rightarrow> 'q transport \<Rightarrow> 'q transport" where
  "on_mqtt_cb E c s =
     (case c of
        Cb_connack accepted \<Rightarrow>
          (let e = (if accepted then MQTT_BROKER_CONNECT_TO_BROKER_SUCCESS
                    else MQTT_BROKER_CONNECT_TO_BROKER_FAIL)
           in (count_event E e s)\<lparr>fs_mqtt_event := e\<rparr>)
      | Cb_disconnect r \<Rightarrow>
          (count_event E MQTT_BROKER_DISCONNECTED s)\<lparr>fs_mqtt_event := MQTT_BROKER_DISCONNECTED\<rparr>
      | Cb_publish t p \<Rightarrow> (count_event E MQTT_BROKER_RX_MSG s)\<lparr>tr_received := tr_received s @ [(t, p)]\<rparr>
      | Cb_puback i r \<Rightarrow>
          transport_fsm_msg_published E i r
            (count_event E (if r = 0 then MQTT_BROKER_PUBLISH_ACK else MQTT_BROKER_PUBLISH_FAIL) s)
      | Cb_suback i r \<Rightarrow>
          (if i = fs_last_message_id s \<and> r = 0
           then (count_event E MQTT_BROKER_SUBSCRIBE_ACK s)\<lparr>fs_mqtt_event := MQTT_BROKER_SUBSCRIBE_ACK\<rparr>
           else if r \<noteq> 0
           then (count_event E MQTT_BROKER_SUBSCRIBE_FAIL s)\<lparr>fs_mqtt_event := MQTT_BROKER_SUBSCRIBE_FAIL\<rparr>
           else s)
      | Cb_pingresp \<Rightarrow> s
      | Cb_error \<Rightarrow> count_event E MQTT_BROKER_ERROR s)"

text \<open>The callbacks a helper call has made are delivered to the transport.\<close>

definition helper_done :: "'q tenv \<Rightarrow> mqtt_helper \<Rightarrow> 'q transport \<Rightarrow> 'q transport" where
  "helper_done E h s =
     fold (on_mqtt_cb E) (drop (length (mh_cbs (tr_helper s))) (mh_cbs h)) (s\<lparr>tr_helper := h\<rparr>)"

text \<open>An event delivered by the library from the poll thread.\<close>

definition library_event :: "'q tenv \<Rightarrow> mqtt_evt \<Rightarrow> 'q action" where
  "library_event E e s =
     (case mqtt_evt_handler (e_buflen E) e (tr_helper s) of
        None \<Rightarrow> None | Some h \<Rightarrow> Some (helper_done E h s))"

definition disconnect_helper :: "'q tenv \<Rightarrow> 'q action" where
  "disconnect_helper E s =
     (case mqtt_helper_disconnect (e_buflen E) (e_disc_ret E) (e_disc_evts E) (tr_helper s) of
        None \<Rightarrow> None | Some (r, h) \<Rightarrow> Some (helper_done E h s))"

section \<open>transport\_fsm.c: entry and exit actions\<close>

definition throw_status :: "transport_status \<Rightarrow> 'q transport \<Rightarrow> 'q transport" where
  "throw_status x s = s\<lparr>tr_status := tr_status s @ [x]\<rparr>"

definition network_disconnected_entry :: "'q action" where
  "network_disconnected_entry s =
     Some (throw_status STATUS_DISCONNECTED
       ((transport_pub_timer_stop (s\<lparr>connect_work := None, subscribe_work := None\<rparr>))
          \<lparr>fs_network_event := NETWORK_NO_EVENT, fs_mqtt_event := MQTT_BROKER_NO_EVENT\<rparr>))"

definition connecting_to_broker_entry :: "'q tenv \<Rightarrow> 'q action" where
  "connecting_to_broker_entry E s =
     (case transport_queue_clear (e_ops E) (tr_queue s) of
        None \<Rightarrow> None
      | Some q \<Rightarrow>
          Some ((throw_status STATUS_DISCONNECTED
                  (transport_pub_timer_stop (s\<lparr>subscribe_work := None, tr_queue := q\<rparr>)))
                 \<lparr>connect_work := Some CONNECT_TO_BROKER_DELAY_SECS\<rparr>))"

definition connected_subscribing_entry :: "'q action" where
  "connected_subscribing_entry s = Some (s\<lparr>subscribe_work := Some 5\<rparr>)"

definition connected_subscribing_exit :: "'q action" where
  "connected_subscribing_exit s = Some (s\<lparr>subscribe_work := None\<rparr>)"

definition connected_publishing_entry :: "'q action" where
  "connected_publishing_entry s = Some (throw_status STATUS_READY s)"

definition connected_publishing_exit :: "'q action" where
  "connected_publishing_exit s = Some (transport_pub_timer_stop s)"

text \<open>The state table, and \<open>transport_state_change\<close> which hands it to the framework.\<close>

definition state_entry :: "'q tenv \<Rightarrow> module_state \<Rightarrow> 'q action" where
  "state_entry E st =
     (case st of
        MQTT_NETWORK_DISCONNECTED \<Rightarrow> network_disconnected_entry
      | MQTT_CONNECTING_TO_BROKER \<Rightarrow> connecting_to_broker_entry E
      | MQTT_CONNECTED_SUBSCRIBING \<Rightarrow> connected_subscribing_entry
      | MQTT_CONNECTED_PUBLISHING \<Rightarrow> connected_publishing_entry)"

definition state_exit :: "module_state \<Rightarrow> 'q action" where
  "state_exit st =
     (case st of
        MQTT_NETWORK_DISCONNECTED \<Rightarrow> Some
      | MQTT_CONNECTING_TO_BROKER \<Rightarrow> Some
      | MQTT_CONNECTED_SUBSCRIBING \<Rightarrow> connected_subscribing_exit
      | MQTT_CONNECTED_PUBLISHING \<Rightarrow> connected_publishing_exit)"

definition transport_state_change :: "'q tenv \<Rightarrow> module_state \<Rightarrow> 'q action" where
  "transport_state_change E new s = e_smf E (state_exit (fs_current s)) (state_entry E new) new s"

text \<open>\<open>transport_fsm_init\<close>: the framework enters the initial state.\<close>

definition transport_fsm_init :: "'q action" where
  "transport_fsm_init s = network_disconnected_entry (s\<lparr>fs_current := MQTT_NETWORK_DISCONNECTED\<rparr>)"

section \<open>transport\_fsm.c: run actions\<close>

definition clear_network :: "'q transport \<Rightarrow> 'q transport" where
  "clear_network s = s\<lparr>fs_network_event := NETWORK_NO_EVENT\<rparr>"

definition clear_mqtt :: "'q transport \<Rightarrow> 'q transport" where
  "clear_mqtt s = s\<lparr>fs_mqtt_event := MQTT_BROKER_NO_EVENT\<rparr>"

definition network_disconnected_run :: "'q tenv \<Rightarrow> 'q action" where
  "network_disconnected_run E s =
     map_option clear_network
       (case fs_network_event s of
          NETWORK_NO_EVENT \<Rightarrow> Some s
        | NETWORK_DISCONNECTED \<Rightarrow> transport_state_change E MQTT_NETWORK_DISCONNECTED s
        | NETWORK_CONNECTED_WITH_IP \<Rightarrow> transport_state_change E MQTT_CONNECTING_TO_BROKER s)"

definition connecting_to_broker_run :: "'q tenv \<Rightarrow> 'q action" where
  "connecting_to_broker_run E s =
     (case (case fs_network_event s of
              NETWORK_NO_EVENT \<Rightarrow> Some s
            | NETWORK_CONNECTED_WITH_IP \<Rightarrow> transport_state_change E MQTT_CONNECTING_TO_BROKER (clear_mqtt s)
            | NETWORK_DISCONNECTED \<Rightarrow> transport_state_change E MQTT_NETWORK_DISCONNECTED (clear_mqtt s)) of
        None \<Rightarrow> None
      | Some s0 \<Rightarrow>
          let s1 = clear_network s0 in
          map_option clear_mqtt
            (case fs_mqtt_event s1 of
               MQTT_BROKER_DISCONNECTED \<Rightarrow> Some (s1\<lparr>connect_work := Some 15\<rparr>)
             | MQTT_BROKER_CONNECT_TO_BROKER_FAIL \<Rightarrow> Some (s1\<lparr>connect_work := Some 15\<rparr>)
             | MQTT_BROKER_CONNECT_TO_BROKER_SUCCESS \<Rightarrow>
                 transport_state_change E MQTT_CONNECTED_SUBSCRIBING (s1\<lparr>connect_work := None\<rparr>)
             | MQTT_BROKER_SUBSCRIBE_FAIL \<Rightarrow> Some (s1\<lparr>connect_work := Some 15\<rparr>)
             | MQTT_BROKER_SUBSCRIBE_ACK \<Rightarrow> Some (s1\<lparr>connect_work := Some 15\<rparr>)
             | _ \<Rightarrow> Some s1))"

definition connected_subscribing_run :: "'q tenv \<Rightarrow> 'q action" where
  "connected_subscribing_run E s =
     (case (case fs_network_event s of
              NETWORK_NO_EVENT \<Rightarrow> Some s
            | NETWORK_CONNECTED_WITH_IP \<Rightarrow> transport_state_change E MQTT_CONNECTING_TO_BROKER (clear_mqtt s)
            | NETWORK_DISCONNECTED \<Rightarrow>
                Option.bind (disconnect_helper E (clear_mqtt (clear_network s)))
                  (transport_state_change E MQTT_NETWORK_DISCONNECTED)) of
        None \<Rightarrow> None
      | Some s0 \<Rightarrow>
          let s1 = clear_network s0 in
          map_option clear_mqtt
            (case fs_mqtt_event s1 of
               MQTT_BROKER_DISCONNECTED \<Rightarrow> transport_state_change E MQTT_CONNECTING_TO_BROKER s1
             | MQTT_BROKER_CONNECT_TO_BROKER_FAIL \<Rightarrow> transport_state_change E MQTT_CONNECTING_TO_BROKER s1
             | MQTT_BROKER_SUBSCRIBE_FAIL \<Rightarrow> Some (s1\<lparr>subscribe_work := Some 5\<rparr>)
             | MQTT_BROKER_SUBSCRIBE_ACK \<Rightarrow> transport_state_change E MQTT_CONNECTED_PUBLISHING s1
             | _ \<Rightarrow> Some s1))"

text \<open>
  \<open>msg_publish\<close> reads topic and payload through the pointers of the queued message. The message id is
  the low half of the up-time.
\<close>

definition msg_publish :: "'q tenv \<Rightarrow> transport_msg \<Rightarrow> 'q transport \<Rightarrow> (int \<times> 'q transport) option" where
  "msg_publish E msg s =
     (case (heap (tr_queue s) (tm_topic msg), heap (tr_queue s) (tm_payload msg)) of
        (Some t, Some p) \<Rightarrow>
          (let (err, h) = mqtt_helper_publish t p (tm_qos msg) (nat (e_now E mod 2 ^ 16)) (e_pub_ret E)
                            (tr_helper s)
           in Some (if err \<noteq> 0 then - 1 else 0, s\<lparr>tr_helper := h\<rparr>))
      | _ \<Rightarrow> None)"

definition remove_first :: "'q tenv \<Rightarrow> 'q transport \<Rightarrow> 'q transport" where
  "remove_first E s = s\<lparr>tr_queue := snd (transport_queue_remove (e_ops E) (tr_queue s))\<rparr>"

definition service_transport_msg_queue :: "'q tenv \<Rightarrow> 'q action" where
  "service_transport_msg_queue E s =
     (if transport_queue_pending (e_ops E) (tr_queue s) > 0 \<and> \<not> pub_timer s
      then (case transport_queue_peek (e_ops E) (tr_queue s) of
              (_, None) \<Rightarrow> Some s
            | (_, Some msg) \<Rightarrow>
                (case msg_publish E msg s of
                   None \<Rightarrow> None
                 | Some (err, s1) \<Rightarrow>
                     Some (if err \<noteq> 0 then remove_first E s1
                           else if tm_qos msg = 0 then remove_first E s1
                           else transport_pub_timer_start s1)))
      else Some s)"

definition connected_publishing_run :: "'q tenv \<Rightarrow> 'q action" where
  "connected_publishing_run E s =
     (case (case fs_network_event s of
              NETWORK_DISCONNECTED \<Rightarrow>
                map_option (Pair False)
                  (Option.bind (disconnect_helper E (clear_mqtt s))
                    (transport_state_change E MQTT_NETWORK_DISCONNECTED))
            | _ \<Rightarrow> Some (True, s)) of
        None \<Rightarrow> None
      | Some (service1, s0) \<Rightarrow>
          let s1 = clear_network s0 in
          case (if fs_mqtt_event s1 \<in> {MQTT_BROKER_DISCONNECTED, MQTT_BROKER_CONNECT_TO_BROKER_FAIL,
                  MQTT_BROKER_CONNECT_TO_BROKER_SUCCESS, MQTT_BROKER_SUBSCRIBE_FAIL}
                then map_option (Pair False) (transport_state_change E MQTT_CONNECTING_TO_BROKER s1)
                else Some (service1, s1)) of
            None \<Rightarrow> None
          | Some (service, s2) \<Rightarrow>
              if service then service_transport_msg_queue E (clear_mqtt s2) else Some (clear_mqtt s2))"

definition state_run :: "'q tenv \<Rightarrow> module_state \<Rightarrow> 'q action" where
  "state_run E st =
     (case st of
        MQTT_NETWORK_DISCONNECTED \<Rightarrow> network_disconnected_run E
      | MQTT_CONNECTING_TO_BROKER \<Rightarrow> connecting_to_broker_run E
      | MQTT_CONNECTED_SUBSCRIBING \<Rightarrow> connected_subscribing_run E
      | MQTT_CONNECTED_PUBLISHING \<Rightarrow> connected_publishing_run E)"

definition transport_fsm_run :: "'q tenv \<Rightarrow> 'q action" where
  "transport_fsm_run E s = (if is_mqtt_active s then state_run E (fs_current s) s else Some s)"

definition transport_state_ready :: "'q transport \<Rightarrow> bool" where
  "transport_state_ready s \<longleftrightarrow> fs_current s = MQTT_CONNECTED_PUBLISHING"

text \<open>The one-shot publish timer fires.\<close>

definition transport_fsm_timer_expired :: "'q tenv \<Rightarrow> 'q transport \<Rightarrow> 'q transport" where
  "transport_fsm_timer_expired E s = remove_first E (transport_pub_timer_stop s)"

section \<open>Work handlers\<close>

text \<open>
  The connect work: \<open>addrs\<close>, \<open>conn_ret\<close> and \<open>evts\<close> are the answers of resolver and library. The last
  will is created, ten seconds pass, and whatever the outcome the work is scheduled again.
\<close>

definition connect_work_fn ::
  "'q tenv \<Rightarrow> int + (bool \<times> nat) list \<Rightarrow> int \<Rightarrow> mqtt_evt list \<Rightarrow> 'q action" where
  "connect_work_fn E addrs conn_ret evts s =
     (case mqtt_helper_connect (e_buflen E) addrs conn_ret evts (tr_helper s) of
        None \<Rightarrow> None
      | Some (err, h) \<Rightarrow>
          map_option (\<lambda>s2. s2\<lparr>connect_work := Some RECONNECTION_TIMEOUT_SECONDS\<rparr>)
            (let s1 = helper_done E h (s\<lparr>connect_work := None\<rparr>)
             in if err = - EOPNOTSUPP then disconnect_helper E s1 else Some s1))"

definition transport_subscribe :: "string list \<Rightarrow> nat \<Rightarrow> int \<Rightarrow> 'q transport \<Rightarrow> 'q transport" where
  "transport_subscribe topics message_id sub_ret s =
     (let (err, h) = mqtt_helper_subscribe topics message_id sub_ret (tr_helper s);
          s1 = s\<lparr>tr_helper := h\<rparr>
      in if err \<noteq> 0 then s1 else s1\<lparr>fs_last_message_id := message_id\<rparr>)"

definition subscribe_work_fn :: "string list \<Rightarrow> nat \<Rightarrow> int \<Rightarrow> 'q transport \<Rightarrow> 'q transport" where
  "subscribe_work_fn topics message_id sub_ret s =
     transport_subscribe topics message_id sub_ret (s\<lparr>subscribe_work := None\<rparr>)"

section \<open>transport.c, transport\_event\_handler.c, transport\_client\_id.c\<close>

definition MQTT_TOPIC_STRING_MAX_SIZE :: nat where "MQTT_TOPIC_STRING_MAX_SIZE = 64"
definition MQTT_PAYLOAD_STRING_MAX_SIZE :: nat where "MQTT_PAYLOAD_STRING_MAX_SIZE = 2548"

definition transport_publish ::
  "('q, transport_msg) msgq_ops \<Rightarrow> alloc \<Rightarrow> string option \<Rightarrow> string option \<Rightarrow> nat \<Rightarrow> 'q transport
     \<Rightarrow> int \<times> 'q transport" where
  "transport_publish ops alloc topic payload qos s =
     (case topic of None \<Rightarrow> (- EINVAL, s) | Some t \<Rightarrow>
      case payload of None \<Rightarrow> (- EINVAL, s) | Some p \<Rightarrow>
      if transport_state_ready s
      then if length t \<ge> MQTT_TOPIC_STRING_MAX_SIZE then (- 1, s)
           else if length p \<ge> MQTT_PAYLOAD_STRING_MAX_SIZE then (- 1, s)
           else let (err, q) = transport_queue_add ops alloc (Some t) (Some p)
                                 (if qos > 1 then 1 else qos) (tr_queue s)
                in (if err \<noteq> 0 then - 1 else 0, s\<lparr>tr_queue := q\<rparr>)
      else (- 1, s))"

text \<open>
  The Wi-Fi and power events; the images use DHCP, so a mere connection counts as disconnected until an
  address arrives. Any other event is an assertion failure.
\<close>

datatype app_event = Power_status nat | Wifi_status string | Other_event

definition transport_wifi_event_handler :: "app_event \<Rightarrow> 'q action" where
  "transport_wifi_event_handler ev s =
     (case ev of
        Power_status n \<Rightarrow> Some s
      | Wifi_status st \<Rightarrow>
          Some (s\<lparr>fs_network_event :=
                    (if st = ''ip acquired'' then NETWORK_CONNECTED_WITH_IP
                     else if st = ''disconnected'' then NETWORK_DISCONNECTED
                     else if st = ''connected'' then NETWORK_DISCONNECTED
                     else NETWORK_DISCONNECTED)\<rparr>)
      | Other_event \<Rightarrow> None)"

text \<open>
  \<open>client_id_init\<close>: \<open>configured\<close> is the Kconfig string, \<open>hw\<close> the outcome of \<open>id_get\<close> (error code, or the
  id). The result is the buffer content and the length kept for the connection request.
\<close>

definition client_id_init :: "nat \<Rightarrow> string \<Rightarrow> int + string \<Rightarrow> string \<times> int" where
  "client_id_init bufsize configured hw =
     (if length configured > 0
      then (take (bufsize - 1) configured,
            if length configured \<ge> bufsize then 0 else int (length configured))
      else (case hw of Inl err \<Rightarrow> ([], err) | Inr i \<Rightarrow> (i, 0)))"

section \<open>The steps of the transport\<close>

text \<open>
  What the environment answers during one step, and the steps: a pass of the transport thread, an event
  from the library, a publish request, the timer, the two work items (each only when it is pending), an
  application event. \<open>None\<close> absorbs.
\<close>

record answers =
  a_now :: int
  a_disc_ret :: int
  a_disc_evts :: "mqtt_evt list"
  a_pub_ret :: int

definition with_answers :: "answers \<Rightarrow> 'q tenv \<Rightarrow> 'q tenv" where
  "with_answers a E =
     E\<lparr>e_now := a_now a, e_disc_ret := a_disc_ret a, e_disc_evts := a_disc_evts a, e_pub_ret := a_pub_ret a\<rparr>"

datatype transport_step =
    Step_run
  | Step_library mqtt_evt
  | Step_publish "string option" "string option" nat
  | Step_timer
  | Step_connect "int + (bool \<times> nat) list" int "mqtt_evt list"
  | Step_subscribe "string list" nat int
  | Step_app app_event

definition transport_do :: "'q tenv \<Rightarrow> alloc \<Rightarrow> transport_step \<Rightarrow> 'q action" where
  "transport_do E alloc st s =
     (case st of
        Step_run \<Rightarrow> transport_fsm_run E s
      | Step_library e \<Rightarrow> library_event E e s
      | Step_publish t p qos \<Rightarrow> Some (snd (transport_publish (e_ops E) alloc t p qos s))
      | Step_timer \<Rightarrow> Some (if pub_timer s then transport_fsm_timer_expired E s else s)
      | Step_connect addrs r evts \<Rightarrow>
          (if connect_work s = None then Some s else connect_work_fn E addrs r evts s)
      | Step_subscribe topics mid r \<Rightarrow>
          Some (if subscribe_work s = None then s else subscribe_work_fn topics mid r s)
      | Step_app ev \<Rightarrow> transport_wifi_event_handler ev s)"

definition transport_step ::
  "'q tenv \<Rightarrow> alloc \<Rightarrow> answers \<times> transport_step \<Rightarrow> 'q transport option \<Rightarrow> 'q transport option" where
  "transport_step E alloc ast s = Option.bind s (transport_do (with_answers (fst ast) E) alloc (snd ast))"

definition transport_boot :: "'q \<Rightarrow> 'q transport" where
  "transport_boot q0 =
     \<lparr>fs_current = MQTT_NETWORK_DISCONNECTED, fs_network_event = NETWORK_NO_EVENT,
      fs_mqtt_event = MQTT_BROKER_NO_EVENT, fs_last_message_id = 0, is_mqtt_active = True,
      connect_work = None, subscribe_work = None, pub_timer = False,
      tr_queue = \<lparr>transport_msgq = q0, heap = Map.empty\<rparr>, tr_status = [], tr_received = [],
      tr_helper = mh_boot\<lparr>mh_state := MQTT_STATE_DISCONNECTED, mh_cfg := True\<rparr>,
      tr_stats = \<lparr>st_con = 0, st_dcon = 0, st_con_s = 0, st_dcon_s = 0, st_con_fail = 0, st_sub_ack = 0,
        st_sub_fail = 0, st_pub_ack = 0, st_pub_fail = 0, st_rx = 0, st_err = 0, con_ts = 0, dcon_ts = 0\<rparr>\<rparr>"

section \<open>The invariant of the transport\<close>

text \<open>
  A subscription is scheduled only while subscribing, a connection attempt only while connecting; the
  publish timer runs only while publishing and only for a queued message; the modules were last told
  READY exactly when the machine is in the publishing state; the message queue keeps its own invariant.
\<close>

definition tinv :: "('q \<Rightarrow> transport_msg list) \<Rightarrow> 'q transport \<Rightarrow> bool" where
  "tinv items s \<longleftrightarrow>
     heap_ok items (tr_queue s)
     \<and> (subscribe_work s \<noteq> None \<longrightarrow> fs_current s = MQTT_CONNECTED_SUBSCRIBING)
     \<and> (connect_work s \<noteq> None \<longrightarrow> fs_current s = MQTT_CONNECTING_TO_BROKER)
     \<and> (pub_timer s \<longrightarrow> fs_current s = MQTT_CONNECTED_PUBLISHING \<and> contents items (tr_queue s) \<noteq> [])
     \<and> tr_status s \<noteq> []
     \<and> (last (tr_status s) = STATUS_READY \<longleftrightarrow> fs_current s = MQTT_CONNECTED_PUBLISHING)"

locale transport_env = transport_heap "e_ops E" cap items alloc
  for E :: "'q tenv" and cap :: nat and items :: "'q \<Rightarrow> transport_msg list" and alloc :: alloc +
  assumes framework: "smf_ok (e_smf E)"
begin

lemma change: "transport_state_change E new s =
    Option.bind (state_exit (fs_current s) s) (\<lambda>s1. state_entry E new (s1\<lparr>fs_current := new\<rparr>))"
  using framework by (simp add: transport_state_change_def smf_ok_def)

lemma to_network_disconnected:
  "transport_state_change E MQTT_NETWORK_DISCONNECTED s =
     Some (s\<lparr>fs_current := MQTT_NETWORK_DISCONNECTED, connect_work := None, subscribe_work := None,
             pub_timer := False, fs_network_event := NETWORK_NO_EVENT,
             fs_mqtt_event := MQTT_BROKER_NO_EVENT, tr_status := tr_status s @ [STATUS_DISCONNECTED]\<rparr>)"
  by (cases "fs_current s")
    (simp_all add: change state_exit_def state_entry_def network_disconnected_entry_def throw_status_def
      transport_pub_timer_stop_def connected_subscribing_exit_def connected_publishing_exit_def)

lemma to_connecting:
  assumes "heap_ok items (tr_queue s)"
  shows "\<exists>q. transport_state_change E MQTT_CONNECTING_TO_BROKER s =
     Some (s\<lparr>fs_current := MQTT_CONNECTING_TO_BROKER, connect_work := Some CONNECT_TO_BROKER_DELAY_SECS,
             subscribe_work := None, pub_timer := False, tr_queue := q,
             tr_status := tr_status s @ [STATUS_DISCONNECTED]\<rparr>)
     \<and> heap_ok items q \<and> contents items q = []"
proof -
  obtain q where "transport_queue_clear (e_ops E) (tr_queue s) = Some q" "heap_ok items q"
    "contents items q = []" using clear_ok [OF assms] by blast
  then show ?thesis
    by (cases "fs_current s"; intro exI [of _ q])
      (simp_all add: change state_exit_def state_entry_def connecting_to_broker_entry_def throw_status_def
        transport_pub_timer_stop_def connected_subscribing_exit_def connected_publishing_exit_def)
qed

lemma to_subscribing:
  "fs_current s = MQTT_CONNECTING_TO_BROKER \<Longrightarrow>
   transport_state_change E MQTT_CONNECTED_SUBSCRIBING s =
     Some (s\<lparr>fs_current := MQTT_CONNECTED_SUBSCRIBING, subscribe_work := Some 5\<rparr>)"
  by (simp add: change state_exit_def state_entry_def connected_subscribing_entry_def)

lemma to_publishing:
  "fs_current s = MQTT_CONNECTED_SUBSCRIBING \<Longrightarrow>
   transport_state_change E MQTT_CONNECTED_PUBLISHING s =
     Some (s\<lparr>fs_current := MQTT_CONNECTED_PUBLISHING, subscribe_work := None,
             tr_status := tr_status s @ [STATUS_READY]\<rparr>)"
  by (simp add: change state_exit_def state_entry_def connected_subscribing_exit_def
      connected_publishing_entry_def throw_status_def)

text \<open>What a callback of the helper leaves alone.\<close>

definition cb_keeps :: "'q transport \<Rightarrow> 'q transport \<Rightarrow> bool" where
  "cb_keeps s s' \<longleftrightarrow>
     fs_current s' = fs_current s \<and> fs_network_event s' = fs_network_event s
     \<and> connect_work s' = connect_work s \<and> subscribe_work s' = subscribe_work s
     \<and> is_mqtt_active s' = is_mqtt_active s \<and> tr_status s' = tr_status s
     \<and> heap_ok items (tr_queue s')
     \<and> (pub_timer s' \<longrightarrow> pub_timer s \<and> contents items (tr_queue s') = contents items (tr_queue s))"

lemma cb_keeps_tinv: "tinv items s \<Longrightarrow> cb_keeps s s' \<Longrightarrow> tinv items s'"
  by (auto simp: tinv_def cb_keeps_def)

lemma on_mqtt_cb_keeps: "heap_ok items (tr_queue s) \<Longrightarrow> cb_keeps s (on_mqtt_cb E c s)"
  using remove_ok [of "tr_queue s"]
  by (auto simp: on_mqtt_cb_def cb_keeps_def count_event_def transport_fsm_msg_published_def
      transport_pub_timer_stop_def Let_def split: mqtt_cb.split)

lemma fold_cb_keeps: "heap_ok items (tr_queue s) \<Longrightarrow> cb_keeps s (fold (on_mqtt_cb E) cs s)"
proof (induction cs arbitrary: s)
  case Nil
  then show ?case by (simp add: cb_keeps_def)
next
  case (Cons c cs)
  have k: "cb_keeps s (on_mqtt_cb E c s)" by (rule on_mqtt_cb_keeps [OF Cons.prems])
  then have "cb_keeps (on_mqtt_cb E c s) (fold (on_mqtt_cb E) cs (on_mqtt_cb E c s))"
    by (intro Cons.IH) (simp add: cb_keeps_def)
  with k show ?case by (auto simp: cb_keeps_def)
qed

lemma helper_done_keeps: "heap_ok items (tr_queue s) \<Longrightarrow> cb_keeps s (helper_done E h s)"
  using fold_cb_keeps [of "s\<lparr>tr_helper := h\<rparr>"] by (simp add: helper_done_def cb_keeps_def)

lemma disconnect_helper_keeps:
  "heap_ok items (tr_queue s) \<Longrightarrow> disconnect_helper E s = Some s' \<Longrightarrow> cb_keeps s s'"
  by (auto simp: disconnect_helper_def helper_done_keeps split: option.splits)

section \<open>Transitions\<close>

lemma network_disconnected_run_next:
  assumes "tinv items s" and "fs_current s = MQTT_NETWORK_DISCONNECTED"
    and "network_disconnected_run E s = Some s'"
  shows "tinv items s' \<and> fs_network_event s' = NETWORK_NO_EVENT
    \<and> fs_current s' = (if fs_network_event s = NETWORK_CONNECTED_WITH_IP
                       then MQTT_CONNECTING_TO_BROKER else MQTT_NETWORK_DISCONNECTED)"
proof -
  have h: "heap_ok items (tr_queue s)" using assms(1) by (simp add: tinv_def)
  show ?thesis
  proof (cases "fs_network_event s")
    case NETWORK_CONNECTED_WITH_IP
    then show ?thesis using assms to_connecting [OF h]
      by (auto simp: network_disconnected_run_def clear_network_def tinv_def)
  qed (use assms in \<open>auto simp: network_disconnected_run_def clear_network_def tinv_def
        to_network_disconnected\<close>)
qed

lemma connecting_to_broker_run_next:
  assumes "tinv items s" and "fs_current s = MQTT_CONNECTING_TO_BROKER"
    and "connecting_to_broker_run E s = Some s'"
  shows "tinv items s' \<and> fs_network_event s' = NETWORK_NO_EVENT \<and> fs_mqtt_event s' = MQTT_BROKER_NO_EVENT
    \<and> fs_current s' =
        (case fs_network_event s of
           NETWORK_DISCONNECTED \<Rightarrow> MQTT_NETWORK_DISCONNECTED
         | NETWORK_CONNECTED_WITH_IP \<Rightarrow> MQTT_CONNECTING_TO_BROKER
         | NETWORK_NO_EVENT \<Rightarrow>
             if fs_mqtt_event s = MQTT_BROKER_CONNECT_TO_BROKER_SUCCESS then MQTT_CONNECTED_SUBSCRIBING
             else MQTT_CONNECTING_TO_BROKER)"
proof -
  have h: "heap_ok items (tr_queue s)" using assms(1) by (simp add: tinv_def)
  show ?thesis
  proof (cases "fs_network_event s")
    case NETWORK_CONNECTED_WITH_IP
    then show ?thesis using assms to_connecting [of "clear_mqtt s"] h
      by (auto simp: connecting_to_broker_run_def clear_network_def clear_mqtt_def tinv_def Let_def)
  next
    case NETWORK_DISCONNECTED
    then show ?thesis using assms
      by (auto simp: connecting_to_broker_run_def clear_network_def clear_mqtt_def tinv_def Let_def
          to_network_disconnected)
  next
    case NETWORK_NO_EVENT
    then show ?thesis using assms
      by (cases "fs_mqtt_event s")
        (auto simp: connecting_to_broker_run_def clear_network_def clear_mqtt_def tinv_def Let_def
          to_subscribing)
  qed
qed

lemma connected_subscribing_run_next:
  assumes "tinv items s" and "fs_current s = MQTT_CONNECTED_SUBSCRIBING"
    and "connected_subscribing_run E s = Some s'"
  shows "tinv items s' \<and> fs_network_event s' = NETWORK_NO_EVENT \<and> fs_mqtt_event s' = MQTT_BROKER_NO_EVENT
    \<and> fs_current s' =
        (case fs_network_event s of
           NETWORK_DISCONNECTED \<Rightarrow> MQTT_NETWORK_DISCONNECTED
         | NETWORK_CONNECTED_WITH_IP \<Rightarrow> MQTT_CONNECTING_TO_BROKER
         | NETWORK_NO_EVENT \<Rightarrow>
             if fs_mqtt_event s = MQTT_BROKER_SUBSCRIBE_ACK then MQTT_CONNECTED_PUBLISHING
             else if fs_mqtt_event s \<in> {MQTT_BROKER_DISCONNECTED, MQTT_BROKER_CONNECT_TO_BROKER_FAIL}
             then MQTT_CONNECTING_TO_BROKER
             else MQTT_CONNECTED_SUBSCRIBING)"
proof -
  have h: "heap_ok items (tr_queue s)" using assms(1) by (simp add: tinv_def)
  show ?thesis
  proof (cases "fs_network_event s")
    case NETWORK_CONNECTED_WITH_IP
    then show ?thesis using assms to_connecting [of "clear_mqtt s"] h
      by (auto simp: connected_subscribing_run_def clear_network_def clear_mqtt_def tinv_def Let_def)
  next
    case NETWORK_DISCONNECTED
    then obtain s1 where s1: "disconnect_helper E (clear_mqtt (clear_network s)) = Some s1"
      using assms(3) by (cases "disconnect_helper E (clear_mqtt (clear_network s))")
        (auto simp: connected_subscribing_run_def)
    have "cb_keeps (clear_mqtt (clear_network s)) s1"
      by (rule disconnect_helper_keeps [OF _ s1]) (simp add: clear_mqtt_def clear_network_def h)
    then have "heap_ok items (tr_queue s1)" by (simp add: cb_keeps_def)
    then show ?thesis using NETWORK_DISCONNECTED assms s1
      by (auto simp: connected_subscribing_run_def clear_network_def clear_mqtt_def tinv_def Let_def
          to_network_disconnected)
  next
    case NETWORK_NO_EVENT
    let ?s = "s\<lparr>fs_network_event := NETWORK_NO_EVENT\<rparr>"
    obtain q where q: "transport_state_change E MQTT_CONNECTING_TO_BROKER ?s =
        Some (?s\<lparr>fs_current := MQTT_CONNECTING_TO_BROKER, connect_work := Some CONNECT_TO_BROKER_DELAY_SECS,
             subscribe_work := None, pub_timer := False, tr_queue := q,
             tr_status := tr_status s @ [STATUS_DISCONNECTED]\<rparr>)" "heap_ok items q" "contents items q = []"
      using to_connecting [of ?s] h by auto
    show ?thesis using assms NETWORK_NO_EVENT q
      by (cases "fs_mqtt_event s")
        (auto simp: connected_subscribing_run_def clear_network_def clear_mqtt_def tinv_def Let_def
          to_publishing)
  qed
qed

text \<open>
  Servicing the queue in the publishing state: nothing is published while a message awaits its
  acknowledgement; otherwise the first message is handed to the helper, and it stays queued, with the
  timer running, only if that succeeded and its quality of service asks for an acknowledgement.
\<close>

lemma service_queue:
  assumes "heap_ok items (tr_queue s)"
  shows "\<exists>s'. service_transport_msg_queue E s = Some s' \<and>
    (case contents items (tr_queue s) of
       [] \<Rightarrow> s' = s
     | (t, p, qos) # rest \<Rightarrow>
         if pub_timer s then s' = s
         else (let (err, h) = mqtt_helper_publish t p qos (nat (e_now E mod 2 ^ 16)) (e_pub_ret E) (tr_helper s)
               in tr_helper s' = h
                  \<and> (if err \<noteq> 0 \<or> qos = 0
                     then contents items (tr_queue s') = rest \<and> \<not> pub_timer s' \<and> heap_ok items (tr_queue s')
                     else tr_queue s' = tr_queue s \<and> pub_timer s')
                  \<and> s'\<lparr>tr_helper := tr_helper s, tr_queue := tr_queue s, pub_timer := False\<rparr> = s))"
proof (cases "items (transport_msgq (tr_queue s))")
  case Nil
  then show ?thesis by (simp add: service_transport_msg_queue_def pending_ok contents_def)
next
  case (Cons m ms)
  have live: "heap (tr_queue s) (tm_topic m) \<noteq> None" "heap (tr_queue s) (tm_payload m) \<noteq> None"
    using assms Cons by (auto simp: heap_ok_def dom_def set_eq_iff)
  then obtain t p where tp: "heap (tr_queue s) (tm_topic m) = Some t"
    "heap (tr_queue s) (tm_payload m) = Some p" by auto
  have c: "contents items (tr_queue s) = (t, p, tm_qos m) # List.map (msg_of (heap (tr_queue s))) ms"
    by (simp add: contents_def Cons msg_of_def tp)
  obtain err h where h: "mqtt_helper_publish t p (tm_qos m) (nat (e_now E mod 2 ^ 16)) (e_pub_ret E)
      (tr_helper s) = (err, h)" by fastforce
  show ?thesis
  proof (cases "pub_timer s")
    case True
    then show ?thesis by (simp add: service_transport_msg_queue_def c)
  next
    case False
    have pk: "transport_queue_peek (e_ops E) (tr_queue s) = (0, Some m)" by (simp add: peek_ok Cons)
    have "msg_publish E m s = Some (if err \<noteq> 0 then - 1 else 0, s\<lparr>tr_helper := h\<rparr>)"
      using h tp by (simp add: msg_publish_def)
    then show ?thesis using False pk remove_ok [OF assms] h c
      by (simp add: service_transport_msg_queue_def pending_ok remove_first_def transport_pub_timer_start_def)
  qed
qed

lemma service_queue_inv:
  assumes "tinv items s" and "fs_current s = MQTT_CONNECTED_PUBLISHING"
    and "service_transport_msg_queue E s = Some s'"
  shows "tinv items s' \<and> fs_current s' = fs_current s \<and> fs_network_event s' = fs_network_event s
    \<and> fs_mqtt_event s' = fs_mqtt_event s"
proof -
  have h: "heap_ok items (tr_queue s)" using assms(1) by (simp add: tinv_def)
  have rest: "connect_work s' = connect_work s \<and> subscribe_work s' = subscribe_work s
      \<and> tr_status s' = tr_status s \<and> fs_current s' = fs_current s
      \<and> fs_network_event s' = fs_network_event s \<and> fs_mqtt_event s' = fs_mqtt_event s"
    if "s'\<lparr>tr_helper := x, tr_queue := y, pub_timer := z\<rparr> = s" for x y z
    using that by (cases s; cases s') simp
  show ?thesis
  proof (cases "contents items (tr_queue s)")
    case Nil
    then show ?thesis using service_queue [OF h] assms by auto
  next
    case (Cons m ms)
    obtain t p qos where m: "m = (t, p, qos)" by (cases m)
    obtain err h' where r: "mqtt_helper_publish t p qos (nat (e_now E mod 2 ^ 16)) (e_pub_ret E)
      (tr_helper s) = (err, h')" by fastforce
    show ?thesis
    proof (cases "pub_timer s")
      case True
      then show ?thesis using service_queue [OF h] assms Cons m by auto
    next
      case False
      then have f: "(if err \<noteq> 0 \<or> qos = 0
             then contents items (tr_queue s') = ms \<and> \<not> pub_timer s' \<and> heap_ok items (tr_queue s')
             else tr_queue s' = tr_queue s \<and> pub_timer s')"
        "s'\<lparr>tr_helper := tr_helper s, tr_queue := tr_queue s, pub_timer := False\<rparr> = s"
        using service_queue [OF h] assms(3) Cons m r by auto
      show ?thesis using rest [OF f(2)] f(1) assms(1,2) Cons
        by (auto simp: tinv_def split: if_splits)
    qed
  qed
qed

lemma connected_publishing_run_next:
  assumes "tinv items s" and "fs_current s = MQTT_CONNECTED_PUBLISHING"
    and "connected_publishing_run E s = Some s'"
  shows "tinv items s' \<and> fs_network_event s' = NETWORK_NO_EVENT \<and> fs_mqtt_event s' = MQTT_BROKER_NO_EVENT
    \<and> fs_current s' =
        (if fs_network_event s = NETWORK_DISCONNECTED then MQTT_NETWORK_DISCONNECTED
         else if fs_mqtt_event s \<in> {MQTT_BROKER_DISCONNECTED, MQTT_BROKER_CONNECT_TO_BROKER_FAIL,
                  MQTT_BROKER_CONNECT_TO_BROKER_SUCCESS, MQTT_BROKER_SUBSCRIBE_FAIL}
         then MQTT_CONNECTING_TO_BROKER else MQTT_CONNECTED_PUBLISHING)"
proof -
  have h: "heap_ok items (tr_queue s)" using assms(1) by (simp add: tinv_def)
  show ?thesis
  proof (cases "fs_network_event s = NETWORK_DISCONNECTED")
    case True
    then obtain s1 where s1: "disconnect_helper E (clear_mqtt s) = Some s1"
      using assms(3) by (cases "disconnect_helper E (clear_mqtt s)") (auto simp: connected_publishing_run_def)
    have "cb_keeps (clear_mqtt s) s1"
      by (rule disconnect_helper_keeps [OF _ s1]) (simp add: clear_mqtt_def h)
    then have "heap_ok items (tr_queue s1)" by (simp add: cb_keeps_def)
    then show ?thesis using True assms s1
      by (auto simp: connected_publishing_run_def clear_network_def clear_mqtt_def tinv_def Let_def
          to_network_disconnected)
  next
    case False
    let ?s = "s\<lparr>fs_network_event := NETWORK_NO_EVENT\<rparr>"
    have e: "connected_publishing_run E s =
      (case (if fs_mqtt_event s \<in> {MQTT_BROKER_DISCONNECTED, MQTT_BROKER_CONNECT_TO_BROKER_FAIL,
                  MQTT_BROKER_CONNECT_TO_BROKER_SUCCESS, MQTT_BROKER_SUBSCRIBE_FAIL}
                then map_option (Pair False) (transport_state_change E MQTT_CONNECTING_TO_BROKER ?s)
                else Some (True, ?s)) of
            None \<Rightarrow> None
          | Some (service, s2) \<Rightarrow>
              if service then service_transport_msg_queue E (clear_mqtt s2) else Some (clear_mqtt s2))"
      using False by (cases "fs_network_event s")
        (simp_all add: connected_publishing_run_def clear_network_def Let_def)
    show ?thesis
    proof (cases "fs_mqtt_event s \<in> {MQTT_BROKER_DISCONNECTED, MQTT_BROKER_CONNECT_TO_BROKER_FAIL,
                  MQTT_BROKER_CONNECT_TO_BROKER_SUCCESS, MQTT_BROKER_SUBSCRIBE_FAIL}")
      case True
      obtain q where "transport_state_change E MQTT_CONNECTING_TO_BROKER ?s =
          Some (?s\<lparr>fs_current := MQTT_CONNECTING_TO_BROKER,
             connect_work := Some CONNECT_TO_BROKER_DELAY_SECS,
             subscribe_work := None, pub_timer := False, tr_queue := q,
             tr_status := tr_status s @ [STATUS_DISCONNECTED]\<rparr>)" "heap_ok items q"
        using to_connecting [of ?s] h by auto
      then show ?thesis using True False assms e by (auto simp: clear_mqtt_def tinv_def)
    next
      case other: False
      then have "service_transport_msg_queue E (clear_mqtt ?s) = Some s'" using e assms(3)
        by (simp only: if_False option.case prod.case if_True)
      moreover have "tinv items (clear_mqtt ?s)" "fs_current (clear_mqtt ?s) = MQTT_CONNECTED_PUBLISHING"
        using assms by (simp_all add: tinv_def clear_mqtt_def)
      ultimately show ?thesis using service_queue_inv [of "clear_mqtt ?s" s'] False other assms(2)
        by (simp add: clear_mqtt_def)
    qed
  qed
qed

lemma run_inv: "tinv items s \<Longrightarrow> transport_fsm_run E s = Some s' \<Longrightarrow> tinv items s'"
  using network_disconnected_run_next [of s s'] connecting_to_broker_run_next [of s s']
    connected_subscribing_run_next [of s s'] connected_publishing_run_next [of s s']
  by (cases "fs_current s") (auto simp: transport_fsm_run_def state_run_def split: if_splits)

lemma transport_do_inv:
  assumes "tinv items s" and "transport_do E alloc st s = Some s'"
  shows "tinv items s'"
proof (cases st)
  case Step_run
  then show ?thesis using assms run_inv by (simp add: transport_do_def)
next
  case (Step_library e)
  then show ?thesis using assms helper_done_keeps [of s] cb_keeps_tinv [of s]
    by (auto simp: transport_do_def library_event_def tinv_def split: option.splits)
next
  case (Step_publish t p qos)
  then have "s' = snd (transport_publish (e_ops E) alloc t p qos s)" using assms(2)
    by (simp add: transport_do_def)
  moreover have "tinv items (snd (transport_publish (e_ops E) alloc t p qos s))"
    using assms(1) add_cases [of "tr_queue s" t p "if qos > 1 then 1 else qos"]
    by (auto simp: transport_publish_def tinv_def split_beta Let_def split: option.splits)
  ultimately show ?thesis by simp
next
  case Step_timer
  then show ?thesis using assms remove_ok [of "tr_queue s"]
    by (auto simp: transport_do_def transport_fsm_timer_expired_def remove_first_def
        transport_pub_timer_stop_def tinv_def split: if_splits)
next
  case (Step_connect addrs r evts)
  show ?thesis
  proof (cases "connect_work s")
    case None
    then show ?thesis using assms Step_connect by (simp add: transport_do_def)
  next
    case (Some n)
    then have cur: "fs_current s = MQTT_CONNECTING_TO_BROKER" using assms(1) by (simp add: tinv_def)
    let ?s0 = "s\<lparr>connect_work := None\<rparr>"
    have t0: "tinv items ?s0" "heap_ok items (tr_queue ?s0)" using assms(1) by (simp_all add: tinv_def)
    obtain err h where h: "mqtt_helper_connect (e_buflen E) addrs r evts (tr_helper s) = Some (err, h)"
      using assms(2) Step_connect Some
      by (cases "mqtt_helper_connect (e_buflen E) addrs r evts (tr_helper s)")
        (auto simp: transport_do_def connect_work_fn_def)
    let ?s1 = "helper_done E h ?s0"
    have k: "cb_keeps ?s0 ?s1" by (rule helper_done_keeps [OF t0(2)])
    then have t1: "tinv items ?s1" "heap_ok items (tr_queue ?s1)" "fs_current ?s1 = MQTT_CONNECTING_TO_BROKER"
      using cb_keeps_tinv [OF t0(1) k] cur by (simp_all add: cb_keeps_def)
    obtain s2 where s2: "(if err = - EOPNOTSUPP then disconnect_helper E ?s1 else Some ?s1) = Some s2"
      "s' = s2\<lparr>connect_work := Some RECONNECTION_TIMEOUT_SECONDS\<rparr>"
      using assms(2) Step_connect Some h by (auto simp: transport_do_def connect_work_fn_def Let_def)
    have "tinv items s2 \<and> fs_current s2 = MQTT_CONNECTING_TO_BROKER"
    proof (cases "err = - EOPNOTSUPP")
      case True
      then have "cb_keeps ?s1 s2" using disconnect_helper_keeps [OF t1(2)] s2(1) by simp
      then show ?thesis using cb_keeps_tinv [OF t1(1)] t1(3) by (auto simp: cb_keeps_def)
    next
      case False
      then show ?thesis using s2(1) t1 by simp
    qed
    then show ?thesis using s2(2) by (auto simp: tinv_def)
  qed
next
  case (Step_subscribe topics mid r)
  then show ?thesis using assms
    by (auto simp: transport_do_def subscribe_work_fn_def transport_subscribe_def tinv_def split_beta Let_def
        split: if_splits)
next
  case (Step_app ev)
  then show ?thesis using assms
    by (cases ev) (auto simp: transport_do_def transport_wifi_event_handler_def tinv_def split: if_splits)
qed

lemma disconnect_helper_returns:
  assumes "\<forall>e\<in>set (e_disc_evts E). \<exists>r. e = EVT_DISCONNECT r"
  shows "disconnect_helper E s \<noteq> None"
proof -
  have ev: "\<exists>h'. mqtt_evts b es h = Some h'" if "\<forall>e\<in>set es. \<exists>r. e = EVT_DISCONNECT r" for b es h
    using that
  proof (induction es arbitrary: h)
    case (Cons e es)
    then show ?case by (auto simp: mqtt_evt_handler_def set_disconnected)
  qed simp
  obtain h' where "mqtt_evts (e_buflen E) (e_disc_evts E)
      (mh_call Mqtt_disconnect (tr_helper s\<lparr>mh_state := MQTT_STATE_DISCONNECTING\<rparr>)) = Some h'"
    using ev [OF assms] by blast
  then show ?thesis
    by (auto simp: disconnect_helper_def mqtt_helper_disconnect_def mqtt_state_set_def [of MQTT_STATE_DISCONNECTING]
        legal_transition_def set_disconnected split: option.split if_splits)
qed

lemma run_returns:
  assumes "tinv items s" and "\<forall>e\<in>set (e_disc_evts E). \<exists>r. e = EVT_DISCONNECT r"
  shows "transport_fsm_run E s \<noteq> None"
proof -
  have h: "heap_ok items (tr_queue s)" using assms(1) by (simp add: tinv_def)
  have ch: "transport_state_change E MQTT_CONNECTING_TO_BROKER t \<noteq> None"
    if "heap_ok items (tr_queue t)" for t using to_connecting [OF that] by auto
  have sv: "service_transport_msg_queue E t \<noteq> None" if "heap_ok items (tr_queue t)" for t
    using service_queue [OF that] by auto
  have cl: "heap_ok items (tr_queue (clear_mqtt t)) = heap_ok items (tr_queue t)"
    "heap_ok items (tr_queue (clear_network t)) = heap_ok items (tr_queue t)"
    "fs_current (clear_network t) = fs_current t" for t
    by (simp_all add: clear_mqtt_def clear_network_def)
  note r = ch [unfolded not_None_eq] sv [unfolded not_None_eq]
    disconnect_helper_returns [OF assms(2), unfolded not_None_eq]
  have dd: "\<exists>y. Option.bind (disconnect_helper E t) (transport_state_change E MQTT_NETWORK_DISCONNECTED) =
      Some y \<and> fs_mqtt_event y = MQTT_BROKER_NO_EVENT" for t
    using r(3) [of t] by (auto simp: to_network_disconnected)
  have "\<exists>y. network_disconnected_run E s = Some y"
    using r(1) [OF h] by (auto simp: network_disconnected_run_def to_network_disconnected
        split: network_events.split)
  moreover have "\<exists>y. connecting_to_broker_run E s = Some y" if "fs_current s = MQTT_CONNECTING_TO_BROKER"
  proof (cases "fs_network_event s")
    case NETWORK_DISCONNECTED
    then show ?thesis
      by (simp add: connecting_to_broker_run_def Let_def clear_network_def to_network_disconnected)
  next
    case NETWORK_CONNECTED_WITH_IP
    then show ?thesis using to_connecting [of "clear_mqtt s"] h
      by (auto simp: connecting_to_broker_run_def Let_def cl clear_network_def clear_mqtt_def)
  next
    case NETWORK_NO_EVENT
    then show ?thesis using that
      by (cases "fs_mqtt_event (clear_network s)")
        (simp_all add: connecting_to_broker_run_def Let_def to_subscribing cl)
  qed
  moreover have "\<exists>y. connected_subscribing_run E s = Some y" if "fs_current s = MQTT_CONNECTED_SUBSCRIBING"
  proof (cases "fs_network_event s")
    case NETWORK_DISCONNECTED
    then show ?thesis using dd [of "clear_mqtt (clear_network s)"]
      by (auto simp: connected_subscribing_run_def Let_def clear_network_def)
  next
    case NETWORK_CONNECTED_WITH_IP
    then show ?thesis using to_connecting [of "clear_mqtt s"] h
      by (auto simp: connected_subscribing_run_def Let_def cl clear_network_def clear_mqtt_def)
  next
    case NETWORK_NO_EVENT
    then show ?thesis using r(1) [of "clear_network s"] h that to_publishing [of "clear_network s"]
      by (auto simp: connected_subscribing_run_def Let_def cl split: mqtt_events.split)
  qed
  moreover have "\<exists>y. connected_publishing_run E s = Some y"
  proof (cases "fs_network_event s = NETWORK_DISCONNECTED")
    case True
    then show ?thesis using dd [of "clear_mqtt s"]
      by (auto simp: connected_publishing_run_def Let_def clear_network_def)
  next
    case False
    then have n: "(case fs_network_event s of
        NETWORK_DISCONNECTED \<Rightarrow> map_option (Pair False)
          (Option.bind (disconnect_helper E (clear_mqtt s)) (transport_state_change E MQTT_NETWORK_DISCONNECTED))
        | _ \<Rightarrow> Some (True, s)) = Some (True, s)" by (cases "fs_network_event s") auto
    show ?thesis using r(1) [of "clear_network s"] r(2) [of "clear_mqtt (clear_network s)"] h
      by (auto simp: connected_publishing_run_def n Let_def cl)
  qed
  ultimately show ?thesis by (cases "fs_current s") (auto simp: transport_fsm_run_def state_run_def)
qed

end

text \<open>A concrete environment: the framework as documented, the list queue, a library that works.\<close>

definition smf_doc :: "'q action \<Rightarrow> 'q action \<Rightarrow> module_state \<Rightarrow> 'q action" where
  "smf_doc ex en new s = Option.bind (ex s) (\<lambda>s1. en (s1\<lparr>fs_current := new\<rparr>))"

definition env0 :: "transport_msg list tenv" where
  "env0 = \<lparr>e_ops = list_msgq 50, e_smf = smf_doc, e_now = 1000, e_buflen = 4096, e_disc_ret = 0,
     e_disc_evts = [EVT_DISCONNECT 0], e_pub_ret = 0\<rparr>"

lemma smf_doc_ok: "smf_ok smf_doc"
  by (simp add: smf_ok_def smf_doc_def)

lemma env0_ok: "msgq_ok (e_ops env0) 50 (\<lambda>q. q)" "smf_ok (e_smf env0)"
  by (simp_all add: env0_def list_msgq_ok smf_doc_ok)

interpretation tr: transport_env env0 50 "\<lambda>q. q" first_free
  by unfold_locales (simp_all add: env0_def list_msgq_ok first_free_ok smf_doc_ok)

section \<open>Properties\<close>

lemma transport_env_answers:
  "msgq_ok (e_ops E) cap items \<Longrightarrow> alloc_ok alloc \<Longrightarrow> smf_ok (e_smf E) \<Longrightarrow>
   transport_env (with_answers a E) cap items alloc"
  by unfold_locales (simp_all add: with_answers_def)


definition run_answers :: answers where
  "run_answers = \<lparr>a_now = 5, a_disc_ret = 0, a_disc_evts = [], a_pub_ret = 0\<rparr>"


text \<open>The transition table the state machine is meant to implement.\<close>

definition fsm_next :: "module_state \<Rightarrow> network_events \<Rightarrow> mqtt_events \<Rightarrow> module_state" where
  "fsm_next st net evt =
     (case st of
        MQTT_NETWORK_DISCONNECTED \<Rightarrow>
          if net = NETWORK_CONNECTED_WITH_IP then MQTT_CONNECTING_TO_BROKER else MQTT_NETWORK_DISCONNECTED
      | MQTT_CONNECTING_TO_BROKER \<Rightarrow>
          (case net of
             NETWORK_DISCONNECTED \<Rightarrow> MQTT_NETWORK_DISCONNECTED
           | NETWORK_CONNECTED_WITH_IP \<Rightarrow> MQTT_CONNECTING_TO_BROKER
           | NETWORK_NO_EVENT \<Rightarrow>
               if evt = MQTT_BROKER_CONNECT_TO_BROKER_SUCCESS then MQTT_CONNECTED_SUBSCRIBING else st)
      | MQTT_CONNECTED_SUBSCRIBING \<Rightarrow>
          (case net of
             NETWORK_DISCONNECTED \<Rightarrow> MQTT_NETWORK_DISCONNECTED
           | NETWORK_CONNECTED_WITH_IP \<Rightarrow> MQTT_CONNECTING_TO_BROKER
           | NETWORK_NO_EVENT \<Rightarrow>
               if evt = MQTT_BROKER_SUBSCRIBE_ACK then MQTT_CONNECTED_PUBLISHING
               else if evt \<in> {MQTT_BROKER_DISCONNECTED, MQTT_BROKER_CONNECT_TO_BROKER_FAIL}
               then MQTT_CONNECTING_TO_BROKER else st)
      | MQTT_CONNECTED_PUBLISHING \<Rightarrow>
          if net = NETWORK_DISCONNECTED then MQTT_NETWORK_DISCONNECTED
          else if evt \<in> {MQTT_BROKER_DISCONNECTED, MQTT_BROKER_CONNECT_TO_BROKER_FAIL,
                        MQTT_BROKER_CONNECT_TO_BROKER_SUCCESS, MQTT_BROKER_SUBSCRIBE_FAIL}
          then MQTT_CONNECTING_TO_BROKER else st)"

text \<open>
  C24: a pass of the transport thread always completes and implements the transition table: the next
  state is \<open>fsm_next\<close> of the state and the two pending events, both events are consumed (the MQTT event
  only once a network is there), and the transport's invariant is kept.
\<close>

theorem transport_fsm_refines_table:
  assumes "msgq_ok (e_ops E) cap items" and "smf_ok (e_smf E)" and "tinv items s" and "is_mqtt_active s"
    and "\<forall>e\<in>set (e_disc_evts E). \<exists>r. e = EVT_DISCONNECT r"
  shows "\<exists>s'. transport_fsm_run E s = Some s' \<and> tinv items s'
    \<and> fs_current s' = fsm_next (fs_current s) (fs_network_event s) (fs_mqtt_event s)
    \<and> fs_network_event s' = NETWORK_NO_EVENT
    \<and> (fs_current s \<noteq> MQTT_NETWORK_DISCONNECTED \<longrightarrow> fs_mqtt_event s' = MQTT_BROKER_NO_EVENT)"
proof -
  have te: "transport_env E cap items first_free"
    using assms(1,2) first_free_ok by unfold_locales
  obtain s' where r: "transport_fsm_run E s = Some s'"
    using transport_env.run_returns [OF te assms(3,5)] by auto
  have run: "state_run E (fs_current s) s = Some s'" using r assms(4) by (simp add: transport_fsm_run_def)
  show ?thesis
  proof (cases "fs_current s")
    case MQTT_NETWORK_DISCONNECTED
    then show ?thesis using run r transport_env.network_disconnected_run_next [OF te assms(3)]
      by (simp add: state_run_def fsm_next_def)
  next
    case MQTT_CONNECTING_TO_BROKER
    then show ?thesis using run r transport_env.connecting_to_broker_run_next [OF te assms(3)]
      by (simp add: state_run_def fsm_next_def)
  next
    case MQTT_CONNECTED_SUBSCRIBING
    then show ?thesis using run r transport_env.connected_subscribing_run_next [OF te assms(3)]
      by (simp add: state_run_def fsm_next_def)
  next
    case MQTT_CONNECTED_PUBLISHING
    then show ?thesis using run r transport_env.connected_publishing_run_next [OF te assms(3)]
      by (simp add: state_run_def fsm_next_def)
  qed
qed

definition publishing_state :: "transport_msg list transport" where
  "publishing_state =
     (transport_boot [\<lparr>tm_topic = 1, tm_payload = 2, tm_qos = 1\<rparr>, \<lparr>tm_topic = 3, tm_payload = 4, tm_qos = 0\<rparr>])
       \<lparr>fs_current := MQTT_CONNECTED_PUBLISHING, tr_status := [STATUS_READY],
        tr_queue := \<lparr>transport_msgq = [\<lparr>tm_topic = 1, tm_payload = 2, tm_qos = 1\<rparr>,
                       \<lparr>tm_topic = 3, tm_payload = 4, tm_qos = 0\<rparr>],
                     heap = [1 \<mapsto> ''t1'', 2 \<mapsto> ''p1'', 3 \<mapsto> ''t2'', 4 \<mapsto> ''p2'']\<rparr>,
        tr_helper := mh_boot\<lparr>mh_state := MQTT_STATE_CONNECTED, mh_cfg := True\<rparr>\<rparr>"

lemma publishing_state_ok: "tinv (\<lambda>q. q) publishing_state" "is_mqtt_active publishing_state"
  "contents (\<lambda>q. q) (tr_queue publishing_state) = [(''t1'', ''p1'', 1), (''t2'', ''p2'', 0)]"
  by (auto simp: publishing_state_def tinv_def heap_ok_def transport_boot_def contents_def msg_of_def)

theorem transport_fsm_refines_table_witness:
  "\<exists>s'. transport_fsm_run env0 (publishing_state\<lparr>fs_network_event := NETWORK_DISCONNECTED\<rparr>) = Some s'
    \<and> fs_current s' = MQTT_NETWORK_DISCONNECTED"
proof -
  have t: "tinv (\<lambda>q. q) (publishing_state\<lparr>fs_network_event := NETWORK_DISCONNECTED\<rparr>)"
    using publishing_state_ok(1) by (simp add: tinv_def)
  show ?thesis
    using transport_fsm_refines_table [OF env0_ok t] publishing_state_ok(2)
    by (auto simp: env0_def fsm_next_def publishing_state_def)
qed

text \<open>
  C30: while the machine is publishing, connected and undisturbed, a pass publishes the first queued
  message and nothing else: if no acknowledgement is outstanding it is handed to the library with its
  own topic, payload and quality of service; a failed or quality-0 message leaves the queue, a quality-1
  message stays at its head with the timer running, and then passes publish nothing more.
\<close>

theorem transport_publishes_in_order:
  assumes "msgq_ok (e_ops E) cap items" and "tinv items s" and "is_mqtt_active s"
    and "fs_current s = MQTT_CONNECTED_PUBLISHING" and "fs_network_event s = NETWORK_NO_EVENT"
    and "fs_mqtt_event s = MQTT_BROKER_NO_EVENT" and "mh_state (tr_helper s) = MQTT_STATE_CONNECTED"
    and "contents items (tr_queue s) = (t, p, qos) # rest"
  shows "\<exists>s'. transport_fsm_run E s = Some s' \<and>
    (if pub_timer s then s' = s
     else mh_calls (tr_helper s') = mh_calls (tr_helper s) @ [Mqtt_publish t p qos (nat (e_now E mod 2 ^ 16))]
       \<and> (if e_pub_ret E \<noteq> 0 \<or> qos = 0
          then contents items (tr_queue s') = rest \<and> \<not> pub_timer s'
          else contents items (tr_queue s') = (t, p, qos) # rest \<and> pub_timer s'))"
proof -
  let ?E = "E\<lparr>e_smf := smf_doc\<rparr>"
  have te: "transport_env ?E cap items first_free"
    using assms(1) first_free_ok smf_doc_ok by unfold_locales simp_all
  have h: "heap_ok items (tr_queue s)" using assms(2) by (simp add: tinv_def)
  have "clear_mqtt (clear_network s) = s" using assms(5,6) by (simp add: clear_mqtt_def clear_network_def)
  then have run: "transport_fsm_run E s = service_transport_msg_queue E s"
    using assms(3-6) by (simp add: transport_fsm_run_def state_run_def connected_publishing_run_def Let_def
        clear_network_def)
  have sel: "e_ops ?E = e_ops E" "e_now ?E = e_now E" "e_pub_ret ?E = e_pub_ret E" by simp_all
  have srv: "service_transport_msg_queue ?E s = service_transport_msg_queue E s"
    unfolding service_transport_msg_queue_def msg_publish_def remove_first_def sel ..
  have pub: "mqtt_helper_publish t p qos m (e_pub_ret E) (tr_helper s) =
      (e_pub_ret E, mh_call (Mqtt_publish t p qos m) (tr_helper s))" for m
    using assms(7) by (simp add: mqtt_helper_publish_def)
  obtain s' where s': "service_transport_msg_queue E s = Some s'"
    "if pub_timer s then s' = s
     else tr_helper s' = mh_call (Mqtt_publish t p qos (nat (e_now E mod 2 ^ 16))) (tr_helper s)
                  \<and> (if e_pub_ret E \<noteq> 0 \<or> qos = 0
                     then contents items (tr_queue s') = rest \<and> \<not> pub_timer s'
                     else tr_queue s' = tr_queue s \<and> pub_timer s')"
    using transport_env.service_queue [OF te h] assms(8) srv pub by (auto split: if_splits)
  then show ?thesis using run assms(8) by (auto simp: mh_call_def split: if_splits)
qed

theorem transport_publishes_in_order_witness:
  "\<exists>s'. transport_fsm_run env0 publishing_state = Some s' \<and> pub_timer s'
    \<and> mh_calls (tr_helper s') = [Mqtt_publish ''t1'' ''p1'' 1 1000]"
  using transport_publishes_in_order [OF env0_ok(1) publishing_state_ok(1,2) _ _ _ _ publishing_state_ok(3)]
  by (auto simp: publishing_state_def transport_boot_def env0_def mh_boot_def)

text \<open>
  C40: an acknowledgement is not matched with the message it acknowledges. Whatever its message id, and
  also when no message awaits one (the timer has expired and removed it before), a PUBACK removes the
  message at the head of the queue, although nothing has been handed to the library for it.
\<close>

theorem late_puback_drops_message:
  assumes "msgq_ok (e_ops E) cap items" and "heap_ok items (tr_queue s)" and "mh_cfg (tr_helper s)"
    and "\<not> pub_timer s" and "contents items (tr_queue s) = m # rest"
  shows "\<exists>s'. library_event E (EVT_PUBACK mid r) s = Some s'
    \<and> contents items (tr_queue s') = rest \<and> mh_calls (tr_helper s') = mh_calls (tr_helper s)"
proof -
  have th: "transport_heap (e_ops E) cap items first_free"
    using assms(1) first_free_ok by unfold_locales
  show ?thesis
    using transport_heap.remove_ok [OF th assms(2)] assms(3,5)
    by (simp add: library_event_def mqtt_evt_handler_def mh_cb_def helper_done_def on_mqtt_cb_def
        count_event_def transport_fsm_msg_published_def transport_pub_timer_stop_def Let_def)
qed

theorem late_puback_drops_message_witness:
  "\<exists>s'. library_event env0 (EVT_PUBACK 77 0) publishing_state = Some s'
    \<and> contents (\<lambda>q. q) (tr_queue s') = [(''t2'', ''p2'', 0)] \<and> mh_calls (tr_helper s') = []"
proof -
  have h: "heap_ok (\<lambda>q. q) (tr_queue publishing_state)" using publishing_state_ok(1) by (simp add: tinv_def)
  show ?thesis
    using late_puback_drops_message [OF env0_ok(1) h _ _ publishing_state_ok(3), of 77 0]
    by (simp add: publishing_state_def transport_boot_def mh_boot_def)
qed

text \<open>
  C35: if the broker accepts the TCP connection but no CONNACK arrives before the connect work runs again
  (it always reschedules itself), the second attempt changes the helper from CONNECTING to TRANSPORT
  CONNECTING, which is illegal: the program stops in an assertion.
\<close>

theorem second_connect_attempt_asserts:
  assumes "connect_work s \<noteq> None" and "mh_state (tr_helper s) = MQTT_STATE_DISCONNECTED"
  shows "\<exists>s'. transport_do E alloc (Step_connect (Inr [(True, a)]) 0 []) s = Some s'
    \<and> connect_work s' = Some RECONNECTION_TIMEOUT_SECONDS
    \<and> transport_do E alloc (Step_connect (Inr addrs) r []) s' = None"
proof -
  define h where "h = (mh_call Mqtt_connect (tr_helper s\<lparr>mh_broker := Some a\<rparr>))
    \<lparr>mh_state := MQTT_STATE_CONNECTING, mh_poll_sem := min 1 (mh_poll_sem (tr_helper s) + 1)\<rparr>"
  have hs: "mh_state h = MQTT_STATE_CONNECTING" "mh_cbs h = mh_cbs (tr_helper s)"
    by (simp_all add: h_def mh_call_def)
  have c: "mqtt_helper_connect (e_buflen E) (Inr [(True, a)]) 0 [] (tr_helper s) = Some (0, h)"
    using assms(2) connect_from_disconnected [of "tr_helper s" "e_buflen E" a] by (simp add: h_def)
  have hd: "helper_done E h (s\<lparr>connect_work := None\<rparr>) = s\<lparr>connect_work := None, tr_helper := h\<rparr>"
    by (simp add: helper_done_def hs)
  have n: "mqtt_helper_connect (e_buflen E) (Inr addrs) r [] h = None"
    by (rule connect_from_connecting [OF hs(1)])
  obtain n where w: "connect_work s = Some n" using assms(1) by auto
  have "transport_do E alloc (Step_connect (Inr [(True, a)]) 0 []) s =
      Some (s\<lparr>tr_helper := h, connect_work := Some RECONNECTION_TIMEOUT_SECONDS\<rparr>)"
    by (simp add: transport_do_def connect_work_fn_def c hd w Let_def EOPNOTSUPP_def)
  then show ?thesis using n by (simp add: transport_do_def connect_work_fn_def)
qed

theorem second_connect_attempt_asserts_witness:
  "\<exists>s'. transport_do env0 first_free (Step_connect (Inr [(True, 1)]) 0 [])
      ((transport_boot [])\<lparr>connect_work := Some 10\<rparr>) = Some s'
    \<and> transport_do env0 first_free (Step_connect (Inr [(True, 1)]) 0 []) s' = None"
  using second_connect_attempt_asserts [of "(transport_boot [])\<lparr>connect_work := Some 10\<rparr>" env0 first_free 1
      "[(True, 1)]" 0]
  by (auto simp: transport_boot_def)

text \<open>
  Further: a publish request is accepted exactly when topic and payload are given, the transport is ready,
  the topic is shorter than 64 and the payload shorter than 2548 characters and the queue takes it; an
  accepted message is appended with its quality of service reduced to 1 at most, a rejected one leaves
  the transport as it was.
\<close>

theorem transport_publish_accepts:
  assumes "msgq_ok ops cap items" and "alloc_ok alloc" and "heap_ok items (tr_queue s)"
  shows "let (r, s') = transport_publish ops alloc topic payload qos s in
    (r = 0 \<longrightarrow> topic \<noteq> None \<and> payload \<noteq> None \<and> transport_state_ready s \<and> length (the topic) < 64
       \<and> length (the payload) < 2548 \<and> length (contents items (tr_queue s)) < cap
       \<and> contents items (tr_queue s') = contents items (tr_queue s) @ [(the topic, the payload, min qos 1)])
    \<and> (r \<noteq> 0 \<longrightarrow> s' = s)"
proof -
  have th: "transport_heap ops cap items alloc" using assms(1,2) by unfold_locales
  have m: "(if qos > 1 then 1 else qos) = min qos 1" by simp
  show ?thesis
    using transport_heap.add_cases [OF th assms(3), of topic payload "min qos 1"]
    by (auto simp: transport_publish_def m MQTT_TOPIC_STRING_MAX_SIZE_def MQTT_PAYLOAD_STRING_MAX_SIZE_def
        split_beta Let_def EINVAL_def contents_def split: option.split)
qed

theorem transport_publish_accepts_witness:
  "snd (transport_publish (list_msgq 50) first_free (Some (replicate 64 CHR ''x'')) (Some []) 0
     publishing_state) = publishing_state"
proof -
  have h: "heap_ok (\<lambda>q. q) (tr_queue publishing_state)" using publishing_state_ok(1) by (simp add: tinv_def)
  have "fst (transport_publish (list_msgq 50) first_free (Some (replicate 64 CHR ''x'')) (Some []) 0
     publishing_state) \<noteq> 0"
    by (simp add: transport_publish_def MQTT_TOPIC_STRING_MAX_SIZE_def)
  then show ?thesis
    using transport_publish_accepts [OF list_msgq_ok [of 50] first_free_ok h,
        of "Some (replicate 64 CHR ''x'')" "Some []" 0]
    by (simp add: split_beta)
qed

text \<open>
  Further: with the default configuration (no client id of its own) the device connects with the hardware id
  in its buffer but the length 0, because the error code of \<open>id_get\<close> is stored as the length; a
  configured id that fits the buffer is used whole.
\<close>

theorem client_id_length:
  "client_id_init bufsize [] (Inr hw) = (hw, 0)
   \<and> (0 < length configured \<and> length configured < bufsize \<longrightarrow>
        client_id_init bufsize configured x = (configured, int (length configured)))"
  by (auto simp: client_id_init_def)

theorem client_id_length_witness: "client_id_init 50 [] (Inr ''F4CE36000F7A'') = (''F4CE36000F7A'', 0)"
  using client_id_length [of 50 "''F4CE36000F7A''" "[]" "Inr []"] by blast

end
