(* ===== verification/Manager.thy ===== *)
theory Manager
  imports Prelude
begin

text \<open>
  src/threads/manager: the monitor of the application threads (manager\_thread\_monitor.c), the monitor
  of the network connections (manager\_connectivity\_monitor.c) and the manager thread that runs both
  every 100 ms (manager\_thread.c). Times are milliseconds since boot: \<open>k_uptime_get\<close> is the 64-bit
  time, \<open>k_uptime_get_32\<close> the same modulo \<open>2\<^sup>3\<^sup>2\<close>. A failed assertion restarts the device; the functions that may
  do it return \<open>Some\<close> of the assert function or of the message.
\<close>

section \<open>Thread monitor\<close>

definition THREAD_MONITOR_IDX_MAX :: nat where [fw_defs]: "THREAD_MONITOR_IDX_MAX = 10"
definition THREAD_MONITOR_TIMEOUT_TOLERANCE_MS :: nat where
  [fw_defs]: "THREAD_MONITOR_TIMEOUT_TOLERANCE_MS = 5000"

text \<open>\<open>tm_assert\<close> is the assert function of the thread, by its name; None is NULL.\<close>

record thread_monitor_t =
  tm_idx :: int
  tm_name :: string
  tm_assert :: "string option"
  timestamp_ms :: nat
  timeout_ms :: nat

definition zero_entry :: thread_monitor_t where
  "zero_entry = \<lparr>tm_idx = 0, tm_name = [], tm_assert = None, timestamp_ms = 0, timeout_ms = 0\<rparr>"

record thread_monitors =
  num_of_threads :: nat
  enable_thread_monitor :: bool
  thread_monitor :: "thread_monitor_t list"

definition thread_monitor_init :: "bool \<Rightarrow> thread_monitors" where
  "thread_monitor_init trd_mon_en =
     \<lparr>num_of_threads = 0, enable_thread_monitor = trd_mon_en,
      thread_monitor = replicate THREAD_MONITOR_IDX_MAX zero_entry\<rparr>"

text \<open>A write through an index outside the array is None.\<close>

definition write_entry ::
  "int \<Rightarrow> (thread_monitor_t \<Rightarrow> thread_monitor_t) \<Rightarrow> thread_monitors \<Rightarrow> thread_monitors option" where
  "write_entry idx f m =
     (if 0 \<le> idx \<and> nat idx < length (thread_monitor m)
      then Some (m\<lparr>thread_monitor := (thread_monitor m)[nat idx := f (thread_monitor m ! nat idx)]\<rparr>)
      else None)"

definition im_alive_cb :: "int \<Rightarrow> nat \<Rightarrow> nat \<Rightarrow> thread_monitors \<Rightarrow> thread_monitors option" where
  "im_alive_cb idx ts to m =
     (if idx < int (num_of_threads m)
      then write_entry idx (\<lambda>e. e\<lparr>timestamp_ms := ts, timeout_ms := to\<rparr>) m
      else Some m)"

definition thread_monitor_add ::
  "int \<Rightarrow> string \<Rightarrow> string option \<Rightarrow> thread_monitors \<Rightarrow> thread_monitors option" where
  "thread_monitor_add idx nm asrt m =
     (if idx \<ge> int THREAD_MONITOR_IDX_MAX then Some m
      else case write_entry idx
                  (\<lambda>e. \<lparr>tm_idx = idx, tm_name = nm, tm_assert = asrt, timestamp_ms = 0, timeout_ms = 0\<rparr>) m of
             None \<Rightarrow> None
           | Some m' \<Rightarrow> Some (m'\<lparr>num_of_threads := num_of_threads m' + 1\<rparr>))"

text \<open>
  A thread is late when the 64-bit time minus its 32-bit timestamp exceeds the timeout plus the
  tolerance (a 32-bit sum).
\<close>

definition late :: "nat \<Rightarrow> thread_monitor_t \<Rightarrow> bool" where
  "late now e \<longleftrightarrow>
     int now - int (timestamp_ms e) > int ((timeout_ms e + THREAD_MONITOR_TIMEOUT_TOLERANCE_MS) mod 2 ^ 32)"

fun timeout_loop :: "nat \<Rightarrow> thread_monitor_t list \<Rightarrow> string option" where
  "timeout_loop now [] = None"
| "timeout_loop now (e # es) =
     (if timestamp_ms e = 0 then timeout_loop now es
      else if late now e then
        (case tm_assert e of None \<Rightarrow> timeout_loop now es | Some a \<Rightarrow> Some a)
      else timeout_loop now es)"

definition thread_monitor_timeout_check :: "nat \<Rightarrow> thread_monitors \<Rightarrow> string option" where
  "thread_monitor_timeout_check now m =
     (if \<not> enable_thread_monitor m then None
      else timeout_loop now (take (num_of_threads m) (thread_monitor m)))"

definition thread_monitor_timeout_artificial :: "int \<Rightarrow> thread_monitors \<Rightarrow> thread_monitors option" where
  "thread_monitor_timeout_artificial idx m =
     (if idx < int (num_of_threads m) then write_entry idx (\<lambda>e. e\<lparr>timestamp_ms := 1\<rparr>) m else Some m)"

section \<open>Connectivity monitor\<close>

definition MANAGER_CONNECTIVITY_MONITOR_WIFI_TIMEOUT_MS :: int where
  [fw_defs]: "MANAGER_CONNECTIVITY_MONITOR_WIFI_TIMEOUT_MS = 5 * 60 * 1000"
definition MANAGER_CONNECTIVITY_MONITOR_TRANSPORT_TIMEOUT_MS :: int where
  [fw_defs]: "MANAGER_CONNECTIVITY_MONITOR_TRANSPORT_TIMEOUT_MS = 5 * 60 * 1000"

record connectivity =
  wifi_connected :: bool
  transport_connected :: bool
  wifi_connect_ts :: nat
  wifi_disconnect_ts :: nat
  transport_connect_ts :: nat
  transport_disconnect_ts :: nat
  wifi_to_ms :: int
  mqtt_to_ms :: int

definition connectivity0 :: connectivity where
  "connectivity0 =
     \<lparr>wifi_connected = False, transport_connected = False, wifi_connect_ts = 0, wifi_disconnect_ts = 0,
      transport_connect_ts = 0, transport_disconnect_ts = 0,
      wifi_to_ms = MANAGER_CONNECTIVITY_MONITOR_WIFI_TIMEOUT_MS,
      mqtt_to_ms = MANAGER_CONNECTIVITY_MONITOR_TRANSPORT_TIMEOUT_MS\<rparr>"

definition manager_connectivity_monitor_wifi_timeout_set :: "int \<Rightarrow> connectivity \<Rightarrow> connectivity" where
  "manager_connectivity_monitor_wifi_timeout_set timeout c = c\<lparr>wifi_to_ms := timeout\<rparr>"

definition manager_connectivity_monitor_transport_timeout_set :: "int \<Rightarrow> connectivity \<Rightarrow> connectivity" where
  "manager_connectivity_monitor_transport_timeout_set timeout c = c\<lparr>mqtt_to_ms := timeout\<rparr>"

text \<open>The initial values with the timeouts of the configuration.\<close>

definition manager_connectivity_monitor_init :: "int \<Rightarrow> int \<Rightarrow> connectivity" where
  "manager_connectivity_monitor_init wifi_to mqtt_to =
     manager_connectivity_monitor_transport_timeout_set mqtt_to
       (manager_connectivity_monitor_wifi_timeout_set wifi_to connectivity0)"

lemmas connectivity_init_defs = manager_connectivity_monitor_init_def connectivity0_def
  manager_connectivity_monitor_wifi_timeout_set_def manager_connectivity_monitor_transport_timeout_set_def

text \<open>The comparison is made in 64-bit unsigned arithmetic.\<close>

definition for_longer :: "nat \<Rightarrow> nat \<Rightarrow> int \<Rightarrow> bool" where
  "for_longer now ts to \<longleftrightarrow> (int now - int ts) mod 2 ^ 64 > to mod 2 ^ 64"

definition manager_connectivity_monitor :: "nat \<Rightarrow> connectivity \<Rightarrow> string option" where
  "manager_connectivity_monitor now c =
     (if wifi_connected c \<and> transport_connected c then None
      else if \<not> wifi_connected c \<and> wifi_to_ms c \<noteq> 0 then
        (if for_longer now (wifi_disconnect_ts c) (wifi_to_ms c) then Some ''wifi timeout'' else None)
      else if \<not> transport_connected c \<and> mqtt_to_ms c \<noteq> 0 then
        (if for_longer now (transport_disconnect_ts c) (mqtt_to_ms c) then Some ''transport timeout'' else None)
      else None)"

text \<open>The status events, handled at time \<open>now\<close>; the build uses DHCP.\<close>

datatype wifi_status =
    WS_connecting | WS_connect_failed | WS_connected | WS_disconnecting | WS_disconnect_failed
  | WS_disconnected | WS_ip_acquired

datatype transport_status = TS_ready | TS_disconnected | TS_other

definition manager_connectivity_wifi_event_handler :: "nat \<Rightarrow> wifi_status \<Rightarrow> connectivity \<Rightarrow> connectivity" where
  "manager_connectivity_wifi_event_handler now st c =
     (case st of
        WS_ip_acquired \<Rightarrow> c\<lparr>wifi_connected := True, wifi_connect_ts := now\<rparr>
      | WS_disconnected \<Rightarrow> c\<lparr>wifi_connected := False, wifi_disconnect_ts := now\<rparr>
      | _ \<Rightarrow> c)"

definition manager_connectivity_transport_event_handler ::
  "nat \<Rightarrow> transport_status \<Rightarrow> connectivity \<Rightarrow> connectivity" where
  "manager_connectivity_transport_event_handler now st c =
     (case st of
        TS_ready \<Rightarrow> c\<lparr>transport_connected := True, transport_connect_ts := now\<rparr>
      | TS_disconnected \<Rightarrow> c\<lparr>transport_connected := False, transport_disconnect_ts := now\<rparr>
      | TS_other \<Rightarrow> c)"

section \<open>Manager thread\<close>

record manager =
  mgr_threads :: thread_monitors
  mgr_conn :: connectivity
  mgr_thread_idx :: nat
  mgr_started :: "string list"

text \<open>The build options that select the threads.\<close>

record build_cfg =
  CONFIG_LED_THREAD :: bool
  CONFIG_POWER_THREAD :: bool
  CONFIG_MCUMGR :: bool
  CONFIG_WIFI :: bool
  CONFIG_MQTT_HELPER_HELIOGEN :: bool

text \<open>One guarded block: add the thread to the monitor, start it, count.\<close>

definition start_thread :: "bool \<Rightarrow> string \<Rightarrow> string \<Rightarrow> manager \<Rightarrow> manager option" where
  "start_thread configured nm asrt g =
     (if \<not> configured then Some g
      else case thread_monitor_add (int (mgr_thread_idx g)) nm (Some asrt) (mgr_threads g) of
             None \<Rightarrow> None
           | Some m \<Rightarrow> Some (g\<lparr>mgr_threads := m, mgr_started := mgr_started g @ [nm],
                              mgr_thread_idx := mgr_thread_idx g + 1\<rparr>))"

definition start_managed_threads :: "build_cfg \<Rightarrow> manager \<Rightarrow> manager option" where
  "start_managed_threads B g =
     Option.bind (start_thread (CONFIG_LED_THREAD B) ''LED'' ''led_thread_stall_assert'' g) (\<lambda>g.
     Option.bind (start_thread (CONFIG_POWER_THREAD B) ''POWER'' ''power_thread_stall_assert'' g)
       (start_thread (CONFIG_MCUMGR B) ''MCU Manager'' ''mcumgr_service_stall_assert''))"

definition start_wifi_thread :: "build_cfg \<Rightarrow> manager \<Rightarrow> manager option" where
  "start_wifi_thread B g =
     Option.bind (start_thread (CONFIG_WIFI B) ''Wi-Fi'' ''wifi_thread_stall_assert'' g)
       (start_thread (CONFIG_MQTT_HELPER_HELIOGEN B) ''Transport'' ''transport_stall_assert'')"

definition manager_boot :: "build_cfg \<Rightarrow> bool \<Rightarrow> int \<Rightarrow> int \<Rightarrow> manager option" where
  "manager_boot B trd_mon_en wifi_to mqtt_to =
     start_managed_threads B
       \<lparr>mgr_threads = thread_monitor_init trd_mon_en, mgr_conn = manager_connectivity_monitor_init wifi_to mqtt_to,
        mgr_thread_idx = 0, mgr_started = []\<rparr>"

text \<open>What happens to the manager at a time: a pass of its loop, a check-in, an event.\<close>

datatype manager_event =
    Loop_pass
  | Check_in int nat
  | Wifi_status wifi_status
  | Transport_status transport_status
  | Wifi_thread_start

text \<open>\<open>Inl text\<close>: the device restarts with that assertion; \<open>Inr None\<close>: an array was overrun.\<close>

definition manager_step :: "build_cfg \<Rightarrow> nat \<Rightarrow> manager_event \<Rightarrow> manager \<Rightarrow> string + manager option" where
  "manager_step B now ev g =
     (case ev of
        Loop_pass \<Rightarrow>
          (case thread_monitor_timeout_check now (mgr_threads g) of
             Some a \<Rightarrow> Inl a
           | None \<Rightarrow>
               (case manager_connectivity_monitor now (mgr_conn g) of
                  Some a \<Rightarrow> Inl a
                | None \<Rightarrow> Inr (Some g)))
      | Check_in idx to \<Rightarrow>
          Inr (map_option (\<lambda>m. g\<lparr>mgr_threads := m\<rparr>) (im_alive_cb idx (now mod 2 ^ 32) to (mgr_threads g)))
      | Wifi_status st \<Rightarrow>
          Inr (Some (g\<lparr>mgr_conn := manager_connectivity_wifi_event_handler now st (mgr_conn g)\<rparr>))
      | Transport_status st \<Rightarrow>
          Inr (Some (g\<lparr>mgr_conn := manager_connectivity_transport_event_handler now st (mgr_conn g)\<rparr>))
      | Wifi_thread_start \<Rightarrow> Inr (start_wifi_thread B g))"

text \<open>A history: events with their times. A restart or an overrun ends it.\<close>

fun manager_run :: "build_cfg \<Rightarrow> (nat \<times> manager_event) list \<Rightarrow> manager \<Rightarrow> string + manager option" where
  "manager_run B [] g = Inr (Some g)"
| "manager_run B ((now, ev) # es) g =
     (case manager_step B now ev g of
        Inr (Some g') \<Rightarrow> manager_run B es g'
      | r \<Rightarrow> r)"

section \<open>Array bounds\<close>

definition monitor_ok :: "thread_monitors \<Rightarrow> bool" where
  "monitor_ok m \<longleftrightarrow> length (thread_monitor m) = THREAD_MONITOR_IDX_MAX \<and> num_of_threads m \<le> THREAD_MONITOR_IDX_MAX"

definition manager_ok :: "manager \<Rightarrow> bool" where
  "manager_ok g \<longleftrightarrow> monitor_ok (mgr_threads g)
     \<and> num_of_threads (mgr_threads g) = min (mgr_thread_idx g) THREAD_MONITOR_IDX_MAX"

lemma write_entry_ok:
  "length (thread_monitor m) = THREAD_MONITOR_IDX_MAX \<Longrightarrow> 0 \<le> idx \<Longrightarrow> idx < int THREAD_MONITOR_IDX_MAX \<Longrightarrow>
   \<exists>m'. write_entry idx f m = Some m' \<and> length (thread_monitor m') = THREAD_MONITOR_IDX_MAX
     \<and> num_of_threads m' = num_of_threads m"
  by (auto simp: write_entry_def nat_less_iff)

lemma im_alive_ok:
  "monitor_ok m \<Longrightarrow> 0 \<le> idx \<Longrightarrow>
   \<exists>m'. im_alive_cb idx ts to m = Some m' \<and> monitor_ok m' \<and> num_of_threads m' = num_of_threads m"
  using write_entry_ok [of m idx] by (fastforce simp: im_alive_cb_def monitor_ok_def)

lemma add_ok:
  assumes "monitor_ok m" "num_of_threads m = min i THREAD_MONITOR_IDX_MAX"
  shows "\<exists>m'. thread_monitor_add (int i) nm a m = Some m' \<and> monitor_ok m'
     \<and> num_of_threads m' = min (i + 1) THREAD_MONITOR_IDX_MAX"
proof (cases "i < THREAD_MONITOR_IDX_MAX")
  case True
  let ?f = "\<lambda>e. \<lparr>tm_idx = int i, tm_name = nm, tm_assert = a, timestamp_ms = 0, timeout_ms = 0\<rparr>"
  obtain m' where "write_entry (int i) ?f m = Some m'" "length (thread_monitor m') = THREAD_MONITOR_IDX_MAX"
    "num_of_threads m' = num_of_threads m"
    using write_entry_ok [of m "int i" ?f] assms True by (auto simp: monitor_ok_def)
  then show ?thesis using True assms by (auto simp: thread_monitor_add_def monitor_ok_def)
next
  case False
  then show ?thesis using assms by (simp add: thread_monitor_add_def)
qed

lemma start_thread_ok: "manager_ok g \<Longrightarrow> \<exists>g'. start_thread b nm a g = Some g' \<and> manager_ok g'"
  using add_ok [of "mgr_threads g" "mgr_thread_idx g" nm "Some a"]
  by (fastforce simp: manager_ok_def start_thread_def)

lemma bind_ok:
  "\<exists>x. v = Some x \<and> P x \<Longrightarrow> (\<And>x. P x \<Longrightarrow> \<exists>y. f x = Some y \<and> Q y) \<Longrightarrow> \<exists>y. Option.bind v f = Some y \<and> Q y"
  by auto

lemma start_wifi_ok: "manager_ok g \<Longrightarrow> \<exists>g'. start_wifi_thread B g = Some g' \<and> manager_ok g'"
  unfolding start_wifi_thread_def by (rule bind_ok [where P = manager_ok]; rule start_thread_ok)

lemma start_managed_ok: "manager_ok g \<Longrightarrow> \<exists>g'. start_managed_threads B g = Some g' \<and> manager_ok g'"
  unfolding start_managed_threads_def
  by (rule bind_ok [where P = manager_ok], erule start_thread_ok,
      rule bind_ok [where P = manager_ok]; erule start_thread_ok)

lemma manager_boot_ok: "\<exists>g. manager_boot B b w q = Some g \<and> manager_ok g"
  unfolding manager_boot_def
  by (rule start_managed_ok) (simp add: manager_ok_def monitor_ok_def thread_monitor_init_def)

definition index_nonneg :: "nat \<times> manager_event \<Rightarrow> bool" where
  "index_nonneg e \<longleftrightarrow> (case snd e of Check_in idx to \<Rightarrow> 0 \<le> idx | _ \<Rightarrow> True)"

lemma manager_step_ok:
  assumes "manager_ok g" "index_nonneg (now, ev)"
  shows "(\<exists>a. manager_step B now ev g = Inl a) \<or> (\<exists>g'. manager_step B now ev g = Inr (Some g') \<and> manager_ok g')"
proof (cases ev)
  case (Check_in idx to)
  then show ?thesis
    using assms im_alive_ok [of "mgr_threads g" idx "now mod 2 ^ 32" to]
    by (auto simp: manager_step_def manager_ok_def index_nonneg_def)
next
  case Wifi_thread_start
  then show ?thesis using start_wifi_ok [OF assms(1), of B] by (auto simp: manager_step_def)
qed (use assms in \<open>auto simp: manager_step_def manager_ok_def split: option.split\<close>)

lemma manager_run_ok:
  "manager_ok g \<Longrightarrow> list_all index_nonneg es \<Longrightarrow>
   (\<exists>a. manager_run B es g = Inl a) \<or> (\<exists>g'. manager_run B es g = Inr (Some g') \<and> manager_ok g')"
proof (induction es arbitrary: g)
  case (Cons e es)
  obtain now ev where e: "e = (now, ev)" by (cases e)
  have "index_nonneg (now, ev)" using Cons.prems(2) e by simp
  from manager_step_ok [OF Cons.prems(1) this, of B] show ?case
  proof
    assume "\<exists>g'. manager_step B now ev g = Inr (Some g') \<and> manager_ok g'"
    then obtain g' where "manager_step B now ev g = Inr (Some g')" "manager_ok g'" by blast
    then show ?thesis using Cons.IH [of g'] Cons.prems(2) e by simp
  qed (auto simp: e)
qed simp


text \<open>The build of this image.\<close>

definition head_build :: build_cfg where
  "head_build = \<lparr>CONFIG_LED_THREAD = False, CONFIG_POWER_THREAD = True, CONFIG_MCUMGR = False,
        CONFIG_WIFI = True, CONFIG_MQTT_HELPER_HELIOGEN = True\<rparr>"


section \<open>Stall detection\<close>

definition stalled :: "nat \<Rightarrow> thread_monitor_t \<Rightarrow> bool" where
  "stalled now e \<longleftrightarrow> timestamp_ms e \<noteq> 0
     \<and> timestamp_ms e + timeout_ms e + THREAD_MONITOR_TIMEOUT_TOLERANCE_MS < now"

definition checked_in :: "nat \<Rightarrow> thread_monitor_t \<Rightarrow> bool" where
  "checked_in now e \<longleftrightarrow> timestamp_ms e \<le> now
     \<and> timeout_ms e + THREAD_MONITOR_TIMEOUT_TOLERANCE_MS < 2 ^ 32 \<and> tm_assert e \<noteq> None"

lemma late_stalled: "checked_in now e \<Longrightarrow> timestamp_ms e \<noteq> 0 \<Longrightarrow> late now e = stalled now e"
  by (auto simp: late_def stalled_def checked_in_def)

lemma timeout_loop_find:
  "list_all (checked_in now) es \<Longrightarrow> timeout_loop now es = Option.bind (find (stalled now) es) tm_assert"
  by (induction es) (auto simp: late_stalled checked_in_def stalled_def split: option.splits)

text \<open>
  Further: during the first \<open>2\<^sup>3\<^sup>2\<close> milliseconds, the check of the thread monitor restarts the device through
  the assert function of the first thread that has checked in and whose timeout plus five seconds
  have passed, and does nothing if there is none; threads that never checked in are not watched.
\<close>

theorem thread_monitor_exact:
  assumes "enable_thread_monitor m" and "list_all (checked_in now) (take (num_of_threads m) (thread_monitor m))"
  shows "thread_monitor_timeout_check now m
    = Option.bind (find (stalled now) (take (num_of_threads m) (thread_monitor m))) tm_assert"
  using assms by (simp add: thread_monitor_timeout_check_def timeout_loop_find)

theorem thread_monitor_exact_witness:
  "thread_monitor_timeout_check 100000
     \<lparr>num_of_threads = 2, enable_thread_monitor = True, thread_monitor =
       [\<lparr>tm_idx = 0, tm_name = ''POWER'', tm_assert = Some ''p'', timestamp_ms = 99000, timeout_ms = 10000\<rparr>,
        \<lparr>tm_idx = 1, tm_name = ''Wi-Fi'', tm_assert = Some ''w'', timestamp_ms = 64999, timeout_ms = 30000\<rparr>]\<rparr>
   = Some ''w''"
  by (subst thread_monitor_exact) (simp_all add: checked_in_def stalled_def fw_defs)

lemma timeout_loop_some:
  "e \<in> set es \<Longrightarrow> timestamp_ms e \<noteq> 0 \<Longrightarrow> late now e \<Longrightarrow> tm_assert e \<noteq> None \<Longrightarrow>
   \<exists>a. timeout_loop now es = Some a"
  by (induction es) (auto split: option.splits)

lemma late_after_wrap: "2 ^ 32 \<le> now \<Longrightarrow> timestamp_ms e = now mod 2 ^ 32 \<Longrightarrow> late now e"
proof -
  assume a: "2 ^ 32 \<le> now" "timestamp_ms e = now mod 2 ^ 32"
  have "now mod 2 ^ 32 \<le> now - 2 ^ 32" using a(1) by (simp add: le_mod_geq)
  then have "2 ^ 32 + timestamp_ms e \<le> now" using a by linarith
  moreover have "(timeout_ms e + THREAD_MONITOR_TIMEOUT_TOLERANCE_MS) mod 2 ^ 32 < 2 ^ 32" by simp
  ultimately show ?thesis unfolding late_def by linarith
qed

text \<open>
  Further: after \<open>2\<^sup>3\<^sup>2\<close> milliseconds (49.7 days) of uptime the monitor restarts the device although its
  threads are alive: the 64-bit time is compared with a 32-bit timestamp, so a thread that has just
  checked in counts as late at once.
\<close>

theorem manager_restarts_after_49_days:
  assumes g: "manager_ok g" "enable_thread_monitor (mgr_threads g)"
    and idx: "i < num_of_threads (mgr_threads g)" "tm_assert (thread_monitor (mgr_threads g) ! i) \<noteq> None"
    and now: "2 ^ 32 \<le> now" "now mod 2 ^ 32 \<noteq> 0"
  shows "\<exists>a. manager_run B [(now, Check_in (int i) to), (now, Loop_pass)] g = Inl a"
proof -
  let ?m = "mgr_threads g"
  let ?e = "(thread_monitor ?m ! i)\<lparr>timestamp_ms := now mod 2 ^ 32, timeout_ms := to\<rparr>"
  let ?m' = "?m\<lparr>thread_monitor := (thread_monitor ?m)[i := ?e]\<rparr>"
  have i: "i < length (thread_monitor ?m)" using g(1) idx(1) by (auto simp: manager_ok_def monitor_ok_def)
  then have c: "im_alive_cb (int i) (now mod 2 ^ 32) to ?m = Some ?m'"
    using idx(1) by (simp add: im_alive_cb_def write_entry_def)
  have "?e \<in> set (take (num_of_threads ?m) (thread_monitor ?m'))"
    using i idx(1) by (auto simp: in_set_conv_nth intro!: exI [of _ i])
  then obtain a where "timeout_loop now (take (num_of_threads ?m) (thread_monitor ?m')) = Some a"
    using timeout_loop_some [of ?e _ now] late_after_wrap [OF now(1), of ?e] idx(2) now(2) by auto
  then show ?thesis
    using c g(2) by (simp add: manager_step_def thread_monitor_timeout_check_def)
qed

definition running_manager :: manager where
  "running_manager =
     \<lparr>mgr_threads = \<lparr>num_of_threads = 1, enable_thread_monitor = True, thread_monitor =
        replicate THREAD_MONITOR_IDX_MAX
          \<lparr>tm_idx = 0, tm_name = ''POWER'', tm_assert = Some ''power_thread_stall_assert'', timestamp_ms = 1, timeout_ms = 10000\<rparr>\<rparr>,
      mgr_conn = manager_connectivity_monitor_init 300000 300000, mgr_thread_idx = 1, mgr_started = [''POWER'']\<rparr>"

theorem manager_restarts_after_49_days_witness:
  "\<exists>a. manager_run head_build [(4294967297, Check_in (int 0) 10000), (4294967297, Loop_pass)] running_manager = Inl a"
  by (rule manager_restarts_after_49_days)
    (simp_all add: running_manager_def manager_ok_def monitor_ok_def THREAD_MONITOR_IDX_MAX_def nth_replicate)

section \<open>Restart without a network\<close>

definition no_wifi_status :: "nat \<times> manager_event \<Rightarrow> bool" where
  "no_wifi_status e \<longleftrightarrow> (case snd e of Wifi_status st \<Rightarrow> False | _ \<Rightarrow> True)"

definition never_connected :: "manager \<Rightarrow> bool" where
  "never_connected g \<longleftrightarrow> \<not> wifi_connected (mgr_conn g) \<and> wifi_disconnect_ts (mgr_conn g) = 0
     \<and> wifi_to_ms (mgr_conn g) = MANAGER_CONNECTIVITY_MONITOR_WIFI_TIMEOUT_MS"

lemma manager_run_append:
  "manager_run B (es @ fs) g = (case manager_run B es g of Inr (Some g') \<Rightarrow> manager_run B fs g' | r \<Rightarrow> r)"
  by (induction B es g rule: manager_run.induct) (auto split: sum.splits option.splits)

lemma start_thread_conn: "start_thread b nm a g = Some g' \<Longrightarrow> mgr_conn g' = mgr_conn g"
  by (auto simp: start_thread_def split: if_splits option.splits)

lemma never_connected_step:
  "never_connected g \<Longrightarrow> no_wifi_status (now, ev) \<Longrightarrow> manager_step B now ev g = Inr (Some g') \<Longrightarrow> never_connected g'"
  by (cases ev)
    (auto simp: manager_step_def never_connected_def no_wifi_status_def start_wifi_thread_def
      manager_connectivity_transport_event_handler_def bind_eq_Some_conv
      split: option.splits transport_status.splits dest!: start_thread_conn)

lemma never_connected_run:
  "never_connected g \<Longrightarrow> list_all no_wifi_status es \<Longrightarrow> manager_run B es g = Inr (Some g') \<Longrightarrow> never_connected g'"
proof (induction es arbitrary: g)
  case (Cons e es)
  obtain now ev where e: "e = (now, ev)" by (cases e)
  obtain h where "manager_step B now ev g = Inr (Some h)" "manager_run B es h = Inr (Some g')"
    using Cons.prems(3) e by (auto split: sum.splits option.splits)
  then show ?case using Cons never_connected_step [of g now ev B h] e by auto
qed simp

lemma never_connected_restarts:
  assumes "never_connected g" "300000 < now" "now < 2 ^ 64"
  shows "\<exists>a. manager_step B now Loop_pass g = Inl a"
proof -
  have "for_longer now 0 MANAGER_CONNECTIVITY_MONITOR_WIFI_TIMEOUT_MS"
    using assms(2,3) by (simp add: for_longer_def fw_defs)
  then have "manager_connectivity_monitor now (mgr_conn g) = Some ''wifi timeout''"
    using assms(1) by (simp add: manager_connectivity_monitor_def never_connected_def fw_defs)
  then show ?thesis by (auto simp: manager_step_def split: option.splits)
qed

lemma manager_boot_never_connected:
  "manager_boot B trd MANAGER_CONNECTIVITY_MONITOR_WIFI_TIMEOUT_MS q = Some g \<Longrightarrow> never_connected g"
  by (auto simp: manager_boot_def start_managed_threads_def never_connected_def bind_eq_Some_conv
      connectivity_init_defs dest!: start_thread_conn)

text \<open>
  Further: with the configured timeout of five minutes, a device that has not reported a Wi-Fi status by then
  restarts at the first loop pass after it, whether or not its Wi-Fi thread was ever started: a device
  whose battery is too low for the power thread to start Wi-Fi restarts every five minutes.
\<close>

theorem manager_restarts_without_wifi:
  assumes boot: "manager_boot B trd MANAGER_CONNECTIVITY_MONITOR_WIFI_TIMEOUT_MS mqtt_to = Some g"
    and es: "list_all no_wifi_status es" "list_all index_nonneg es"
    and now: "300000 < now" "now < 2 ^ 64"
  shows "\<exists>a. manager_run B (es @ [(now, Loop_pass)]) g = Inl a"
proof -
  have "manager_ok g" using manager_boot_ok [of B trd MANAGER_CONNECTIVITY_MONITOR_WIFI_TIMEOUT_MS mqtt_to] boot by simp
  from manager_run_ok [OF this es(2), of B] show ?thesis
  proof
    assume "\<exists>g'. manager_run B es g = Inr (Some g') \<and> manager_ok g'"
    then obtain g' where r: "manager_run B es g = Inr (Some g')" by blast
    then have "never_connected g'"
      using never_connected_run [OF manager_boot_never_connected [OF boot] es(1)] by blast
    from never_connected_restarts [OF this now, of B] r show ?thesis by (auto simp: manager_run_append)
  qed (auto simp: manager_run_append)
qed

theorem manager_restarts_without_wifi_witness:
  "\<exists>g a. manager_boot head_build True
        MANAGER_CONNECTIVITY_MONITOR_WIFI_TIMEOUT_MS 300000 = Some g
     \<and> manager_run head_build
        ([(299000, Check_in 0 10000)] @ [(300100, Loop_pass)]) g = Inl a"
proof -
  obtain g where g: "manager_boot head_build True MANAGER_CONNECTIVITY_MONITOR_WIFI_TIMEOUT_MS 300000 = Some g"
    using manager_boot_ok by blast
  have "\<exists>a. manager_run head_build ([(299000, Check_in 0 10000)] @ [(300100, Loop_pass)]) g = Inl a"
    by (rule manager_restarts_without_wifi [OF g]) (simp_all add: no_wifi_status_def index_nonneg_def)
  then show ?thesis using g by blast
qed

end
