(* ===== verification/Shell.thy ===== *)
theory Shell
  imports CrashRecord Cfg HttpUpdate Transport Manager
begin

text \<open>
  The console commands that do more than print a value: storage/fs\_shell.c (all but the listing, the statistics
  and the erasing of the flash), shell\_cmds/shell\_retained\_ram.c, manager\_shell.c, http\_update\_shell.c,
  shell\_mqtt.c and cfg/cfg\_shell.c.
  \<open>argv\<close> is the list of the words typed, the command's name first; behind its end there is no string, and a
  command that uses one is \<open>None\<close>. What a command prints is a list of items; every command returns a result.
\<close>

definition word :: "nat \<Rightarrow> string list \<Rightarrow> string option" where
  "word i argv = (if i < length argv then Some (argv ! i) else None)"

datatype shell_out =
    Usage nat
  | Offset nat
  | Read_bytes int
  | Dump string
  | Text_line string
  | Failed int
  | Value int
  | Did

section \<open>fs\_shell.c\<close>

definition CHUNK_SIZE :: nat where "CHUNK_SIZE = 64"
definition ASCII_CHUNK_SIZE :: nat where "ASCII_CHUNK_SIZE = 1024"

text \<open>The loop of the command \<open>read\<close>; it has no bound of its own.\<close>

partial_function (option) fs_read_loop ::
  "'f fs_api \<Rightarrow> string \<Rightarrow> nat \<Rightarrow> shell_out list \<Rightarrow> 'f \<Rightarrow> (shell_out list \<times> 'f) option" where
  "fs_read_loop A name offset out f =
     (case storage_read A name offset CHUNK_SIZE f of
        (rc, data, f1) \<Rightarrow>
          if rc < 0 then Some (out @ [Offset offset, Read_bytes rc, Failed rc], f1)
          else if rc < int CHUNK_SIZE then Some (out @ [Offset offset, Read_bytes rc, Dump data], f1)
          else fs_read_loop A name (offset + nat rc) (out @ [Offset offset, Read_bytes rc, Dump data]) f1)"

definition cmd_fs_read :: "'f fs_api \<Rightarrow> string list \<Rightarrow> 'f \<Rightarrow> (int \<times> shell_out list \<times> 'f) option" where
  "cmd_fs_read A argv f =
     (if length argv < 2 then Some (0, [Usage (length argv)], f)
      else map_option (\<lambda>(out, f1). (0, out, f1)) (fs_read_loop A (argv ! 1) 0 [] f))"

text \<open>
  The loop of \<open>read_ascii\<close> asks for \<open>CHUNK_SIZE\<close> bytes and compares with the size of its array, \<open>ASCII_CHUNK_SIZE\<close>.
  \<open>stack\<close> is what the array holds before; the text printed is the C string at its start, so an array without
  a zero byte is read past its end.
\<close>

partial_function (option) fs_read_ascii_loop ::
  "'f fs_api \<Rightarrow> string \<Rightarrow> nat \<Rightarrow> string \<Rightarrow> shell_out list \<Rightarrow> 'f \<Rightarrow> (shell_out list \<times> 'f) option" where
  "fs_read_ascii_loop A name offset stack out f =
     (case storage_read A name offset CHUNK_SIZE f of
        (rc, data, f1) \<Rightarrow>
          if rc < 0 then Some (out @ [Offset offset, Read_bytes rc, Failed rc], f1)
          else let arr = data @ drop (length data) stack;
                   out1 = out @ [Offset offset, Read_bytes rc, Text_line (c_str arr)]
               in if NUL \<notin> set arr then None
                  else if rc < int ASCII_CHUNK_SIZE then Some (out1, f1)
                  else fs_read_ascii_loop A name (offset + nat rc) arr out1 f1)"

definition cmd_fs_read_ascii :: "'f fs_api \<Rightarrow> string \<Rightarrow> string list \<Rightarrow> 'f \<Rightarrow> (int \<times> shell_out list \<times> 'f) option" where
  "cmd_fs_read_ascii A stack argv f =
     (if length argv < 2 then Some (0, [Usage (length argv)], f)
      else map_option (\<lambda>(out, f1). (0, out, f1)) (fs_read_ascii_loop A (argv ! 1) 0 stack [] f))"

definition cmd_fs_write :: "'f fs_api \<Rightarrow> string list \<Rightarrow> 'f \<Rightarrow> int \<times> shell_out list \<times> 'f" where
  "cmd_fs_write A argv f =
     (if length argv < 3 then (0, [Usage (length argv)], f)
      else let (rc, f1) = storage_write A (argv ! 1) (argv ! 2) f
           in if rc < 0 then (rc, [Failed rc], f1) else (0, [Value rc], f1))"

text \<open>
  The file is opened with \<open>FS_O_APPEND\<close>: \<open>fs_append\<close> is \<open>fs_write\<close> on such a file. The message of a failed write
  shows the result of opening it.
\<close>

definition append_ok :: "(string \<Rightarrow> string \<Rightarrow> 'f \<Rightarrow> int \<times> 'f) \<Rightarrow> ('f \<Rightarrow> string \<Rightarrow> string option) \<Rightarrow> bool" where
  "append_ok fs_append files \<longleftrightarrow>
     (\<forall>p bs f. fst (fs_append p bs f) \<le> int (length bs)
       \<and> files (snd (fs_append p bs f)) =
          (if 0 \<le> fst (fs_append p bs f)
           then (files f)(p \<mapsto> content (files f p) @ take (nat (fst (fs_append p bs f))) bs) else files f))"

definition cmd_fs_append ::
  "'f fs_api \<Rightarrow> (string \<Rightarrow> string \<Rightarrow> 'f \<Rightarrow> int \<times> 'f) \<Rightarrow> string list \<Rightarrow> 'f \<Rightarrow> int \<times> shell_out list \<times> 'f" where
  "cmd_fs_append A fs_append argv f =
     (if length argv < 3 then (0, [Usage (length argv)], f)
      else let p = storage_path (argv ! 1); (rc, f1) = fs_open A p True f;
               (out, f2) =
                 (if rc < 0 then ([Failed rc], f1)
                  else let (len, f2) = fs_append p (argv ! 2) f1 in (if len < 0 then [Failed rc] else [], f2));
               (ret, f3) = fs_close A p f2
           in if ret < 0 then (ret, out @ [Failed ret], f3) else (0, out, f3))"

definition cmd_fs_remove :: "'f fs_api \<Rightarrow> string list \<Rightarrow> 'f \<Rightarrow> int \<times> shell_out list \<times> 'f" where
  "cmd_fs_remove A argv f =
     (if length argv < 2 then (0, [Usage (length argv)], f)
      else let (rc, f1) = storage_remove A (argv ! 1) f
           in (0, [if rc < 0 then Failed rc else Value rc], f1))"

definition cmd_fs_move :: "'f fs_api \<Rightarrow> string list \<Rightarrow> 'f \<Rightarrow> int \<times> shell_out list \<times> 'f" where
  "cmd_fs_move A argv f =
     (if length argv < 3 then (0, [Usage (length argv)], f)
      else let (rc, f1) = storage_move A (argv ! 1) (argv ! 2) f
           in (0, [if rc < 0 then Failed rc else Value rc], f1))"

text \<open>The counter commands do not look at \<open>argc\<close>. \<open>junk\<close> is what the uninitialised \<open>result\<close> holds.\<close>

definition print_counter :: "int \<times> int \<times> 'f \<Rightarrow> int \<times> shell_out list \<times> 'f" where
  "print_counter r = (case r of (rc, v, f) \<Rightarrow> (0, [if rc < 0 then Failed rc else Value v], f))"

definition cmd_fs_counter_set :: "'f fs_api \<Rightarrow> int \<Rightarrow> string list \<Rightarrow> 'f \<Rightarrow> (int \<times> shell_out list \<times> 'f) option" where
  "cmd_fs_counter_set A junk argv f =
     (case (word 1 argv, word 2 argv) of
        (Some name, Some v) \<Rightarrow> Some (print_counter (storage_counter_set A name (atoi v) junk f))
      | _ \<Rightarrow> None)"

definition cmd_fs_counter_get :: "'f fs_api \<Rightarrow> int \<Rightarrow> string list \<Rightarrow> 'f \<Rightarrow> (int \<times> shell_out list \<times> 'f) option" where
  "cmd_fs_counter_get A junk argv f =
     map_option (\<lambda>name. print_counter (storage_counter_get A name junk f)) (word 1 argv)"

definition cmd_fs_counter_adjust :: "'f fs_api \<Rightarrow> int \<Rightarrow> string list \<Rightarrow> 'f \<Rightarrow> (int \<times> shell_out list \<times> 'f) option" where
  "cmd_fs_counter_adjust A junk argv f =
     (case (word 1 argv, word 2 argv) of
        (Some name, Some v) \<Rightarrow> Some (print_counter (storage_counter_adjust A name (atoi v) junk f))
      | _ \<Rightarrow> None)"

section \<open>Reading a file on the console\<close>

lemma storage_read_reliable:
  assumes ok: "fs_ok A files" and rel: "reliable A files" and n: "0 < n"
    and bs: "bs = take n (drop offset (content (files f (storage_path name))))"
  shows "\<exists>f1. storage_read A name offset n f = (int (length bs), bs, f1)
    \<and> files f1 = (files f)(storage_path name \<mapsto> content (files f (storage_path name)))"
proof -
  let ?p = "storage_path name" and ?f1 = "snd (fs_open A (storage_path name) True f)"
  note r = reliableD [OF rel]
  have f1: "files ?f1 = (files f)(?p \<mapsto> content (files f ?p))" using fs_ok_open [OF ok, of ?p True f] r(1) by simp
  have "fs_read A ?p offset n ?f1 = (int (length bs), bs)"
    using fs_ok_read [OF ok r(2), of ?p offset n ?f1] by (simp add: f1 bs content_def Let_def)
  then have "storage_read A name offset n f = (int (length bs), bs, snd (fs_close A ?p ?f1))"
    using n r(1) [of ?p f] r(3) [of ?p offset ?f1] by (simp add: storage_read_def Let_def split_beta)
  then show ?thesis by (simp add: fs_ok_close [OF ok] f1)
qed

text \<open>The bytes dumped, and the reads made.\<close>

fun dumped :: "shell_out list \<Rightarrow> string" where
  "dumped [] = []"
| "dumped (Dump d # xs) = d @ dumped xs"
| "dumped (x # xs) = dumped xs"

fun reads :: "shell_out list \<Rightarrow> nat" where
  "reads [] = 0"
| "reads (Read_bytes r # xs) = Suc (reads xs)"
| "reads (x # xs) = reads xs"

lemma read_loop_dumps:
  assumes ok: "fs_ok A files" and rel: "reliable A files"
  shows "content (files f (storage_path name)) = c \<Longrightarrow> offset \<le> length c \<Longrightarrow>
    \<exists>out' f'. fs_read_loop A name offset out f = Some (out @ out', f') \<and> dumped out' = drop offset c
      \<and> reads out' = (length c - offset) div CHUNK_SIZE + 1 \<and> files f' = (files f)(storage_path name \<mapsto> c)"
proof (induction "length c - offset" arbitrary: offset out f rule: less_induct)
  case less
  let ?bs = "take 64 (drop offset c)"
  obtain f1 where f1: "storage_read A name offset 64 f = (int (length ?bs), ?bs, f1)"
    "files f1 = (files f)(storage_path name \<mapsto> c)"
    using storage_read_reliable [OF ok rel, of 64 ?bs offset f name] less.prems(1) by auto
  have l: "length ?bs = min (length c - offset) 64" by simp
  show ?case
  proof (cases "length c - offset < 64")
    case True
    then show ?thesis using f1 l by (subst fs_read_loop.simps) (simp add: CHUNK_SIZE_def)
  next
    case False
    then have n: "length ?bs = 64" "offset + 64 \<le> length c" using l less.prems(2) by simp_all
    have lt: "length c - (offset + 64) < length c - offset" using n(2) by simp
    have c: "content (files f1 (storage_path name)) = c" using f1(2) by (simp add: content_def)
    obtain out' f' where o: "fs_read_loop A name (offset + 64) (out @ [Offset offset, Read_bytes 64, Dump ?bs]) f1 =
        Some ((out @ [Offset offset, Read_bytes 64, Dump ?bs]) @ out', f')" "dumped out' = drop (offset + 64) c"
      "reads out' = (length c - (offset + 64)) div CHUNK_SIZE + 1" "files f' = (files f1)(storage_path name \<mapsto> c)"
      using less.hyps [OF lt c n(2), of "out @ [Offset offset, Read_bytes 64, Dump ?bs]"] by blast
    have "fs_read_loop A name offset out f = Some (out @ ([Offset offset, Read_bytes 64, Dump ?bs] @ out'), f')"
      using f1 n o(1) by (subst fs_read_loop.simps) (simp add: CHUNK_SIZE_def)
    moreover have "?bs @ drop (offset + 64) c = drop offset c"
      by (metis add.commute append_take_drop_id drop_drop)
    moreover have "(length c - offset) div 64 = (length c - (offset + 64)) div 64 + 1"
      using n(2) le_div_geq [of 64 "length c - offset"] by simp
    ultimately show ?thesis using o f1(2) by (intro exI [of _ "[Offset offset, Read_bytes 64, Dump ?bs] @ out'"] exI [of _ f'])
      (simp add: CHUNK_SIZE_def)
  qed
qed

text \<open>
  C28: reading a file on the console ends and shows the whole file: on a file system that does not fail, the loop
  makes one read for every 64 bytes and one more, the dumped bytes are exactly the content in order, and no
  other file changes; a file that did not exist exists afterwards, empty.
\<close>

theorem fs_read_dumps_file:
  assumes ok: "fs_ok A files" and rel: "reliable A files" and argv: "2 \<le> length argv"
  shows "\<exists>out f'. cmd_fs_read A argv f = Some (0, out, f')
    \<and> dumped out = content (files f (storage_path (argv ! 1)))
    \<and> reads out = length (content (files f (storage_path (argv ! 1)))) div 64 + 1
    \<and> files f' = (files f)(storage_path (argv ! 1) \<mapsto> content (files f (storage_path (argv ! 1))))"
  using read_loop_dumps [OF ok rel refl, of 0 f "argv ! 1" "[]"] argv
  by (auto simp: cmd_fs_read_def CHUNK_SIZE_def)

theorem fs_read_dumps_file_witness:
  "\<exists>out f'. cmd_fs_read ram_fs [''read'', ''a''] [storage_path ''a'' \<mapsto> replicate 64 CHR ''x'' @ ''yz''] = Some (0, out, f')
     \<and> dumped out = replicate 64 CHR ''x'' @ ''yz'' \<and> reads out = 2"
  using fs_read_dumps_file [OF ram_fs_ok ram_fs_reliable, of "[''read'', ''a'']"
      "[storage_path ''a'' \<mapsto> replicate 64 CHR ''x'' @ ''yz'']"]
  by (auto simp: content_def)

text \<open>
  Further: \<open>read_ascii\<close> shows at most the first 64 bytes of a file: it always stops after one read, prints those bytes
  and whatever its array held behind them up to the first zero byte, and reads past the array when neither
  contains one.
\<close>

theorem fs_read_ascii_first_chunk:
  assumes ok: "fs_ok A files" and rel: "reliable A files" and argv: "2 \<le> length argv"
    and c: "c = content (files f (storage_path (argv ! 1)))"
    and arr: "arr = take 64 c @ drop (min 64 (length c)) stack"
  shows "map_option (\<lambda>(rc, out, f'). (rc, out)) (cmd_fs_read_ascii A stack argv f) =
    (if NUL \<in> set arr
     then Some (0, [Offset 0, Read_bytes (int (min 64 (length c))), Text_line (c_str arr)]) else None)"
proof -
  obtain f1 where f1: "storage_read A (argv ! 1) 0 64 f = (int (length (take 64 c)), take 64 c, f1)"
    using storage_read_reliable [OF ok rel, of 64 "take 64 c" 0 f "argv ! 1"] c by auto
  moreover have "min (length c) 64 < 1024" by (rule le_less_trans [of _ 64]) simp_all
  ultimately have "fs_read_ascii_loop A (argv ! 1) 0 stack [] f =
      (if NUL \<in> set arr then Some ([Offset 0, Read_bytes (int (min 64 (length c))), Text_line (c_str arr)], f1) else None)"
    by (subst fs_read_ascii_loop.simps) (simp add: CHUNK_SIZE_def ASCII_CHUNK_SIZE_def arr min.commute Let_def)
  then show ?thesis using argv by (simp add: cmd_fs_read_ascii_def)
qed

theorem fs_read_ascii_first_chunk_witness:
  "map_option (\<lambda>(rc, out, f'). (rc, out)) (cmd_fs_read_ascii ram_fs (replicate 1024 NUL) [''read_ascii'', ''a'']
       [storage_path ''a'' \<mapsto> replicate 64 CHR ''x'' @ ''yz''])
     = Some (0, [Offset 0, Read_bytes 64, Text_line (replicate 64 CHR ''x'')])"
proof -
  let ?arr = "replicate 64 CHR ''x'' @ replicate 960 NUL"
  have "c_str ?arr = replicate 64 CHR ''x''" by (simp add: c_str_def takeWhile_tail numeral_eq_Suc)
  then show ?thesis
    using fs_read_ascii_first_chunk [OF ram_fs_ok ram_fs_reliable, of "[''read_ascii'', ''a'']"
        "replicate 64 CHR ''x'' @ ''yz''" "[storage_path ''a'' \<mapsto> replicate 64 CHR ''x'' @ ''yz'']" ?arr "replicate 1024 NUL"]
    by (auto simp: content_def)
qed

lemma append_files:
  assumes ok: "fs_ok A files" and rel: "reliable A files" and ap: "append_ok fs_append files" and argv: "3 \<le> length argv"
  shows "\<exists>out f'. cmd_fs_append A fs_append argv f = (0, out, f')
    \<and> (let p = storage_path (argv ! 1); len = fst (fs_append p (argv ! 2) (snd (fs_open A p True f)))
       in (out = [] \<longleftrightarrow> 0 \<le> len)
          \<and> files f' = (files f)(p \<mapsto> content (files f p) @ take (nat len) (argv ! 2)))"
proof -
  let ?p = "storage_path (argv ! 1)"
  let ?f1 = "snd (fs_open A ?p True f)"
  let ?r = "fs_append ?p (argv ! 2) ?f1"
  note r = reliableD [OF rel]
  have o: "0 \<le> fst (fs_open A ?p True f)" by (rule r(1))
  have f1: "files ?f1 = (files f)(?p \<mapsto> content (files f ?p))" using fs_ok_open [OF ok, of ?p True f] o by simp
  have f2: "files (snd ?r) = (files f)(?p \<mapsto> content (files f ?p) @ take (nat (fst ?r)) (argv ! 2))"
    using ap f1 by (auto simp: append_ok_def content_def)
  have "0 \<le> fst (fs_close A ?p (snd ?r))" by (rule r(5))
  then have "cmd_fs_append A fs_append argv f =
      (0, if fst ?r < 0 then [Failed (fst (fs_open A ?p True f))] else [], snd (fs_close A ?p (snd ?r)))"
    using argv o by (simp add: cmd_fs_append_def Let_def split_beta)
  then show ?thesis using f2 fs_ok_close [OF ok] by (auto simp: Let_def)
qed

text \<open>
  Further: text appended to a file on the console is read back behind the old content: the file shown by \<open>read\<close> is the
  old file followed by the text; if the disk takes only part of the text that part follows, and nothing is
  reported. A failed write is reported with the result of opening the file. The command answers 0 in every case.
\<close>

theorem fs_append_then_read:
  assumes ok: "fs_ok A files" and rel: "reliable A files" and ap: "append_ok fs_append files"
    and argv: "3 \<le> length argv" "2 \<le> length argv'" "argv' ! 1 = argv ! 1"
  shows "\<exists>out f1 out' f2 k. cmd_fs_append A fs_append argv f = (0, out, f1)
    \<and> cmd_fs_read A argv' f1 = Some (0, out', f2)
    \<and> dumped out' = content (files f (storage_path (argv ! 1))) @ take k (argv ! 2)
    \<and> (if 0 \<le> fst (fs_append (storage_path (argv ! 1)) (argv ! 2) (snd (fs_open A (storage_path (argv ! 1)) True f)))
       then out = [] \<and> int k = fst (fs_append (storage_path (argv ! 1)) (argv ! 2) (snd (fs_open A (storage_path (argv ! 1)) True f)))
       else out \<noteq> [] \<and> k = 0)"
proof -
  let ?p = "storage_path (argv ! 1)"
  let ?len = "fst (fs_append ?p (argv ! 2) (snd (fs_open A ?p True f)))"
  obtain out f1 where a: "cmd_fs_append A fs_append argv f = (0, out, f1)" "out = [] \<longleftrightarrow> 0 \<le> ?len"
    "files f1 = (files f)(?p \<mapsto> content (files f ?p) @ take (nat ?len) (argv ! 2))"
    using append_files [OF ok rel ap argv(1), of f] by (auto simp: Let_def)
  obtain out' f2 where "fs_read_loop A (argv ! 1) 0 [] f1 = Some (out', f2)" "dumped out' = content (files f1 ?p)"
    using read_loop_dumps [OF ok rel refl, of 0 f1 "argv ! 1" "[]"] by auto
  then have "cmd_fs_read A argv' f1 = Some (0, out', f2)
      \<and> dumped out' = content (files f ?p) @ take (nat ?len) (argv ! 2)"
    using a(3) argv(2,3) by (simp add: cmd_fs_read_def content_def)
  then show ?thesis using a by (intro exI [of _ out] exI [of _ f1] exI [of _ out'] exI [of _ f2] exI [of _ "nat ?len"]) auto
qed

definition ram_append :: "string \<Rightarrow> string \<Rightarrow> (string \<Rightarrow> string option) \<Rightarrow> int \<times> (string \<Rightarrow> string option)" where
  "ram_append p bs f = (int (length bs), f(p \<mapsto> content (f p) @ bs))"

lemma ram_append_ok: "append_ok ram_append (\<lambda>f. f)"
  by (simp add: append_ok_def ram_append_def)

theorem fs_append_then_read_witness:
  "\<exists>out f1 out' f2. cmd_fs_append ram_fs ram_append [''append'', ''a'', ''new''] [storage_path ''a'' \<mapsto> ''old''] = (0, out, f1)
     \<and> cmd_fs_read ram_fs [''read'', ''a''] f1 = Some (0, out', f2) \<and> dumped out' = ''oldnew''"
proof -
  have k: "int k = 3 \<Longrightarrow> take k ''new'' = ''new''" for k by (cases "k = 3") auto
  show ?thesis
    using fs_append_then_read [OF ram_fs_ok ram_fs_reliable ram_append_ok, of "[''append'', ''a'', ''new'']" "[''read'', ''a'']"
        "[storage_path ''a'' \<mapsto> ''old'']"] k
    by (fastforce simp: ram_append_def content_def)
qed

section \<open>shell\_retained\_ram.c\<close>

definition retained_cmd_init :: "(string \<Rightarrow> int) \<Rightarrow> retained_data \<Rightarrow> shell_out list \<times> retained_data" where
  "retained_cmd_init crc32 r = (let (valid, r1) = retained_ram_init crc32 r in ([Value (if valid then 1 else 0)], r1))"

text \<open>\<open>strcpy\<close> into the 64 bytes of \<open>test_str\<close>.\<close>

definition retained_cmd_write :: "(string \<Rightarrow> int) \<Rightarrow> string list \<Rightarrow> retained_data \<Rightarrow> retained_data option" where
  "retained_cmd_write crc32 argv r =
     (case word 1 argv of
        None \<Rightarrow> Some r
      | Some w \<Rightarrow> map_option (\<lambda>b. retained_update crc32 (r\<lparr>test_str := b\<rparr>)) (buf_put (test_str r) (w @ [NUL])))"

definition retained_cmd_validate :: "(string \<Rightarrow> int) \<Rightarrow> retained_data \<Rightarrow> shell_out list \<times> retained_data" where
  "retained_cmd_validate crc32 r =
     (let (valid, r1) = retained_validate crc32 r in ([Value (if valid then 1 else 0)], r1))"

definition retained_cmd_erase :: "(string \<Rightarrow> int) \<Rightarrow> retained_data" where
  "retained_cmd_erase crc32 = retained_ram_erase crc32"

definition retained_cmd_save :: "'f fs_api \<Rightarrow> retained_data \<Rightarrow> 'f \<Rightarrow> 'f" where
  "retained_cmd_save A r f = retained_ram_to_files_save A r f"

text \<open>
  Further: the console can write into retained memory exactly the words of at most 63 characters; the word is then the
  test string, the three crash records and the counters are untouched and the memory is valid. A longer word is
  written over the crash records behind the test string.
\<close>

theorem retained_write_bound:
  assumes crc: "crc_ok crc32" and r: "retained_ok r" and w: "word 1 argv = Some w" "NUL \<notin> set w"
  shows "case retained_cmd_write crc32 argv r of
      None \<Rightarrow> 64 \<le> length w
    | Some r' \<Rightarrow> length w < 64 \<and> c_str (test_str r') = w \<and> retained_ok r' \<and> fst (retained_validate crc32 r')
        \<and> r'\<lparr>test_str := test_str r, crc := crc r\<rparr> = r"
proof (cases "length w < 64")
  case True
  then obtain b where b: "buf_put (test_str r) (w @ [NUL]) = Some b" "b = w @ NUL # drop (Suc (length w)) (test_str r)"
    using r by (auto simp: buf_put_def retained_ok_def)
  have "c_str b = w" by (simp add: b(2) c_str_append w(2))
  moreover have "length b = 64" using r True by (simp add: b(2) retained_ok_def)
  ultimately show ?thesis using True r b(1) w(1) retained_update_valid [OF crc, of "r\<lparr>test_str := b\<rparr>"]
    by (simp add: retained_cmd_write_def retained_update_def retained_ok_def)
next
  case False
  then show ?thesis using r w(1) by (simp add: retained_cmd_write_def buf_put_def retained_ok_def)
qed

theorem retained_write_bound_witness:
  "retained_cmd_write sample_crc [''write'', replicate 64 CHR ''x''] retained_zero = None"
  using retained_write_bound [OF sample_crc_ok zero_ok, of "[''write'', replicate 64 CHR ''x'']" "replicate 64 CHR ''x''"]
  by (auto simp: word_def split: option.splits)

section \<open>manager\_shell.c\<close>

definition cmd_manager_timeout :: "string list \<Rightarrow> thread_monitors \<Rightarrow> thread_monitors option" where
  "cmd_manager_timeout argv m =
     (case word 1 argv of None \<Rightarrow> None | Some w \<Rightarrow> thread_monitor_timeout_artificial (atoi w) m)"

definition cmd_manager_connectivity_timeout_wifi :: "string list \<Rightarrow> connectivity \<Rightarrow> connectivity option" where
  "cmd_manager_connectivity_timeout_wifi argv c =
     map_option (\<lambda>w. manager_connectivity_monitor_wifi_timeout_set (atoi w) c) (word 1 argv)"

definition cmd_manager_connectivity_timeout_transport :: "string list \<Rightarrow> connectivity \<Rightarrow> connectivity option" where
  "cmd_manager_connectivity_timeout_transport argv c =
     map_option (\<lambda>w. manager_connectivity_monitor_transport_timeout_set (atoi w) c) (word 1 argv)"

text \<open>
  Further: the console command that lets a thread time out does so for every thread: with the number of a watched
  thread the next check later than the thread's timeout plus five seconds restarts the device, a number behind
  the last thread changes nothing, and a negative number writes outside the array of monitors.
\<close>

theorem manager_timeout_command:
  assumes m: "monitor_ok m" "enable_thread_monitor m" and w: "word 1 argv = Some w"
  shows "case cmd_manager_timeout argv m of
      None \<Rightarrow> atoi w < 0
    | Some m' \<Rightarrow> 0 \<le> atoi w
        \<and> (if int (num_of_threads m) \<le> atoi w then m' = m
           else tm_assert (thread_monitor m ! nat (atoi w)) = None
             \<or> (\<forall>now. int now > 1 + int ((timeout_ms (thread_monitor m ! nat (atoi w)) + THREAD_MONITOR_TIMEOUT_TOLERANCE_MS) mod 2 ^ 32)
                  \<longrightarrow> thread_monitor_timeout_check now m' \<noteq> None))"
proof (cases "0 \<le> atoi w \<and> atoi w < int (num_of_threads m)")
  case True
  let ?i = "nat (atoi w)"
  let ?e = "(thread_monitor m ! ?i)\<lparr>timestamp_ms := 1\<rparr>"
  let ?m' = "m\<lparr>thread_monitor := (thread_monitor m)[?i := ?e]\<rparr>"
  have i: "?i < num_of_threads m" "?i < length (thread_monitor m)" using True m(1) by (auto simp: monitor_ok_def)
  then have c: "cmd_manager_timeout argv m = Some ?m'"
    using True w by (simp add: cmd_manager_timeout_def thread_monitor_timeout_artificial_def write_entry_def)
  have e: "?e \<in> set (take (num_of_threads m) (thread_monitor ?m'))" using i by (auto simp: in_set_conv_nth intro!: exI [of _ ?i])
  have "thread_monitor_timeout_check now ?m' \<noteq> None"
    if "tm_assert (thread_monitor m ! ?i) \<noteq> None"
      "int now > 1 + int ((timeout_ms (thread_monitor m ! ?i) + THREAD_MONITOR_TIMEOUT_TOLERANCE_MS) mod 2 ^ 32)" for now
    using timeout_loop_some [OF e, of now] that m(2) by (auto simp: late_def thread_monitor_timeout_check_def)
  then show ?thesis using True c by auto
next
  case False
  then show ?thesis using w by (auto simp: cmd_manager_timeout_def thread_monitor_timeout_artificial_def write_entry_def)
qed

lemma atoi_0: "atoi ''0'' = 0"
  by (simp add: atoi_def is_dec_digit_def)

theorem manager_timeout_command_witness:
  "\<exists>m'. cmd_manager_timeout [''thread_timeout'', ''0''] (mgr_threads running_manager) = Some m'
     \<and> thread_monitor_timeout_check 20000 m' \<noteq> None"
proof -
  have m: "monitor_ok (mgr_threads running_manager)" "enable_thread_monitor (mgr_threads running_manager)"
    by (simp_all add: running_manager_def monitor_ok_def THREAD_MONITOR_IDX_MAX_def)
  have w: "word 1 [''thread_timeout'', ''0''] = Some ''0''" by (simp add: word_def)
  show ?thesis
    using manager_timeout_command [OF m w]
    by (auto simp: atoi_0 running_manager_def fw_defs split: option.splits)
qed

section \<open>http\_update\_shell.c\<close>

text \<open>
  The command counts its own name among the arguments it asks for: with the image's address and file name typed,
  \<open>argc\<close> is 3, for which the code takes the install mode from \<open>argv[3]\<close>.
\<close>

definition shell_update :: "http_env \<Rightarrow> string list \<Rightarrow> http \<Rightarrow> (shell_out list \<times> http) option" where
  "shell_update E argv s =
     (if length argv < 2 then Some ([Usage (length argv)], s)
      else let install = (if length argv = 2 then Some ''now'' else word 3 argv);
               retries = (if length argv = 2 \<or> length argv = 3 then Some 0 else map_option atoi (word 4 argv))
           in case (word 2 argv, install, retries) of
                (Some file, Some inst, Some n) \<Rightarrow>
                  Some ([Text_line (argv ! 1), Text_line file], http_update_start E (argv ! 1) file inst s)
              | _ \<Rightarrow> None)"

lemma start_target: "ota_target (http_update_start E h f i s) = ota_target s"
  by (simp add: http_update_start_def http_update_stop_def http_update_status_send_def http_do_def Let_def split_beta)

lemma fota_target: "ota_target (snd (fota_dl_handler E evt s)) = ota_target s" if "ota_target s \<noteq> 0" "ota_target s \<noteq> 1"
  using that
  by (cases evt) (simp_all add: fota_dl_handler_def on_finished_def on_progress_def http_update_stop_def
      http_update_status_send_def http_do_def Let_def split_beta)

lemma fota_no_reboot: "fst (fota_dl_handler E evt s)" if "ota_target s \<noteq> 0" "ota_target s \<noteq> 1"
  using that by (cases evt) (simp_all add: fota_dl_handler_def on_finished_def Let_def)



section \<open>shell\_mqtt.c\<close>

definition cmd_mqtt_pub ::
  "('q, transport_msg) msgq_ops \<Rightarrow> alloc \<Rightarrow> string list \<Rightarrow> 'q transport \<Rightarrow> shell_out list \<times> 'q transport" where
  "cmd_mqtt_pub ops alloc argv s =
     (if length argv < 3 then ([Text_line ''error - pass in [topic] [payload] strings''], s)
      else let qos = (if length argv > 3 then atoi (argv ! 3) else 1)
           in if qos < 0 \<or> qos > 2 then ([Text_line ''error - qos must be 0, 1, or 2''], s)
              else ([Text_line (argv ! 1), Text_line (argv ! 2), Value qos],
                    snd (transport_publish ops alloc (Some (argv ! 1)) (Some (argv ! 2)) (nat qos) s)))"

text \<open>The message id is the low half of the uptime.\<close>

definition cmd_mqtt_sub :: "nat \<Rightarrow> int \<Rightarrow> string list \<Rightarrow> 'q transport \<Rightarrow> shell_out list \<times> 'q transport" where
  "cmd_mqtt_sub uptime_ms sub_ret argv s =
     (case word 1 argv of
        None \<Rightarrow> ([Text_line ''error - pass in [topic] string''], s)
      | Some t \<Rightarrow> ([Text_line t], transport_subscribe [t] (uptime_ms mod 2 ^ 16) sub_ret s))"

definition cmd_mqtt_pubq :: "('q, transport_msg) msgq_ops \<Rightarrow> 'q transport \<Rightarrow> shell_out list" where
  "cmd_mqtt_pubq ops s = [Value (int (transport_queue_pending ops (tr_queue s)))]"

section \<open>cfg\_shell.c\<close>

text \<open>
  \<open>cfg\<close> is the configuration in use, \<open>junk\<close> what the local structure holds. The command decodes into the local
  structure and prints the one in use. The file is not closed; the terminator goes behind the bytes read.
\<close>

definition cmd_cfg_parse ::
  "'f fs_api \<Rightarrow> json_parser \<Rightarrow> cfg_t \<Rightarrow> cfg_t \<Rightarrow> string list \<Rightarrow> 'f \<Rightarrow> (shell_out list \<times> cfg_t option \<times> 'f) option" where
  "cmd_cfg_parse A parse cfg junk argv f =
     (if length argv < 2 then Some ([Usage (length argv)], None, f)
      else let p = storage_path (argv ! 1); (rc, f1) = fs_open A p True f
           in if rc < 0 then Some ([Text_line p, Failed rc], None, f1)
              else let (rc, bs) = fs_read A p 0 1024 f1
                   in if rc < 0 then Some ([Text_line p, Failed rc], None, f1)
                      else if rc \<ge> 1024 then None
                      else let (rc, parsed) = cfg_decode parse (c_str bs) junk
                           in if rc < 0 then Some ([Text_line p, Text_line (c_str bs), Failed rc], None, f1)
                              else Some ([Text_line p, Text_line (c_str bs)], Some cfg, f1))"

text \<open>
  Further: the configuration the command prints after parsing a file is the one in use, whatever the file holds;
  it parses files of at most 1023 bytes and stores outside its array for longer ones.
\<close>

theorem cfg_parse_prints_current:
  assumes ok: "fs_ok A files" and rel: "reliable A files" and argv: "2 \<le> length argv"
  shows "case cmd_cfg_parse A parse cfg junk argv f of
      None \<Rightarrow> 1024 \<le> length (content (files f (storage_path (argv ! 1))))
    | Some (out, printed, f') \<Rightarrow> length (content (files f (storage_path (argv ! 1)))) < 1024
        \<and> printed = (if fst (cfg_decode parse (c_str (content (files f (storage_path (argv ! 1))))) junk) < 0
                     then None else Some cfg)"
proof -
  let ?p = "storage_path (argv ! 1)"
  let ?f1 = "snd (fs_open A ?p True f)" and ?c = "content (files f (storage_path (argv ! 1)))"
  note r = reliableD [OF rel]
  have "files ?f1 = (files f)(?p \<mapsto> ?c)" using fs_ok_open [OF ok, of ?p True f] r(1) by simp
  then have rd: "fs_read A ?p 0 1024 ?f1 = (int (min (length ?c) 1024), take 1024 ?c)"
    using fs_ok_read [OF ok r(2), of ?p 0 1024 ?f1] by (simp add: content_def Let_def)
  have o: "\<not> fst (fs_open A ?p True f) < 0" using r(1) [of ?p f] by simp
  show ?thesis
  proof (cases "length ?c < 1024")
    case True
    then show ?thesis using argv o rd
      by (cases "cfg_decode parse (c_str ?c) junk") (simp add: cmd_cfg_parse_def Let_def split_beta)
  next
    case False
    then show ?thesis using argv o rd by (simp add: cmd_cfg_parse_def Let_def split_beta)
  qed
qed

theorem cfg_parse_prints_current_witness:
  "\<forall>cfg junk. \<exists>out f'. cmd_cfg_parse ram_fs (\<lambda>s c. (1, c)) cfg junk [''parse'', ''a''] [storage_path ''a'' \<mapsto> ''{}''] = Some (out, Some cfg, f')"
proof (intro allI)
  fix cfg junk :: cfg_t
  show "\<exists>out f'. cmd_cfg_parse ram_fs (\<lambda>s c. (1, c)) cfg junk [''parse'', ''a''] [storage_path ''a'' \<mapsto> ''{}''] = Some (out, Some cfg, f')"
    using cfg_parse_prints_current [OF ram_fs_ok ram_fs_reliable, where argv = "[''parse'', ''a'']"
        and parse = "\<lambda>s c. (1, c)" and cfg = cfg and junk = junk and f = "[storage_path ''a'' \<mapsto> ''{}'']"]
    by (auto simp: content_def cfg_decode_def split: option.splits)
qed

end
