(* ===== verification/Pubs.thy ===== *)
theory Pubs
  imports Prelude
begin

text \<open>
  src/services/publisher/pubs.c and pub\_table.c: the table of publishers and the scheduler that runs
  each of them as a delayable work item. The work queue is one thread: an item whose delay has passed
  is taken off the queue and its handler runs (\<open>Fire\<close>) until it schedules its item again (\<open>Finish\<close>);
  calls from other threads come in between.
\<close>

section \<open>The table\<close>

text \<open>\<open>p_dwork\<close> is the identity of the work item, \<open>p_init\<close> tells whether there is an init function.\<close>

record pub_t =
  p_topic :: string
  p_dwork :: nat
  p_init :: bool
  p_initial_interval_ms :: int
  p_initial_interval_jitter_ms :: int
  p_interval_ms :: int
  p_interval_jitter_ms :: int

definition PUBS_MIN_INTERVAL_MS :: int where [fw_defs]: "PUBS_MIN_INTERVAL_MS = 250"

definition pub_table :: "pub_t list" where
  "pub_table =
     [\<lparr>p_topic = ''ncla'', p_dwork = 0, p_init = True, p_initial_interval_ms = 0,
       p_initial_interval_jitter_ms = 0, p_interval_ms = 250, p_interval_jitter_ms = 0\<rparr>,
      \<lparr>p_topic = ''cla'', p_dwork = 1, p_init = True, p_initial_interval_ms = 15000,
       p_initial_interval_jitter_ms = 3000, p_interval_ms = 250, p_interval_jitter_ms = 0\<rparr>,
      \<lparr>p_topic = ''status'', p_dwork = 2, p_init = True, p_initial_interval_ms = 15000,
       p_initial_interval_jitter_ms = 3000, p_interval_ms = 30 * 1000 * 60, p_interval_jitter_ms = 1000\<rparr>,
      \<lparr>p_topic = ''wifi_stats'', p_dwork = 3, p_init = True, p_initial_interval_ms = 15000,
       p_initial_interval_jitter_ms = 3000, p_interval_ms = 10000, p_interval_jitter_ms = 0\<rparr>,
      \<lparr>p_topic = ''sys'', p_dwork = 4, p_init = False, p_initial_interval_ms = 15000,
       p_initial_interval_jitter_ms = 3000, p_interval_ms = 30 * 1000 * 60, p_interval_jitter_ms = 1000\<rparr>,
      \<lparr>p_topic = ''ota_dfu_status'', p_dwork = 5, p_init = True, p_initial_interval_ms = 15000,
       p_initial_interval_jitter_ms = 3000, p_interval_ms = 30 * 1000 * 60, p_interval_jitter_ms = 1000\<rparr>,
      \<lparr>p_topic = ''mppt'', p_dwork = 6, p_init = True, p_initial_interval_ms = 15000,
       p_initial_interval_jitter_ms = 3000, p_interval_ms = 30 * 1000 * 60, p_interval_jitter_ms = 1000\<rparr>]"

definition pub_table_size :: nat where
  "pub_table_size = length pub_table"

text \<open>The index of the first entry with a property: the search loops of the file.\<close>

fun first_index :: "('a \<Rightarrow> bool) \<Rightarrow> 'a list \<Rightarrow> nat option" where
  "first_index P [] = None"
| "first_index P (x # xs) = (if P x then Some 0 else map_option Suc (first_index P xs))"

definition pub_get_idx :: "nat \<Rightarrow> nat option" where
  "pub_get_idx work = first_index (\<lambda>e. p_dwork e = work) pub_table"

definition pub_get_idx_by_topic :: "string \<Rightarrow> nat option" where
  "pub_get_idx_by_topic topic = first_index (\<lambda>e. strncmp_eq topic (p_topic e) (length topic)) pub_table"

section \<open>The scheduler\<close>

text \<open>Delays of the queued items, the item whose handler runs, and what was published.\<close>

record pubs =
  pending :: "int option list"
  running :: "nat option"
  published :: "nat list"

definition pubs_boot :: pubs where
  "pubs_boot = \<lparr>pending = replicate 7 None, running = None, published = []\<rparr>"

definition k_work_reschedule :: "nat \<Rightarrow> int \<Rightarrow> pubs \<Rightarrow> pubs" where
  "k_work_reschedule i ms s = s\<lparr>pending := (pending s)[i := Some ms]\<rparr>"

definition k_work_cancel_delayable :: "nat \<Rightarrow> pubs \<Rightarrow> pubs" where
  "k_work_cancel_delayable i s = s\<lparr>pending := (pending s)[i := None]\<rparr>"

definition schedule_idx :: "nat option \<Rightarrow> int \<Rightarrow> pubs \<Rightarrow> int \<times> pubs" where
  "schedule_idx idx ms s =
     (case idx of
        None \<Rightarrow> (- 1, s)
      | Some i \<Rightarrow>
          (0, if ms = 0 then k_work_reschedule i 0 s
              else k_work_reschedule i (if ms < PUBS_MIN_INTERVAL_MS then PUBS_MIN_INTERVAL_MS else ms) s))"

definition pub_schedule :: "nat \<Rightarrow> int \<Rightarrow> pubs \<Rightarrow> int \<times> pubs" where
  "pub_schedule work ms s = schedule_idx (pub_get_idx work) ms s"

definition pub_schedule_topic :: "string \<Rightarrow> int \<Rightarrow> pubs \<Rightarrow> int \<times> pubs" where
  "pub_schedule_topic topic ms s = schedule_idx (pub_get_idx_by_topic topic) ms s"

text \<open>The entries whose init function is called.\<close>

definition pubs_init :: "nat list" where
  "pubs_init = filter (\<lambda>i. p_init (pub_table ! i)) [0..<pub_table_size]"

definition pubs_start :: "pubs \<Rightarrow> pubs" where
  "pubs_start s =
     fold (\<lambda>e s. if strcmp_eq (p_topic e) ''ncla'' then snd (pub_schedule (p_dwork e) 0 s) else s) pub_table s"

definition pubs_start_ncla :: "pubs \<Rightarrow> pubs" where
  "pubs_start_ncla s = snd (pub_schedule (p_dwork (pub_table ! 0)) 0 s)"

definition pubs_start_cla :: "pubs \<Rightarrow> pubs" where
  "pubs_start_cla s = snd (pub_schedule (p_dwork (pub_table ! 1)) 0 s)"

definition pubs_stop_ncla :: "pubs \<Rightarrow> pubs" where
  "pubs_stop_ncla s = k_work_cancel_delayable (p_dwork (pub_table ! 0)) s"

definition pubs_stop_cla :: "pubs \<Rightarrow> pubs" where
  "pubs_stop_cla s = k_work_cancel_delayable (p_dwork (pub_table ! 1)) s"

definition pubs_stop :: "pubs \<Rightarrow> pubs" where
  "pubs_stop s = fold (\<lambda>e s. k_work_cancel_delayable (p_dwork e) s) pub_table s"

text \<open>The work handler up to and including the publication, and the rest.\<close>

definition handler_publish :: "nat \<Rightarrow> pubs \<Rightarrow> pubs" where
  "handler_publish work s =
     (case pub_get_idx work of None \<Rightarrow> s | Some i \<Rightarrow> s\<lparr>published := published s @ [i]\<rparr>)"

definition handler_reschedule :: "nat \<Rightarrow> pubs \<Rightarrow> pubs" where
  "handler_reschedule work s =
     (case pub_get_idx work of
        None \<Rightarrow> s
      | Some i \<Rightarrow>
          let interval = p_interval_ms (pub_table ! i);
              interval' = (if interval < 0 then PUBS_MIN_INTERVAL_MS else interval)
          in snd (pub_schedule work interval' s))"

definition pubs_work_handler :: "nat \<Rightarrow> pubs \<Rightarrow> pubs" where
  "pubs_work_handler work s = handler_reschedule work (handler_publish work s)"

datatype pubs_event =
    Fire nat
  | Finish
  | Start_ncla
  | Start_cla
  | Stop_ncla
  | Stop_cla
  | Stop_all
  | Schedule_topic string int

text \<open>An item fires only when it is queued and no handler runs.\<close>

definition pubs_step :: "pubs_event \<Rightarrow> pubs \<Rightarrow> pubs" where
  "pubs_step ev s =
     (case ev of
        Fire w \<Rightarrow>
          (if running s = None \<and> w < length (pending s) \<and> pending s ! w \<noteq> None
           then handler_publish w (s\<lparr>pending := (pending s)[w := None], running := Some w\<rparr>)
           else s)
      | Finish \<Rightarrow> (case running s of None \<Rightarrow> s | Some w \<Rightarrow> (handler_reschedule w s)\<lparr>running := None\<rparr>)
      | Start_ncla \<Rightarrow> pubs_start_ncla s
      | Start_cla \<Rightarrow> pubs_start_cla s
      | Stop_ncla \<Rightarrow> pubs_stop_ncla s
      | Stop_cla \<Rightarrow> pubs_stop_cla s
      | Stop_all \<Rightarrow> pubs_stop s
      | Schedule_topic t ms \<Rightarrow> snd (pub_schedule_topic t ms s))"

section \<open>Lookup\<close>

lemma first_index_Some:
  "first_index P xs = Some i \<longleftrightarrow> i < length xs \<and> P (xs ! i) \<and> (\<forall>j<i. \<not> P (xs ! j))"
proof (induction xs arbitrary: i)
  case (Cons x xs)
  then show ?case
    by (cases i) (auto simp: less_Suc_eq_0_disj)
qed simp

lemma first_index_less: "first_index P xs = Some i \<Longrightarrow> i < length xs"
  by (simp add: first_index_Some)

lemma work_is_index: "pub_get_idx w = (if w < 7 then Some w else None)"
proof -
  have "w < 7 \<Longrightarrow> w \<in> {0, 1, 2, 3, 4, 5, 6}" by auto
  then show ?thesis by (auto simp: pub_get_idx_def pub_table_def)
qed

lemma table_size: "length pub_table = 7"
  by (simp add: pub_table_def)

text \<open>
  Further: asking for a publisher by its exact topic finds that publisher. Any prefix of a topic is accepted
  as well, and the empty text means the first publisher.
\<close>

theorem pub_topic_lookup:
  "map (\<lambda>e. pub_get_idx_by_topic (p_topic e)) pub_table = map Some [0..<pub_table_size]
   \<and> pub_get_idx_by_topic [] = Some 0
   \<and> pub_get_idx_by_topic ''s'' = Some 2"
  unfolding pub_table_size_def table_size
  by (simp add: pub_get_idx_by_topic_def upt_rec) (simp add: pub_table_def)

section \<open>The pace of publication\<close>

definition delay_ok :: "int option \<Rightarrow> bool" where
  "delay_ok d \<longleftrightarrow> (case d of None \<Rightarrow> True | Some ms \<Rightarrow> ms = 0 \<or> PUBS_MIN_INTERVAL_MS \<le> ms)"

definition pubs_inv :: "pubs \<Rightarrow> bool" where
  "pubs_inv s \<longleftrightarrow> length (pending s) = 7 \<and> list_all delay_ok (pending s)
     \<and> (\<forall>w. running s = Some w \<longrightarrow> w < 7) \<and> list_all (\<lambda>i. i < 7) (published s)"

lemma all_update: "list_all P xs \<Longrightarrow> P x \<Longrightarrow> list_all P (xs[i := x])"
  using set_update_subset_insert [of xs i x] by (auto simp: list_all_iff)

lemma inv_reschedule: "pubs_inv s \<Longrightarrow> ms = 0 \<or> PUBS_MIN_INTERVAL_MS \<le> ms \<Longrightarrow> pubs_inv (k_work_reschedule i ms s)"
  by (auto simp: pubs_inv_def k_work_reschedule_def delay_ok_def intro: all_update)

lemma inv_cancel: "pubs_inv s \<Longrightarrow> pubs_inv (k_work_cancel_delayable i s)"
  by (auto simp: pubs_inv_def k_work_cancel_delayable_def delay_ok_def intro: all_update)

lemma inv_schedule: "pubs_inv s \<Longrightarrow> pubs_inv (snd (schedule_idx i ms s))"
  by (auto simp: schedule_idx_def intro: inv_reschedule split: option.split)

lemma inv_stop: "pubs_inv s \<Longrightarrow> pubs_inv (fold (\<lambda>e s. k_work_cancel_delayable (p_dwork e) s) es s)"
  by (induction es arbitrary: s) (auto intro: inv_cancel)

lemma pubs_inv_step: "pubs_inv s \<Longrightarrow> pubs_inv (pubs_step ev s)"
proof (cases ev)
  case (Fire w)
  moreover assume "pubs_inv s"
  ultimately show ?thesis
    by (auto simp: pubs_step_def pubs_inv_def handler_publish_def work_is_index delay_ok_def intro: all_update)
next
  case Finish
  moreover assume s: "pubs_inv s"
  moreover have "pubs_inv (handler_reschedule w s)" for w
    using s by (auto simp: handler_reschedule_def Let_def pub_schedule_def intro: inv_schedule split: option.split)
  ultimately show ?thesis by (auto simp: pubs_step_def pubs_inv_def split: option.split)
qed (auto simp: pubs_step_def pubs_start_ncla_def pubs_start_cla_def pubs_stop_ncla_def pubs_stop_cla_def
    pubs_stop_def pub_schedule_def pub_schedule_topic_def intro: inv_schedule inv_cancel inv_stop)

lemma pubs_inv_boot: "pubs_inv pubs_boot"
  by (simp add: pubs_inv_def pubs_boot_def delay_ok_def list_all_iff)

interpretation publisher: machine "\<lambda>s. s = pubs_boot" pubs_step pubs_inv
  by unfold_locales (simp_all add: pubs_inv_boot pubs_inv_step)

text \<open>
  Further: whatever is scheduled, started and stopped, at any moment every queued publication either is due
  at once or waits for at least 250 ms.
\<close>

theorem pubs_minimum_interval:
  assumes "Some ms \<in> set (pending (fold pubs_step evs pubs_boot))"
  shows "ms = 0 \<or> 250 \<le> ms"
  using publisher.inv_run [of pubs_boot evs] assms
  by (auto simp: pubs_inv_def list_all_iff delay_ok_def fw_defs dest!: bspec)

theorem pubs_minimum_interval_witness:
  "Some 250 \<in> set (pending (fold pubs_step [Schedule_topic ''cla'' 3] pubs_boot))
     \<and> (250 = (0 :: int) \<or> 250 \<le> (250 :: int))"
proof -
  have "Some 250 \<in> set (pending (fold pubs_step [Schedule_topic ''cla'' 3] pubs_boot))" by code_simp
  then show ?thesis using pubs_minimum_interval [of 250 "[Schedule_topic ''cla'' 3]"] by blast
qed

section \<open>Stopping a publisher\<close>

text \<open>Events that may queue publisher \<open>i\<close>.\<close>

fun may_start :: "nat \<Rightarrow> pubs_event \<Rightarrow> bool" where
  "may_start i Start_ncla = (i = 0)"
| "may_start i Start_cla = (i = 1)"
| "may_start i (Schedule_topic t ms) = (pub_get_idx_by_topic t = Some i)"
| "may_start i _ = False"

definition off :: "nat \<Rightarrow> pubs \<Rightarrow> bool" where
  "off i s \<longleftrightarrow> pending s ! i = None \<and> running s \<noteq> Some i"

lemma off_cancel: "off i s \<Longrightarrow> off i (k_work_cancel_delayable j s)"
  by (cases "j < length (pending s)") (auto simp: off_def k_work_cancel_delayable_def nth_list_update list_update_beyond not_less)

lemma off_reschedule: "off i s \<Longrightarrow> j \<noteq> i \<Longrightarrow> off i (k_work_reschedule j ms s)"
  by (simp add: off_def k_work_reschedule_def)

lemma off_schedule: "off i s \<Longrightarrow> idx \<noteq> Some i \<Longrightarrow> off i (snd (schedule_idx idx ms s))"
  by (auto simp: schedule_idx_def intro: off_reschedule split: option.split)

lemma off_stop: "off i s \<Longrightarrow> off i (fold (\<lambda>e s. k_work_cancel_delayable (p_dwork e) s) es s)"
  by (induction es arbitrary: s) (auto intro: off_cancel)

lemma published_schedule: "published (snd (schedule_idx idx ms s)) = published s"
  by (simp add: schedule_idx_def k_work_reschedule_def split: option.split)

lemma published_cancel: "published (k_work_cancel_delayable i s) = published s"
  by (simp add: k_work_cancel_delayable_def)

lemma published_stop: "published (fold (\<lambda>e s. k_work_cancel_delayable (p_dwork e) s) es s) = published s"
  by (induction es arbitrary: s) (simp_all add: published_cancel)

lemma dworks: "p_dwork (pub_table ! 0) = 0" "p_dwork (pub_table ! 1) = 1" "p_dwork (pub_table ! Suc 0) = 1"
  by (simp_all add: pub_table_def)

lemmas pubs_op_defs = pubs_step_def pubs_start_ncla_def pubs_start_cla_def pubs_stop_ncla_def
  pubs_stop_cla_def pubs_stop_def pub_schedule_def pub_schedule_topic_def work_is_index dworks

lemma off_handler: "off i s \<Longrightarrow> w \<noteq> i \<Longrightarrow> off i (handler_reschedule w s)"
  by (auto simp: handler_reschedule_def Let_def pub_schedule_def work_is_index intro: off_schedule)

lemma off_step:
  assumes "off i s" "\<not> may_start i ev"
  shows "off i (pubs_step ev s) \<and> count_list (published (pubs_step ev s)) i = count_list (published s) i"
proof (cases ev)
  case (Fire w)
  then show ?thesis using assms by (auto simp: pubs_step_def handler_publish_def work_is_index off_def)
next
  case Finish
  have "running s = Some w \<Longrightarrow> off i (handler_reschedule w s)" for w
    using assms(1) by (intro off_handler) (auto simp: off_def)
  moreover have "published (handler_reschedule w s) = published s" for w
    by (simp add: handler_reschedule_def Let_def pub_schedule_def published_schedule split: option.split)
  ultimately show ?thesis
    using Finish assms(1) by (auto simp: pubs_step_def off_def split: option.split)
qed (use assms in \<open>auto simp: pubs_op_defs published_schedule published_stop published_cancel
    intro: off_schedule off_cancel off_stop\<close>)

lemma off_run:
  "off i s \<Longrightarrow> list_all (\<lambda>ev. \<not> may_start i ev) evs \<Longrightarrow>
   off i (fold pubs_step evs s) \<and> count_list (published (fold pubs_step evs s)) i = count_list (published s) i"
proof (induction evs arbitrary: s)
  case (Cons ev evs)
  then show ?case using off_step [of i s ev] by simp
qed simp

text \<open>
  Further: stopping the NCLA publisher works exactly when its handler is not running. If it is not, nothing is
  published under it until it is started again, whatever else happens; if it is, the stop has no effect:
  the handler queues its item again and publication goes on.
\<close>

theorem stop_ncla_lost_while_publishing:
  assumes inv: "pubs_inv s"
  shows "if running s = Some 0 then pending (pubs_step Finish (pubs_stop_ncla s)) ! 0 = Some 250
    else list_all (\<lambda>ev. \<not> may_start 0 ev) evs \<longrightarrow>
      count_list (published (fold pubs_step evs (pubs_stop_ncla s))) 0 = count_list (published s) 0"
proof (cases "running s = Some 0")
  case True
  have "p_interval_ms (pub_table ! 0) = 250" by (simp add: pub_table_def)
  then show ?thesis
    using True inv by (simp add: pubs_op_defs k_work_cancel_delayable_def handler_reschedule_def Let_def
        schedule_idx_def k_work_reschedule_def pubs_inv_def fw_defs)
next
  case False
  then have "off 0 (pubs_stop_ncla s)"
    using inv by (simp add: off_def pubs_stop_ncla_def dworks k_work_cancel_delayable_def pubs_inv_def)
  moreover have "published (pubs_stop_ncla s) = published s"
    by (simp add: pubs_stop_ncla_def k_work_cancel_delayable_def)
  ultimately show ?thesis using False off_run by simp
qed

theorem stop_ncla_lost_while_publishing_witness:
  "pending (pubs_step Finish (pubs_stop_ncla (fold pubs_step [Start_ncla, Fire 0] pubs_boot))) ! 0 = Some 250"
proof -
  let ?s = "fold pubs_step [Start_ncla, Fire 0] pubs_boot"
  have "running ?s = Some 0" by code_simp
  then show ?thesis
    using stop_ncla_lost_while_publishing [of ?s "[]"] publisher.inv_run [of pubs_boot "[Start_ncla, Fire 0]"] by simp
qed

end
