(* ===== verification/MqttCmds.thy ===== *)
theory MqttCmds
  imports Pubs HeadApp Utils
begin

text \<open>
  The commands a head node accepts over MQTT: src/data/mqtt/mqtt\_common.c (the table of subscriptions
  and the dispatch of a received message) and the eight modules src/data/mqtt/*\_mqtt.c with their
  decoders src/data/json/*\_json.c. Each module is an instance of one template, here \<open>on_publish_cb\<close>.
  \<open>None\<close> is undefined behaviour: an uninitialised pointer is read or a buffer is overrun.

  Zephyr's JSON library, the hardware id, the storage module, the IPC service and the work queue that
  runs during a sleep are the environment.
\<close>

section \<open>Data\<close>

datatype json_tok = JSON_TOK_NUMBER | JSON_TOK_STRING

datatype json_val = JNum int | JStr string

type_synonym json_descr = "(string \<times> json_tok) list"

text \<open>A decoded structure: \<open>None\<close> is a field that nothing has initialised.\<close>

type_synonym json_fields = "string \<Rightarrow> json_val option"

datatype fs_call =
    Storage_remove string
  | Storage_write string string
  | Storage_read string
  | Storage_move string string
  | Storage_list

text \<open>\<open>Unfilled\<close> is the content of a buffer that the encoder could not fill.\<close>

datatype payload = Text string | Unfilled

datatype cmd_out =
    Publish string payload nat
  | Sleep int
  | Reboot_timer int
  | Ota_event int string string string int
  | Storage fs_call

text \<open>
  \<open>e_parse\<close> gives the fields found (\<open>None\<close> is a negative result of \<open>json_obj_parse\<close>), \<open>e_encode\<close> the
  text of an object if it fits in a buffer of the given size, \<open>e_junk\<close> the value of an uninitialised
  integer, \<open>e_ipc\<close> the results of sending and waiting, \<open>e_fs\<close> the result and the text read by a storage
  call, \<open>e_work\<close> what the work queue does during a sleep.
\<close>

record cmd_env =
  e_parse :: "json_descr \<Rightarrow> string \<Rightarrow> json_fields option"
  e_encode :: "(string \<times> json_val) list \<Rightarrow> nat \<Rightarrow> string option"
  e_id :: string
  e_junk :: int
  e_ipc :: "nat \<Rightarrow> int \<times> int"
  e_fs :: "nat \<Rightarrow> fs_call \<Rightarrow> int \<times> string"
  e_work :: "nat \<Rightarrow> pubs_event list"

text \<open>\<open>topic_cmd_strs\<close> holds the static \<open>topic_cmd_str\<close> of the eight modules, in the order of the table.\<close>

record cmds =
  topic_cmd_strs :: "string list"
  start_cla :: bool
  start_ncla :: bool
  cm_pubs :: pubs
  cm_head :: head_app
  ota_bufs :: "string \<times> string \<times> string"
  cm_out :: "cmd_out list"

definition cmds_boot :: cmds where
  "cmds_boot = \<lparr>topic_cmd_strs = replicate 8 [], start_cla = False, start_ncla = False,
     cm_pubs = pubs_boot, cm_head = head_app_boot, ota_bufs = ([], [], []), cm_out = []\<rparr>"

definition out :: "cmd_out \<Rightarrow> cmds \<Rightarrow> cmds" where
  "out c s = s\<lparr>cm_out := cm_out s @ [c]\<rparr>"

section \<open>Decoding\<close>

definition field_mask :: "json_descr \<Rightarrow> json_fields \<Rightarrow> int" where
  "field_mask d f = horner_sum of_bool 2 (map (\<lambda>(n, _). f n \<noteq> None) d)"

definition json_decode ::
  "cmd_env \<Rightarrow> json_descr \<Rightarrow> int \<Rightarrow> json_fields \<Rightarrow> string \<Rightarrow> int + json_fields" where
  "json_decode E d required defaults json =
     (case e_parse E d json of
        None \<Rightarrow> Inl (- ENOEXEC)
      | Some f \<Rightarrow>
          if and (field_mask d f) required \<noteq> required then Inl (- EINVAL)
          else Inr (\<lambda>n. case f n of None \<Rightarrow> defaults n | Some v \<Rightarrow> Some v))"

definition str_field :: "json_fields \<Rightarrow> string \<Rightarrow> string option" where
  "str_field f n = (case f n of Some (JStr x) \<Rightarrow> Some x | _ \<Rightarrow> None)"

definition num_field :: "cmd_env \<Rightarrow> json_fields \<Rightarrow> string \<Rightarrow> int" where
  "num_field E f n = (case f n of Some (JNum i) \<Rightarrow> i | _ \<Rightarrow> e_junk E)"

definition session_descr :: json_descr where
  "session_descr = [(''session_id'', JSON_TOK_NUMBER), (''res_topic'', JSON_TOK_STRING)]"

definition reboot_json_cmd_decode :: "cmd_env \<Rightarrow> string \<Rightarrow> int + json_fields" where
  "reboot_json_cmd_decode E =
     json_decode E (session_descr @ [(''delay'', JSON_TOK_NUMBER)]) 3 [''delay'' \<mapsto> JNum 0]"

definition node_id_json_cmd_decode :: "cmd_env \<Rightarrow> string \<Rightarrow> int + json_fields" where
  "node_id_json_cmd_decode E =
     json_decode E (session_descr @ [(''operation'', JSON_TOK_STRING)]) 3
       [''res_topic'' \<mapsto> JStr ''GET_NODE_ID'']"

definition start_json_cmd_decode :: "cmd_env \<Rightarrow> string \<Rightarrow> int + json_fields" where
  "start_json_cmd_decode E =
     json_decode E (session_descr @ [(''operation'', JSON_TOK_STRING)]) 3 [''operation'' \<mapsto> JStr ''NA'']"

definition control_json_cmd_decode :: "cmd_env \<Rightarrow> string \<Rightarrow> int + json_fields" where
  "control_json_cmd_decode E =
     json_decode E (session_descr @ [(''operation'', JSON_TOK_STRING)]) 3 [''operation'' \<mapsto> JStr ''NCLA'']"

definition rtt_json_cmd_decode :: "cmd_env \<Rightarrow> string \<Rightarrow> int + json_fields" where
  "rtt_json_cmd_decode E =
     json_decode E (session_descr @ [(''operation'', JSON_TOK_STRING), (''payload'', JSON_TOK_STRING)]) 3
       [''res_topic'' \<mapsto> JStr ''cmd/proton-node/rtt_res'']"

definition remote_pub_json_cmd_decode :: "cmd_env \<Rightarrow> string \<Rightarrow> int + json_fields" where
  "remote_pub_json_cmd_decode E =
     json_decode E (session_descr @ [(''pub_topic'', JSON_TOK_STRING), (''delay_ms'', JSON_TOK_NUMBER)]) 7
       (\<lambda>_. None)"

definition remove_escaped_escapes :: "string \<Rightarrow> string" where
  "remove_escaped_escapes = filter (\<lambda>c. c \<noteq> CHR 0x5C)"

definition fs_json_cmd_decode :: "cmd_env \<Rightarrow> string \<Rightarrow> int + json_fields" where
  "fs_json_cmd_decode E json =
     (case json_decode E (session_descr @ [(''cmd'', JSON_TOK_STRING), (''file'', JSON_TOK_STRING),
         (''data'', JSON_TOK_STRING)]) 31 (\<lambda>_. None) json of
        Inl e \<Rightarrow> Inl e
      | Inr f \<Rightarrow> Inr (f(''data'' := map_option (\<lambda>x. JStr (remove_escaped_escapes x)) (str_field f ''data''))))"

definition ota_dfu_json_cmd_decode :: "cmd_env \<Rightarrow> string \<Rightarrow> int + json_fields" where
  "ota_dfu_json_cmd_decode E =
     json_decode E (session_descr @ [(''uri'', JSON_TOK_STRING), (''file'', JSON_TOK_STRING),
         (''install'', JSON_TOK_STRING), (''retries'', JSON_TOK_NUMBER), (''res_qos'', JSON_TOK_NUMBER)])
       31 [''res_qos'' \<mapsto> JNum 0]"

text \<open>The end of the decoder: the strings are copied into static buffers of 128, 64 and 32 bytes.\<close>

definition ota_dfu_copy :: "string \<Rightarrow> string \<Rightarrow> string \<Rightarrow> string \<times> string \<times> string" where
  "ota_dfu_copy uri file install =
     (let c = \<lambda>x n. takeWhile (\<lambda>c. c \<noteq> NUL) (fst (safe_strlcpy x n))
      in (c uri 128, c file 64, c install 32))"

section \<open>Answers\<close>

definition MQTT_PLATFORM :: string where "MQTT_PLATFORM = ''proton-node-test''"

definition node_topic :: "string \<Rightarrow> string \<Rightarrow> string" where
  "node_topic node t = ''cmd/'' @ MQTT_PLATFORM @ ''/'' @ node @ ''/'' @ t"

definition all_topic :: "string \<Rightarrow> string" where
  "all_topic t = ''cmd/'' @ MQTT_PLATFORM @ ''/'' @ t"

text \<open>\<open>snprintf\<close> into 128 bytes.\<close>

definition response_topic :: "string \<Rightarrow> string" where
  "response_topic t = take 127 t"

definition mqtt_common_publish :: "string \<Rightarrow> payload \<Rightarrow> nat \<Rightarrow> cmds \<Rightarrow> cmds" where
  "mqtt_common_publish topic p qos s = out (Publish topic p qos) s"

text \<open>The common shape of \<open>publish_response\<close>: nothing is sent when the encoder fails.\<close>

definition publish_encoded ::
  "cmd_env \<Rightarrow> string \<Rightarrow> (string \<times> json_val) list \<Rightarrow> nat \<Rightarrow> cmds \<Rightarrow> cmds" where
  "publish_encoded E topic rsp qos s =
     (case e_encode E rsp 256 of
        None \<Rightarrow> s
      | Some txt \<Rightarrow> mqtt_common_publish (response_topic topic) (Text txt) qos s)"

definition publish_text :: "string \<Rightarrow> string \<Rightarrow> nat \<Rightarrow> cmds \<Rightarrow> cmds" where
  "publish_text topic txt qos s = mqtt_common_publish (response_topic topic) (Text txt) qos s"

definition reboot_publish_response :: "cmd_env \<Rightarrow> string \<Rightarrow> int \<Rightarrow> string \<Rightarrow> cmds \<Rightarrow> cmds" where
  "reboot_publish_response E rsp_topic session_id status =
     publish_encoded E (node_topic (e_id E) rsp_topic)
       [(''session_id'', JNum session_id), (''response'', JStr status)] 1"

definition reboot_publish_response_err :: "cmd_env \<Rightarrow> string \<Rightarrow> cmds \<Rightarrow> cmds" where
  "reboot_publish_response_err E err = publish_text (node_topic (e_id E) ''reboot_res'') err 1"

definition ota_dfu_publish_response :: "cmd_env \<Rightarrow> string \<Rightarrow> int \<Rightarrow> string \<Rightarrow> cmds \<Rightarrow> cmds" where
  "ota_dfu_publish_response E rsp_topic session_id status =
     publish_encoded E (node_topic (e_id E) rsp_topic)
       [(''session_id'', JNum session_id), (''response'', JStr status)] 1"

definition ota_dfu_publish_response_err :: "cmd_env \<Rightarrow> string \<Rightarrow> cmds \<Rightarrow> cmds" where
  "ota_dfu_publish_response_err E err = publish_text (node_topic (e_id E) ''ota_dfu_res'') err 1"

text \<open>The result of the encoder is not looked at here.\<close>

definition fs_publish_response :: "cmd_env \<Rightarrow> string \<Rightarrow> int \<Rightarrow> string \<Rightarrow> string \<Rightarrow> cmds \<Rightarrow> cmds" where
  "fs_publish_response E rsp_topic session_id status res_data s =
     (let rsp = [(''session_id'', JNum session_id), (''status'', JStr status), (''data'', JStr res_data)];
          p = (case e_encode E rsp 1024 of None \<Rightarrow> Unfilled | Some txt \<Rightarrow> Text txt)
      in mqtt_common_publish (response_topic (node_topic (e_id E) rsp_topic)) p 1 s)"

definition fs_publish_response_err :: "cmd_env \<Rightarrow> string \<Rightarrow> cmds \<Rightarrow> cmds" where
  "fs_publish_response_err E err = publish_text (node_topic (e_id E) ''fs_res'') err 1"

definition remote_pub_publish_response :: "cmd_env \<Rightarrow> string \<Rightarrow> int \<Rightarrow> string \<Rightarrow> cmds \<Rightarrow> cmds" where
  "remote_pub_publish_response E rsp_topic session_id status =
     publish_encoded E (node_topic (e_id E) rsp_topic)
       [(''session_id'', JNum session_id), (''status'', JStr status)] 0"

definition remote_pub_publish_response_err :: "cmd_env \<Rightarrow> string \<Rightarrow> cmds \<Rightarrow> cmds" where
  "remote_pub_publish_response_err E err = publish_text (node_topic (e_id E) ''remote_pub_res'') err 0"

definition control_publish_response :: "cmd_env \<Rightarrow> string \<Rightarrow> int \<Rightarrow> string \<Rightarrow> cmds \<Rightarrow> cmds" where
  "control_publish_response E rsp_topic session_id status =
     publish_encoded E (node_topic (e_id E) rsp_topic)
       [(''session_id'', JNum session_id), (''response'', JStr status)] 1"

definition control_publish_response_err :: "cmd_env \<Rightarrow> string \<Rightarrow> cmds \<Rightarrow> cmds" where
  "control_publish_response_err E err = publish_text (node_topic (e_id E) ''control_res'') err 1"

definition start_publish_response :: "cmd_env \<Rightarrow> string \<Rightarrow> int \<Rightarrow> string \<Rightarrow> string \<Rightarrow> cmds \<Rightarrow> cmds" where
  "start_publish_response E rsp_topic session_id node_id status =
     publish_encoded E (all_topic rsp_topic)
       [(''session_id'', JNum session_id), (''node_id'', JStr node_id), (''response'', JStr status)] 1"

definition start_publish_response_err :: "string \<Rightarrow> cmds \<Rightarrow> cmds" where
  "start_publish_response_err err = publish_text (all_topic ''start_res'') err 1"

definition node_id_publish_response :: "cmd_env \<Rightarrow> string \<Rightarrow> string \<Rightarrow> cmds \<Rightarrow> cmds" where
  "node_id_publish_response E rsp_topic node_id =
     publish_encoded E (all_topic rsp_topic) [(''node_id'', JStr node_id)] 1"

definition node_id_publish_response_err :: "string \<Rightarrow> cmds \<Rightarrow> cmds" where
  "node_id_publish_response_err err = publish_text (all_topic ''node_id_res'') err 1"

text \<open>Called by the receive callback of the inter-core link for every packet (\<open>publish_response_external\<close>).\<close>

definition rtt_publish_response :: "cmd_env \<Rightarrow> string \<Rightarrow> string \<Rightarrow> string \<Rightarrow> cmds \<Rightarrow> cmds" where
  "rtt_publish_response E rsp_topic node_id latest_ipc_msg =
     publish_encoded E (all_topic rsp_topic)
       [(''node_id'', JStr node_id), (''latest_ipc_msg'', JStr latest_ipc_msg)] 1"

definition rtt_publish_response_err :: "string \<Rightarrow> cmds \<Rightarrow> cmds" where
  "rtt_publish_response_err err = publish_text (all_topic ''rtt_res'') err 1"

section \<open>Commands\<close>

definition is_work :: "pubs_event \<Rightarrow> bool" where
  "is_work ev \<longleftrightarrow> (case ev of Fire _ \<Rightarrow> True | Finish \<Rightarrow> True | _ \<Rightarrow> False)"

text \<open>While the caller sleeps the work queue runs.\<close>

definition k_sleep :: "cmd_env \<Rightarrow> int \<Rightarrow> cmds \<Rightarrow> cmds" where
  "k_sleep E ms s =
     out (Sleep ms) (s\<lparr>cm_pubs := fold pubs_step (filter is_work (e_work E (length (cm_out s)))) (cm_pubs s)\<rparr>)"

definition CLA_NCLA_TRANSITION_SLEEP_INTERVAL_MS :: int where
  [fw_defs]: "CLA_NCLA_TRANSITION_SLEEP_INTERVAL_MS = 60 * 1000"

definition stop_cla_if_started :: "cmd_env \<Rightarrow> cmds \<Rightarrow> cmds" where
  "stop_cla_if_started E s =
     (if start_cla s
      then k_sleep E CLA_NCLA_TRANSITION_SLEEP_INTERVAL_MS
             (s\<lparr>cm_pubs := pubs_stop_cla (cm_pubs s), start_cla := False\<rparr>)
      else s)"

definition stop_ncla_if_started :: "cmds \<Rightarrow> cmds" where
  "stop_ncla_if_started s =
     (if start_ncla s then s\<lparr>cm_pubs := pubs_stop_ncla (cm_pubs s), start_ncla := False\<rparr> else s)"

definition start_ncla_unless_started :: "cmds \<Rightarrow> cmds" where
  "start_ncla_unless_started s =
     (if \<not> start_ncla s then s\<lparr>cm_pubs := pubs_start_ncla (cm_pubs s), start_ncla := True\<rparr> else s)"

definition start_cla_unless_started :: "cmds \<Rightarrow> cmds" where
  "start_cla_unless_started s =
     (if \<not> start_cla s then s\<lparr>cm_pubs := pubs_start_cla (cm_pubs s), start_cla := True\<rparr> else s)"

definition reboot_timer_start :: "int \<Rightarrow> cmds \<Rightarrow> cmds" where
  "reboot_timer_start seconds s = out (Reboot_timer seconds) s"

definition reboot_exec :: "cmd_env \<Rightarrow> json_fields \<Rightarrow> cmds \<Rightarrow> cmds option" where
  "reboot_exec E f s =
     (let delay = num_field E f ''delay''; sid = num_field E f ''session_id''
      in if delay < 0 then Some (reboot_publish_response_err E ''payload bad values'' s)
         else case str_field f ''res_topic'' of
           None \<Rightarrow> None
         | Some res \<Rightarrow> Some (reboot_publish_response E res sid ''ok'' (reboot_timer_start delay s)))"

definition ota_dfu_exec :: "cmd_env \<Rightarrow> json_fields \<Rightarrow> cmds \<Rightarrow> cmds option" where
  "ota_dfu_exec E f s =
     (case (str_field f ''uri'', str_field f ''file'', str_field f ''install'', str_field f ''res_topic'') of
        (Some u, Some fl, Some i, Some res) \<Rightarrow>
          (let sid = num_field E f ''session_id''; (u', fl', i') = ota_dfu_copy u fl i;
               s1 = s\<lparr>ota_bufs := (u', fl', i')\<rparr>;
               s2 = out (Ota_event sid u' fl' i' (num_field E f ''retries'')) s1
           in Some (ota_dfu_publish_response E res sid ''ok'' s2))
      | _ \<Rightarrow> None)"

definition remote_pub_exec :: "cmd_env \<Rightarrow> json_fields \<Rightarrow> cmds \<Rightarrow> cmds option" where
  "remote_pub_exec E f s =
     (case (str_field f ''pub_topic'', str_field f ''res_topic'') of
        (Some t, Some res) \<Rightarrow>
          (let (rc, p) = pub_schedule_topic t (num_field E f ''delay_ms'') (cm_pubs s);
               status = (if rc = 0 then ''ok'' else ''error-404-not-found'')
           in Some (remote_pub_publish_response E res (num_field E f ''session_id'') status (s\<lparr>cm_pubs := p\<rparr>)))
      | _ \<Rightarrow> None)"

definition control_exec :: "cmd_env \<Rightarrow> json_fields \<Rightarrow> cmds \<Rightarrow> cmds option" where
  "control_exec E f s =
     (case (str_field f ''operation'', str_field f ''res_topic'') of
        (Some op, Some res) \<Rightarrow>
          (let reply = control_publish_response E res (num_field E f ''session_id'') ''ok''
           in Some (if strcmp_eq op ''CLA''
                    then reply (start_cla_unless_started (stop_ncla_if_started s))
                    else if strcmp_eq op ''NCLA''
                    then reply (start_ncla_unless_started (stop_cla_if_started E s))
                    else control_publish_response_err E ''payload unknown err'' s))
      | _ \<Rightarrow> None)"

definition start_exec :: "cmd_env \<Rightarrow> json_fields \<Rightarrow> cmds \<Rightarrow> cmds option" where
  "start_exec E f s =
     (case (str_field f ''operation'', str_field f ''res_topic'') of
        (Some op, Some res) \<Rightarrow>
          (let reply = start_publish_response E res (num_field E f ''session_id'') (e_id E) ''ok''
           in Some (if strcmp_eq op ''START''
                    then reply (start_ncla_unless_started (stop_cla_if_started E s))
                    else if strcmp_eq op ''STOP''
                    then let s1 = stop_ncla_if_started (stop_cla_if_started E s)
                         in reply (s1\<lparr>cm_pubs := pubs_stop_ncla (cm_pubs s1), start_ncla := False\<rparr>)
                    else start_publish_response_err ''payload unknown err'' s))
      | _ \<Rightarrow> None)"

definition node_id_exec :: "cmd_env \<Rightarrow> json_fields \<Rightarrow> cmds \<Rightarrow> cmds option" where
  "node_id_exec E f s =
     (case (str_field f ''operation'', str_field f ''res_topic'') of
        (Some op, Some res) \<Rightarrow>
          Some (if strcmp_eq op ''GET_NODE_ID'' then node_id_publish_response E res (e_id E) s
                else node_id_publish_response_err ''payload unknown err'' s)
      | _ \<Rightarrow> None)"

text \<open>
  The payload of the command is converted to at most 32 bytes and sent to the network core. The answers
  of the nodes are published by the receive callback (\<open>recv_cb\<close>) while the handler waits.
\<close>

definition rtt_exec :: "cmd_env \<Rightarrow> json_fields \<Rightarrow> cmds \<Rightarrow> cmds option" where
  "rtt_exec E f s =
     (case (str_field f ''operation'', str_field f ''res_topic'') of
        (Some op, Some res) \<Rightarrow>
          (if strcmp_eq op ''RTT''
           then let h = set_current_res_topic res (cm_head s); (sent, taken) = e_ipc E (length (cm_out s))
                in case str_field f ''payload'' of
                     None \<Rightarrow> None
                   | Some p \<Rightarrow>
                       (let bs = hex_string_to_binary p 32
                        in case ipc_send_and_wait bs (length bs) sent taken h of
                             None \<Rightarrow> None
                           | Some (ret, h') \<Rightarrow>
                               (let s1 = s\<lparr>cm_head := h'\<rparr>
                                in Some (if ret = 0 then s1 else rtt_publish_response_err ''No nodes responded'' s1)))
           else Some (rtt_publish_response_err ''payload unknown err'' s))
      | _ \<Rightarrow> None)"

definition storage :: "cmd_env \<Rightarrow> fs_call \<Rightarrow> cmds \<Rightarrow> (int \<times> string) \<times> cmds" where
  "storage E c s = (e_fs E (length (cm_out s)) c, out (Storage c) s)"

text \<open>\<open>sprintf\<close> into \<open>char rc[16]\<close>.\<close>

definition status_text :: "string \<Rightarrow> string option" where
  "status_text txt = (if length txt < 16 then Some txt else None)"

text \<open>The status, the result text and the state; \<open>rc\<close> and \<open>res_data\<close> are empty at first.\<close>

definition fs_sub_process_payload ::
  "cmd_env \<Rightarrow> string \<Rightarrow> string \<Rightarrow> string \<Rightarrow> cmds \<Rightarrow> (string \<times> string \<times> cmds) option" where
  "fs_sub_process_payload E cmd file data s =
     (if strcmp_eq ''wr'' cmd
      then let (_, s1) = storage E (Storage_remove file) s; ((rc, _), s2) = storage E (Storage_write file data) s1
           in map_option (\<lambda>st. (st, dec_str rc, s2)) (status_text (if rc < 0 then ''err'' else ''ok''))
      else if strcmp_eq ''rd'' cmd
      then let ((rc, txt), s1) = storage E (Storage_read file) s
           in if rc < 0 then map_option (\<lambda>st. (st, dec_str rc, s1)) (status_text ''err'')
              else map_option (\<lambda>st. (st, txt, s1)) (status_text ''ok'')
      else if strcmp_eq ''mv'' cmd
      then let ((rc, _), s1) = storage E (Storage_move file data) s
           in if rc < 0 then map_option (\<lambda>st. (st, dec_str rc, s1)) (status_text ''err'')
              else map_option (\<lambda>st. (st, [], s1)) (status_text ''ok'')
      else if strcmp_eq ''rm'' cmd
      then let ((rc, _), s1) = storage E (Storage_remove file) s
           in if rc < 0 then map_option (\<lambda>st. (st, dec_str rc, s1)) (status_text ''err'')
              else map_option (\<lambda>st. (st, [], s1)) (status_text ''ok'')
      else if strcmp_eq ''ls'' cmd
      then let ((rc, txt), s1) = storage E Storage_list s
           in if rc < 0 then map_option (\<lambda>st. (st, dec_str rc, s1)) (status_text ''err'')
              else map_option (\<lambda>st. (st, txt, s1)) (status_text ''ok'')
      else map_option (\<lambda>st. (st, [], s)) (status_text ''err-unknown-fs-cmd''))"

definition fs_exec :: "cmd_env \<Rightarrow> json_fields \<Rightarrow> cmds \<Rightarrow> cmds option" where
  "fs_exec E f s =
     (case (str_field f ''cmd'', str_field f ''file'', str_field f ''data'', str_field f ''res_topic'') of
        (Some c, Some fl, Some d, Some res) \<Rightarrow>
          map_option (\<lambda>(st, txt, s1). fs_publish_response E res (num_field E f ''session_id'') st txt s1)
            (fs_sub_process_payload E c fl d s)
      | _ \<Rightarrow> None)"

section \<open>The template of a module\<close>

definition matches :: "string \<Rightarrow> string \<Rightarrow> bool" where
  "matches topic cmd_str = strncmp_eq topic cmd_str (length topic)"

definition handle_payload ::
  "(string \<Rightarrow> int + json_fields) \<Rightarrow> (json_fields \<Rightarrow> cmds \<Rightarrow> cmds option) \<Rightarrow> (string \<Rightarrow> cmds \<Rightarrow> cmds)
     \<Rightarrow> string \<Rightarrow> cmds \<Rightarrow> cmds option" where
  "handle_payload decode exec err payload s =
     (case decode (takeWhile (\<lambda>c. c \<noteq> NUL) payload) of
        Inr f \<Rightarrow> exec f s
      | Inl e \<Rightarrow>
          Some (if e = - ENOEXEC then err ''payload decode err'' s
                else if e = - EINVAL then err ''payload bad values'' s
                else err ''payload unknown err'' s))"

definition on_publish_cb ::
  "string \<Rightarrow> (string \<Rightarrow> cmds \<Rightarrow> cmds option) \<Rightarrow> string \<Rightarrow> string \<Rightarrow> cmds \<Rightarrow> (bool \<times> cmds) option" where
  "on_publish_cb topic_cmd_str handle topic payload s =
     (if matches topic topic_cmd_str then map_option (Pair True) (handle payload s) else Some (False, s))"

definition reboot_handle :: "cmd_env \<Rightarrow> string \<Rightarrow> cmds \<Rightarrow> cmds option" where
  "reboot_handle E = handle_payload (reboot_json_cmd_decode E) (reboot_exec E) (reboot_publish_response_err E)"

definition ota_dfu_handle :: "cmd_env \<Rightarrow> string \<Rightarrow> cmds \<Rightarrow> cmds option" where
  "ota_dfu_handle E = handle_payload (ota_dfu_json_cmd_decode E) (ota_dfu_exec E) (ota_dfu_publish_response_err E)"

definition fs_handle :: "cmd_env \<Rightarrow> string \<Rightarrow> cmds \<Rightarrow> cmds option" where
  "fs_handle E payload s =
     handle_payload (fs_json_cmd_decode E) (fs_exec E) (fs_publish_response_err E) payload (k_sleep E 500 s)"

definition remote_pub_handle :: "cmd_env \<Rightarrow> string \<Rightarrow> cmds \<Rightarrow> cmds option" where
  "remote_pub_handle E =
     handle_payload (remote_pub_json_cmd_decode E) (remote_pub_exec E) (remote_pub_publish_response_err E)"

definition control_handle :: "cmd_env \<Rightarrow> string \<Rightarrow> cmds \<Rightarrow> cmds option" where
  "control_handle E = handle_payload (control_json_cmd_decode E) (control_exec E) (control_publish_response_err E)"

definition start_handle :: "cmd_env \<Rightarrow> string \<Rightarrow> cmds \<Rightarrow> cmds option" where
  "start_handle E = handle_payload (start_json_cmd_decode E) (start_exec E) start_publish_response_err"

definition node_id_handle :: "cmd_env \<Rightarrow> string \<Rightarrow> cmds \<Rightarrow> cmds option" where
  "node_id_handle E = handle_payload (node_id_json_cmd_decode E) (node_id_exec E) node_id_publish_response_err"

definition rtt_handle :: "cmd_env \<Rightarrow> string \<Rightarrow> cmds \<Rightarrow> cmds option" where
  "rtt_handle E = handle_payload (rtt_json_cmd_decode E) (rtt_exec E) rtt_publish_response_err"

section \<open>The table\<close>

definition cmd_topics :: "string \<Rightarrow> string list" where
  "cmd_topics node =
     [node_topic node ''reboot'', node_topic node ''ota_dfu'', node_topic node ''fs'',
      node_topic node ''remote_pub'', node_topic node ''control'',
      all_topic ''start'', all_topic ''node_id'', all_topic ''rtt'']"

definition subscription_list_build :: "cmd_env \<Rightarrow> cmds \<Rightarrow> cmds" where
  "subscription_list_build E s = s\<lparr>topic_cmd_strs := cmd_topics (e_id E)\<rparr>"

definition subscription_cb :: "cmd_env \<Rightarrow> (string \<Rightarrow> cmds \<Rightarrow> cmds option) list" where
  "subscription_cb E =
     [reboot_handle E, ota_dfu_handle E, fs_handle E, remote_pub_handle E, control_handle E,
      start_handle E, node_id_handle E, rtt_handle E]"

fun dispatch ::
  "(string \<times> (string \<Rightarrow> cmds \<Rightarrow> cmds option)) list \<Rightarrow> string \<Rightarrow> string \<Rightarrow> cmds \<Rightarrow> (bool \<times> cmds) option" where
  "dispatch [] topic payload s = Some (False, s)"
| "dispatch ((t, h) # cbs) topic payload s =
     (case on_publish_cb t h topic payload s of
        None \<Rightarrow> None
      | Some (True, s') \<Rightarrow> Some (True, s')
      | Some (False, s') \<Rightarrow> dispatch cbs topic payload s')"

definition mqtt_common_on_mqtt_publish ::
  "cmd_env \<Rightarrow> string \<Rightarrow> string \<Rightarrow> cmds \<Rightarrow> (bool \<times> cmds) option" where
  "mqtt_common_on_mqtt_publish E topic payload s =
     dispatch (zip (topic_cmd_strs s) (subscription_cb E)) topic payload s"

text \<open>Messages alternate with what the other threads do to the publishers.\<close>

datatype cmd_step = Subscribe | Message string string | Work pubs_event

definition cmds_step :: "cmd_env \<Rightarrow> cmd_step \<Rightarrow> cmds option \<Rightarrow> cmds option" where
  "cmds_step E ev so =
     (case so of
        None \<Rightarrow> None
      | Some s \<Rightarrow>
          (case ev of
             Subscribe \<Rightarrow> Some (subscription_list_build E s)
           | Message topic payload \<Rightarrow> map_option snd (mqtt_common_on_mqtt_publish E topic payload s)
           | Work w \<Rightarrow> Some (if is_work w then s\<lparr>cm_pubs := pubs_step w (cm_pubs s)\<rparr> else s)))"

section \<open>Dispatch\<close>

lemma dispatch_first:
  assumes "first_index (matches topic) (map fst cbs) = Some i"
  shows "dispatch cbs topic payload s = map_option (Pair True) (snd (cbs ! i) payload s)"
  using assms
proof (induction cbs arbitrary: i)
  case (Cons cb cbs)
  obtain t h where "cb = (t, h)" by fastforce
  then show ?case
    using Cons by (auto simp: on_publish_cb_def split: if_splits option.split)
qed simp

lemma matches_prefix: "NUL \<notin> set topic \<Longrightarrow> matches topic cmd_str \<longleftrightarrow> prefix topic cmd_str"
  by (simp add: matches_def strncmp_eq_prefix)

lemma topic_prefixes [simp]:
  "prefix (node_topic node a) (node_topic node b) \<longleftrightarrow> prefix a b"
  "prefix (all_topic a) (all_topic b) \<longleftrightarrow> prefix a b"
  "prefix (all_topic (c # a)) (node_topic node b) \<longleftrightarrow> prefix (c # a) (node @ ''/'' @ b)"
  by (simp_all add: node_topic_def all_topic_def)

text \<open>The hardware id is written in hexadecimal digits.\<close>

definition hex_id :: "string \<Rightarrow> bool" where
  "hex_id node \<longleftrightarrow> list_all isxdigit node"

lemma not_xdigit: "\<not> isxdigit NUL" "\<not> isxdigit CHR ''s''" "\<not> isxdigit CHR ''n''" "\<not> isxdigit CHR ''r''"
  by (simp_all add: isxdigit_def hex_val_def)

lemma hex_id_start:
  assumes "hex_id node" "\<not> isxdigit c" "c \<noteq> CHR ''/''"
  shows "\<not> prefix (c # a) (node @ ''/'' @ b)"
  using assms by (cases node) (auto simp: hex_id_def)

lemma hex_id_no_nul: "hex_id node \<Longrightarrow> NUL \<notin> set node"
  using not_xdigit(1) by (auto simp: hex_id_def list_all_iff)

lemma topic_no_nul: "NUL \<notin> set node \<Longrightarrow> NUL \<notin> set t \<Longrightarrow> NUL \<notin> set (node_topic node t)"
  "NUL \<notin> set t \<Longrightarrow> NUL \<notin> set (all_topic t)"
  by (simp_all add: node_topic_def all_topic_def MQTT_PLATFORM_def)

lemma topics_no_nul:
  assumes "hex_id node"
  shows "list_all (\<lambda>t. NUL \<notin> set t) (cmd_topics node)"
  using hex_id_no_nul [OF assms] by (simp add: cmd_topics_def topic_no_nul)

lemma topic_index:
  assumes "hex_id node" "k < 8"
  shows "first_index (prefix (cmd_topics node ! k)) (cmd_topics node) = Some k"
proof -
  note st = hex_id_start [OF assms(1) not_xdigit(2)] hex_id_start [OF assms(1) not_xdigit(3)]
    hex_id_start [OF assms(1) not_xdigit(4)]
  consider "k = 0" | "k = 1" | "k = 2" | "k = 3" | "k = 4" | "k = 5" | "k = 6" | "k = 7"
    using assms(2) by linarith
  then show ?thesis
    by cases (simp_all add: cmd_topics_def st del: append.simps)
qed

lemma lengths: "length (cmd_topics node) = 8" "length (subscription_cb E) = 8"
  by (simp_all add: cmd_topics_def subscription_cb_def)

lemma dispatch_topic:
  assumes node: "hex_id (e_id E)" and s: "topic_cmd_strs s = cmd_topics (e_id E)" and k: "k < 8"
  shows "mqtt_common_on_mqtt_publish E (cmd_topics (e_id E) ! k) p s
    = map_option (Pair True) ((subscription_cb E ! k) p s)"
proof -
  have fst: "map fst (zip (cmd_topics (e_id E)) (subscription_cb E)) = cmd_topics (e_id E)" by (simp add: lengths)
  have "NUL \<notin> set (cmd_topics (e_id E) ! k)"
    using topics_no_nul [OF node] k by (simp add: lengths list_all_length)
  then have "first_index (matches (cmd_topics (e_id E) ! k)) (map fst (zip (cmd_topics (e_id E)) (subscription_cb E))) = Some k"
    using topic_index [OF node k] unfolding fst by (simp add: first_index_Some matches_prefix)
  from dispatch_first [OF this] k show ?thesis
    by (simp add: mqtt_common_on_mqtt_publish_def s lengths)
qed

text \<open>
  C32: a message on one of the eight subscribed topics runs the command of that topic and no other. A
  message on any shorter text that begins like the reboot topic is taken for a reboot command.
\<close>

theorem command_dispatch:
  assumes node: "hex_id (e_id E)" and s: "topic_cmd_strs s = cmd_topics (e_id E)"
  shows "(k < 8 \<longrightarrow> mqtt_common_on_mqtt_publish E (cmd_topics (e_id E) ! k) p s
      = map_option (Pair True) ((subscription_cb E ! k) p s))
    \<and> (prefix t (node_topic (e_id E) ''reboot'') \<longrightarrow>
      mqtt_common_on_mqtt_publish E t p s = map_option (Pair True) (reboot_handle E p s))"
proof (intro conjI impI)
  let ?cbs = "zip (cmd_topics (e_id E)) (subscription_cb E)"
  have fst: "map fst ?cbs = cmd_topics (e_id E)" by (simp add: lengths)
  { assume "k < 8"
    with node s show "mqtt_common_on_mqtt_publish E (cmd_topics (e_id E) ! k) p s
        = map_option (Pair True) ((subscription_cb E ! k) p s)" by (rule dispatch_topic) }
  { assume t: "prefix t (node_topic (e_id E) ''reboot'')"
    have "NUL \<notin> set (node_topic (e_id E) ''reboot'')"
      using hex_id_no_nul [OF node] by (simp add: topic_no_nul)
    then have "NUL \<notin> set t" using set_mono_prefix [OF t] by auto
    then have "matches t (node_topic (e_id E) ''reboot'')" using t by (simp add: matches_prefix)
    then have "first_index (matches t) (map fst ?cbs) = Some 0"
      unfolding fst by (simp add: cmd_topics_def)
    from dispatch_first [OF this]
    show "mqtt_common_on_mqtt_publish E t p s = map_option (Pair True) (reboot_handle E p s)"
      by (simp add: mqtt_common_on_mqtt_publish_def s cmd_topics_def subscription_cb_def) }
qed

section \<open>The two publishers and their flags\<close>

lemmas publish_defs =
  reboot_publish_response_def reboot_publish_response_err_def
  ota_dfu_publish_response_def ota_dfu_publish_response_err_def
  fs_publish_response_def fs_publish_response_err_def
  remote_pub_publish_response_def remote_pub_publish_response_err_def
  control_publish_response_def control_publish_response_err_def
  start_publish_response_def start_publish_response_err_def
  node_id_publish_response_def node_id_publish_response_err_def
  rtt_publish_response_def rtt_publish_response_err_def

lemmas exec_defs = reboot_exec_def ota_dfu_exec_def fs_exec_def remote_pub_exec_def control_exec_def
  start_exec_def node_id_exec_def rtt_exec_def

lemmas handle_defs = reboot_handle_def ota_dfu_handle_def fs_handle_def remote_pub_handle_def
  control_handle_def start_handle_def node_id_handle_def rtt_handle_def

text \<open>The part of the state the publications do not touch.\<close>

definition core :: "cmds \<Rightarrow> bool \<times> bool \<times> pubs" where
  "core s = (start_cla s, start_ncla s, cm_pubs s)"

lemma core_out [simp]: "core (out c s) = core s"
  by (simp add: core_def out_def)

lemma core_publish [simp]:
  "core (publish_encoded E t r q s) = core s" "core (publish_text t x q s) = core s"
  "core (fs_publish_response E res sid st d s) = core s"
  by (simp_all add: publish_encoded_def publish_text_def mqtt_common_publish_def fs_publish_response_def Let_def
      split: option.split)

definition flags_inv :: "bool \<times> bool \<times> pubs \<Rightarrow> bool" where
  "flags_inv c \<longleftrightarrow> (case c of (cla, ncla, p) \<Rightarrow> \<not> (cla \<and> ncla) \<and> pubs_inv p)"

lemma pubs_inv_ops:
  assumes "pubs_inv p"
  shows "pubs_inv (pubs_start_cla p)" "pubs_inv (pubs_start_ncla p)" "pubs_inv (pubs_stop_cla p)"
    "pubs_inv (pubs_stop_ncla p)" "pubs_inv (snd (pub_schedule_topic t ms p))" "pubs_inv (fold pubs_step evs p)"
  using pubs_inv_step [OF assms, of Start_cla] pubs_inv_step [OF assms, of Start_ncla]
    pubs_inv_step [OF assms, of Stop_cla] pubs_inv_step [OF assms, of Stop_ncla]
    pubs_inv_step [OF assms, of "Schedule_topic t ms"] publisher.inv_fold [OF assms, of evs]
  by (simp_all add: pubs_step_def)

lemma flags_ops:
  assumes "flags_inv (core s)"
  shows "flags_inv (core (k_sleep E ms s))"
    "flags_inv (core (start_ncla_unless_started (stop_cla_if_started E s)))"
    "flags_inv (core (start_cla_unless_started (stop_ncla_if_started s)))"
    "flags_inv (core (stop_ncla_if_started (stop_cla_if_started E s)))"
  using assms
  by (auto simp: flags_inv_def core_def k_sleep_def out_def stop_cla_if_started_def stop_ncla_if_started_def
      start_ncla_unless_started_def start_cla_unless_started_def pubs_inv_ops)

lemma core_storage: "storage E c s = (r, s') \<Longrightarrow> core s' = core s"
  by (auto simp: storage_def)

lemma core_fs: "fs_sub_process_payload E c fl d s = Some (st, txt, s') \<Longrightarrow> core s' = core s"
  by (auto simp: fs_sub_process_payload_def storage_def split: if_splits prod.splits)

lemma flags_simps:
  "flags_inv (core (s\<lparr>cm_head := h\<rparr>)) = flags_inv (core s)"
  "flags_inv (core (s\<lparr>ota_bufs := b\<rparr>)) = flags_inv (core s)"
  by (simp_all add: core_def)

lemma flags_set_pubs: "flags_inv (core s) \<Longrightarrow> pubs_inv p \<Longrightarrow> flags_inv (core (s\<lparr>cm_pubs := p\<rparr>))"
  by (simp add: core_def flags_inv_def)

lemma flags_pubs: "flags_inv (core s) \<Longrightarrow> pubs_inv (cm_pubs s)"
  by (simp add: core_def flags_inv_def)

lemma flags_stop: "flags_inv (core s) \<Longrightarrow>
    flags_inv (core (s\<lparr>cm_pubs := pubs_stop_ncla (cm_pubs s), start_ncla := False\<rparr>))"
  by (simp add: core_def flags_inv_def pubs_inv_ops)

lemma flags_exec:
  assumes s: "flags_inv (core s)"
  shows "reboot_exec E f s = Some s' \<Longrightarrow> flags_inv (core s')"
    "ota_dfu_exec E f s = Some s' \<Longrightarrow> flags_inv (core s')"
    "fs_exec E f s = Some s' \<Longrightarrow> flags_inv (core s')"
    "remote_pub_exec E f s = Some s' \<Longrightarrow> flags_inv (core s')"
    "control_exec E f s = Some s' \<Longrightarrow> flags_inv (core s')"
    "start_exec E f s = Some s' \<Longrightarrow> flags_inv (core s')"
    "node_id_exec E f s = Some s' \<Longrightarrow> flags_inv (core s')"
    "rtt_exec E f s = Some s' \<Longrightarrow> flags_inv (core s')"
proof -
  note d = publish_defs Let_def
  show "reboot_exec E f s = Some s' \<Longrightarrow> flags_inv (core s')"
    using s by (auto simp: reboot_exec_def d reboot_timer_start_def split: if_splits option.splits)
  show "ota_dfu_exec E f s = Some s' \<Longrightarrow> flags_inv (core s')"
    using s by (auto simp: ota_dfu_exec_def d flags_simps split: option.splits prod.splits)
  show "fs_exec E f s = Some s' \<Longrightarrow> flags_inv (core s')"
    using s by (auto simp: fs_exec_def dest!: core_fs split: option.splits)
  show "remote_pub_exec E f s = Some s' \<Longrightarrow> flags_inv (core s')"
    using s pubs_inv_ops(5) [OF flags_pubs [OF s]]
    by (auto simp: remote_pub_exec_def d split: option.splits prod.splits intro!: flags_set_pubs)
       (metis snd_conv)+
  show "control_exec E f s = Some s' \<Longrightarrow> flags_inv (core s')"
    using s by (auto simp: control_exec_def d split: option.splits if_splits intro!: flags_ops)
  show "start_exec E f s = Some s' \<Longrightarrow> flags_inv (core s')"
    using s by (auto simp: start_exec_def d split: option.splits if_splits intro!: flags_ops flags_stop)
  show "node_id_exec E f s = Some s' \<Longrightarrow> flags_inv (core s')"
    using s by (auto simp: node_id_exec_def d split: option.splits if_splits)
  show "rtt_exec E f s = Some s' \<Longrightarrow> flags_inv (core s')"
    using s by (auto simp: rtt_exec_def d flags_simps split: option.splits if_splits prod.splits)
qed

lemma flags_handle_payload:
  assumes "flags_inv (core s)" "\<And>f s'. exec f s = Some s' \<Longrightarrow> flags_inv (core s')"
    and "\<And>x. flags_inv (core (err x s))" and "handle_payload decode exec err p s = Some s'"
  shows "flags_inv (core s')"
  using assms by (auto simp: handle_payload_def split: sum.splits)

lemma flags_handle:
  assumes s: "flags_inv (core s)" and h: "h \<in> set (subscription_cb E)" and e: "h p s = Some s'"
  shows "flags_inv (core s')"
proof -
  note r = flags_handle_payload [OF s] and f = flags_exec [OF s]
  have "reboot_handle E p s = Some s' \<Longrightarrow> ?thesis" unfolding reboot_handle_def
    by (erule r [rotated 2]) (auto simp: publish_defs s intro: f)
  moreover have "ota_dfu_handle E p s = Some s' \<Longrightarrow> ?thesis" unfolding ota_dfu_handle_def
    by (erule r [rotated 2]) (auto simp: publish_defs s intro: f)
  moreover have "fs_handle E p s = Some s' \<Longrightarrow> ?thesis" unfolding fs_handle_def
    by (erule flags_handle_payload [OF flags_ops(1) [OF s], rotated 2])
       (auto simp: publish_defs flags_ops(1) [OF s] intro: flags_exec [OF flags_ops(1) [OF s]])
  moreover have "remote_pub_handle E p s = Some s' \<Longrightarrow> ?thesis" unfolding remote_pub_handle_def
    by (erule r [rotated 2]) (auto simp: publish_defs s intro: f)
  moreover have "control_handle E p s = Some s' \<Longrightarrow> ?thesis" unfolding control_handle_def
    by (erule r [rotated 2]) (auto simp: publish_defs s intro: f)
  moreover have "start_handle E p s = Some s' \<Longrightarrow> ?thesis" unfolding start_handle_def
    by (erule r [rotated 2]) (auto simp: publish_defs s intro: f)
  moreover have "node_id_handle E p s = Some s' \<Longrightarrow> ?thesis" unfolding node_id_handle_def
    by (erule r [rotated 2]) (auto simp: publish_defs s intro: f)
  moreover have "rtt_handle E p s = Some s' \<Longrightarrow> ?thesis" unfolding rtt_handle_def
    by (erule r [rotated 2]) (auto simp: publish_defs s intro: f)
  ultimately show ?thesis using h e by (auto simp: subscription_cb_def)
qed

lemma flags_dispatch:
  assumes "flags_inv (core s)" "\<And>h s'. h \<in> snd ` set cbs \<Longrightarrow> h p s = Some s' \<Longrightarrow> flags_inv (core s')"
    and "dispatch cbs t p s = Some (b, s')"
  shows "flags_inv (core s')"
  using assms
proof (induction cbs)
  case (Cons cb cbs)
  obtain x h where "cb = (x, h)" by fastforce
  then show ?case
    using Cons by (auto simp: on_publish_cb_def split: if_splits option.splits)
qed simp

definition cmds_inv :: "cmds option \<Rightarrow> bool" where
  "cmds_inv so \<longleftrightarrow> (case so of None \<Rightarrow> True | Some s \<Rightarrow> flags_inv (core s))"

lemma cmds_inv_step: "cmds_inv so \<Longrightarrow> cmds_inv (cmds_step E ev so)"
proof (cases so)
  case (Some s)
  assume "cmds_inv so"
  then have s: "flags_inv (core s)" using Some by (simp add: cmds_inv_def)
  show ?thesis
  proof (cases ev)
    case Subscribe
    then show ?thesis using s Some by (simp add: cmds_step_def cmds_inv_def subscription_list_build_def core_def)
  next
    case (Message t p)
    have "dispatch (zip (topic_cmd_strs s) (subscription_cb E)) t p s = Some (b, s') \<Longrightarrow> flags_inv (core s')" for b s'
      using s flags_handle [OF s] by (elim flags_dispatch [rotated 2]) (auto dest: set_zip_rightD)
    then show ?thesis using Message Some
      by (auto simp: cmds_step_def cmds_inv_def mqtt_common_on_mqtt_publish_def split: option.split)
  next
    case (Work w)
    then show ?thesis using s Some
      by (auto simp: cmds_step_def cmds_inv_def intro!: flags_set_pubs pubs_inv_step flags_pubs)
  qed
qed (simp add: cmds_step_def cmds_inv_def)

interpretation commands: machine "\<lambda>so. so = Some cmds_boot" "cmds_step E" cmds_inv for E
  by unfold_locales (simp_all add: cmds_inv_step, simp add: cmds_inv_def core_def flags_inv_def cmds_boot_def pubs_inv_boot)


text \<open>An environment whose parser takes the payload for the operation, the command and the topic.\<close>

definition sample_env :: cmd_env where
  "sample_env = \<lparr>e_parse = (\<lambda>d j. if j = ''?'' then None else
       Some ([''session_id'' \<mapsto> JNum 7, ''res_topic'' \<mapsto> JStr ''res'', ''operation'' \<mapsto> JStr j,
              ''cmd'' \<mapsto> JStr j, ''file'' \<mapsto> JStr ''a'', ''data'' \<mapsto> JStr ''b'', ''pub_topic'' \<mapsto> JStr j])),
     e_encode = (\<lambda>_ _. Some ''{}''), e_id = ''0a1b'', e_junk = 0, e_ipc = (\<lambda>_. (0, 0)),
     e_fs = (\<lambda>_ _. (0, [])), e_work = (\<lambda>_. [])\<rparr>"


theorem command_dispatch_witness:
  "mqtt_common_on_mqtt_publish sample_env [] ''STOP'' (subscription_list_build sample_env cmds_boot)
     = map_option (Pair True) (reboot_handle sample_env ''STOP'' (subscription_list_build sample_env cmds_boot))"
proof -
  have "hex_id (e_id sample_env)" by code_simp
  then show ?thesis
    using command_dispatch [of sample_env "subscription_list_build sample_env cmds_boot" 0 "''STOP''" "[]"]
    by (simp add: subscription_list_build_def)
qed

section \<open>Stopping through the start topic\<close>

lemma pending_stop_ncla:
  "pubs_inv p \<Longrightarrow> pending (pubs_stop_ncla p) ! 0 = None \<and> pending (pubs_stop_ncla p) ! 1 = pending p ! 1"
  by (simp add: pubs_stop_ncla_def k_work_cancel_delayable_def dworks pubs_inv_def)

text \<open>
  Further: the STOP command clears both flags and takes the NCLA publisher off the queue. The CLA publisher is
  stopped only if its flag is set: one that was started through a remote-publish command goes on.
\<close>

theorem stop_command_effect:
  assumes s: "flags_inv (core s)" and d: "start_json_cmd_decode E (takeWhile (\<lambda>c. c \<noteq> NUL) p) = Inr f"
    and f: "str_field f ''operation'' = Some ''STOP''" "str_field f ''res_topic'' = Some res"
  shows "\<exists>s'. start_handle E p s = Some s' \<and> \<not> start_cla s' \<and> \<not> start_ncla s'
    \<and> pending (cm_pubs s') ! 0 = None
    \<and> (\<not> start_cla s \<longrightarrow> pending (cm_pubs s') ! 1 = pending (cm_pubs s) ! 1)"
proof -
  let ?s1 = "stop_ncla_if_started (stop_cla_if_started E s)"
  let ?s2 = "?s1\<lparr>cm_pubs := pubs_stop_ncla (cm_pubs ?s1), start_ncla := False\<rparr>"
  let ?s3 = "start_publish_response E res (num_field E f ''session_id'') (e_id E) ''ok'' ?s2"
  have run: "start_handle E p s = Some ?s3"
    using d f by (simp add: start_handle_def handle_payload_def start_exec_def Let_def fw_defs)
  have "core ?s3 = core ?s2" by (simp add: publish_defs)
  then have c: "start_cla ?s3 = start_cla ?s1" "\<not> start_ncla ?s3" "cm_pubs ?s3 = pubs_stop_ncla (cm_pubs ?s1)"
    by (simp_all add: core_def)
  have "pubs_inv (cm_pubs ?s1)" using flags_ops(4) [OF s] by (rule flags_pubs)
  moreover have "\<not> start_cla ?s1"
    by (simp add: stop_ncla_if_started_def stop_cla_if_started_def k_sleep_def out_def)
  moreover have "\<not> start_cla s \<longrightarrow> pending (cm_pubs ?s1) ! 1 = pending (cm_pubs s) ! 1"
    using pending_stop_ncla [OF flags_pubs [OF s]] by (simp add: stop_ncla_if_started_def stop_cla_if_started_def)
  ultimately show ?thesis using run c pending_stop_ncla by auto
qed

theorem stop_command_effect_witness:
  "\<exists>s s'. cmds_step sample_env (Message (node_topic ''0a1b'' ''remote_pub'') ''cla'')
       (Some (subscription_list_build sample_env cmds_boot)) = Some s
     \<and> start_handle sample_env ''STOP'' s = Some s' \<and> pending (cm_pubs s') ! 1 = Some 0"
proof -
  let ?step = "cmds_step sample_env (Message (node_topic ''0a1b'' ''remote_pub'') ''cla'')
      (Some (subscription_list_build sample_env cmds_boot))"
  have "map_option (\<lambda>s. start_cla s \<or> pending (cm_pubs s) ! 1 \<noteq> Some 0) ?step = Some False" by code_simp
  then obtain s where st: "?step = Some s" and s: "\<not> start_cla s" "pending (cm_pubs s) ! 1 = Some 0" by auto
  have "cmds_step sample_env Subscribe (Some cmds_boot) = Some (subscription_list_build sample_env cmds_boot)"
    by (simp add: cmds_step_def)
  then have "cmds_inv (Some s)"
    using commands.inv_run [of _ sample_env "[Subscribe, Message (node_topic ''0a1b'' ''remote_pub'') ''cla'']"] st
    by simp
  then have inv: "flags_inv (core s)" by (simp add: cmds_inv_def)
  have "map_sum id (\<lambda>f. (str_field f ''operation'', str_field f ''res_topic''))
      (start_json_cmd_decode sample_env (takeWhile (\<lambda>c. c \<noteq> NUL) ''STOP'')) = Inr (Some ''STOP'', Some ''res'')"
    by code_simp
  then obtain f where "start_json_cmd_decode sample_env (takeWhile (\<lambda>c. c \<noteq> NUL) ''STOP'') = Inr f"
    "str_field f ''operation'' = Some ''STOP''" "str_field f ''res_topic'' = Some ''res''"
    by (cases "start_json_cmd_decode sample_env (takeWhile (\<lambda>c. c \<noteq> NUL) ''STOP'')") auto
  from stop_command_effect [OF inv this] s st show ?thesis by force
qed

section \<open>Undefined behaviour\<close>

lemma fs_statuses:
  "status_text ''ok'' = Some ''ok''" "status_text ''err'' = Some ''err''" "status_text ''err-unknown-fs-cmd'' = None"
  by (simp_all add: status_text_def)

text \<open>
  C37: a decoded file-system command is executed and answered when its name is one of the five known ones;
  any other name overruns the status buffer on the stack of the receiving thread.
\<close>

theorem fs_unknown_command_overflows:
  assumes "fs_json_cmd_decode E (takeWhile (\<lambda>c. c \<noteq> NUL) p) = Inr f"
    and "str_field f ''cmd'' = Some c" "str_field f ''file'' = Some fl" "str_field f ''data'' = Some d"
    and "str_field f ''res_topic'' = Some res"
  shows "fs_handle E p s = None \<longleftrightarrow> c \<notin> {''wr'', ''rd'', ''mv'', ''rm'', ''ls''}"
  using assms
  by (auto simp: fs_handle_def handle_payload_def fs_exec_def fs_sub_process_payload_def fs_statuses storage_def
      fw_defs split: prod.splits)

theorem fs_unknown_command_overflows_witness: "fs_handle sample_env ''cat'' cmds_boot = None"
proof -
  let ?d = "fs_json_cmd_decode sample_env (takeWhile (\<lambda>c. c \<noteq> NUL) ''cat'')"
  have "map_sum id (\<lambda>f. map (str_field f) [''cmd'', ''file'', ''data'', ''res_topic'']) ?d
      = Inr [Some ''cat'', Some ''a'', Some ''b'', Some ''res'']" by code_simp
  then obtain f where "?d = Inr f" "str_field f ''cmd'' = Some ''cat''" "str_field f ''file'' = Some ''a''"
    "str_field f ''data'' = Some ''b''" "str_field f ''res_topic'' = Some ''res''"
    by (cases ?d) auto
  from fs_unknown_command_overflows [OF this, of cmds_boot] show ?thesis by simp
qed

section \<open>Answers to commands\<close>

fun is_publish :: "cmd_out \<Rightarrow> bool" where
  "is_publish (Publish _ _ _) = True"
| "is_publish _ = False"

definition replies :: "cmds \<Rightarrow> nat" where
  "replies s = length (filter is_publish (cm_out s))"

lemma replies_simps [simp]:
  "replies (out c s) = (if is_publish c then 1 else 0) + replies s"
  "replies (s\<lparr>cm_pubs := p\<rparr>) = replies s" "replies (s\<lparr>cm_head := h\<rparr>) = replies s"
  "replies (s\<lparr>ota_bufs := b\<rparr>) = replies s" "replies (s\<lparr>start_cla := x\<rparr>) = replies s"
  "replies (s\<lparr>start_ncla := x\<rparr>) = replies s" "replies (k_sleep E ms s) = replies s"
  by (simp_all add: replies_def out_def k_sleep_def)

lemma replies_ops [simp]:
  "replies (stop_cla_if_started E s) = replies s" "replies (stop_ncla_if_started s) = replies s"
  "replies (start_cla_unless_started s) = replies s" "replies (start_ncla_unless_started s) = replies s"
  by (simp_all add: stop_cla_if_started_def stop_ncla_if_started_def start_cla_unless_started_def
      start_ncla_unless_started_def)

lemma replies_text [simp]: "replies (publish_text t x q s) = Suc (replies s)"
  by (simp add: publish_text_def mqtt_common_publish_def)

lemma replies_fs [simp]: "replies (fs_publish_response E res sid st d s) = Suc (replies s)"
  by (simp add: fs_publish_response_def mqtt_common_publish_def Let_def)

lemma replies_encoded:
  "e_encode E r 256 \<noteq> None \<Longrightarrow> replies (publish_encoded E t r q s) = Suc (replies s)"
  by (auto simp: publish_encoded_def mqtt_common_publish_def)

lemma replies_payload: "fs_sub_process_payload E c fl d s = Some (st, txt, s') \<Longrightarrow> replies s' = replies s"
  by (auto simp: fs_sub_process_payload_def storage_def split: if_splits prod.splits)

lemma replies_handle_payload:
  assumes "\<And>f s'. exec f s = Some s' \<Longrightarrow> replies s' = n" and "\<And>x. replies (err x s) = n"
    and "handle_payload decode exec err p s = Some s'"
  shows "replies s' = n"
  using assms by (auto simp: handle_payload_def split: sum.splits)

lemma replies_exec:
  assumes enc: "\<And>r n. e_encode E r n \<noteq> None"
  shows "reboot_exec E f s = Some s' \<Longrightarrow> replies s' = Suc (replies s)"
    "ota_dfu_exec E f s = Some s' \<Longrightarrow> replies s' = Suc (replies s)"
    "fs_exec E f s = Some s' \<Longrightarrow> replies s' = Suc (replies s)"
    "remote_pub_exec E f s = Some s' \<Longrightarrow> replies s' = Suc (replies s)"
    "control_exec E f s = Some s' \<Longrightarrow> replies s' = Suc (replies s)"
    "start_exec E f s = Some s' \<Longrightarrow> replies s' = Suc (replies s)"
    "node_id_exec E f s = Some s' \<Longrightarrow> replies s' = Suc (replies s)"
proof -
  note d = publish_defs Let_def replies_encoded [OF enc]
  show "reboot_exec E f s = Some s' \<Longrightarrow> replies s' = Suc (replies s)"
    by (auto simp: reboot_exec_def d reboot_timer_start_def split: if_splits option.splits)
  show "ota_dfu_exec E f s = Some s' \<Longrightarrow> replies s' = Suc (replies s)"
    by (auto simp: ota_dfu_exec_def d split: option.splits prod.splits)
  show "fs_exec E f s = Some s' \<Longrightarrow> replies s' = Suc (replies s)"
    by (auto simp: fs_exec_def dest!: replies_payload split: option.splits)
  show "remote_pub_exec E f s = Some s' \<Longrightarrow> replies s' = Suc (replies s)"
    by (auto simp: remote_pub_exec_def d split: option.splits prod.splits)
  show "control_exec E f s = Some s' \<Longrightarrow> replies s' = Suc (replies s)"
    by (auto simp: control_exec_def d split: option.splits if_splits)
  show "start_exec E f s = Some s' \<Longrightarrow> replies s' = Suc (replies s)"
    by (auto simp: start_exec_def d split: option.splits if_splits)
  show "node_id_exec E f s = Some s' \<Longrightarrow> replies s' = Suc (replies s)"
    by (auto simp: node_id_exec_def d split: option.splits if_splits)
qed

lemma handler_replies:
  assumes enc: "\<And>r n. e_encode E r n \<noteq> None" and k: "k < 7" and h: "(subscription_cb E ! k) p s = Some s'"
  shows "replies s' = Suc (replies s)"
proof -
  note r = replies_exec [OF enc]
  consider "k = 0" | "k = 1" | "k = 2" | "k = 3" | "k = 4" | "k = 5" | "k = 6" using k by linarith
  then show ?thesis
    using h
    by cases (simp_all add: subscription_cb_def handle_defs,
      (erule replies_handle_payload [rotated 2], auto simp: publish_defs dest: r)+)
qed

text \<open>
  Further: every command but a round-trip test is answered by exactly one message, whatever its payload holds,
  provided that the answers fit in their buffers.
\<close>

theorem command_answered_once:
  assumes enc: "\<And>r n. e_encode E r n \<noteq> None" and k: "k < 7" and h: "(subscription_cb E ! k) p s = Some s'"
  shows "replies s' = Suc (replies s)"
  using enc k h by (rule handler_replies)

theorem command_answered_once_witness:
  "\<exists>s'. reboot_handle sample_env ''?'' cmds_boot = Some s' \<and> replies s' = Suc (replies cmds_boot)"
proof -
  have "map_option replies (reboot_handle sample_env ''?'' cmds_boot) \<noteq> None" by code_simp
  then obtain s' where h: "reboot_handle sample_env ''?'' cmds_boot = Some s'" by auto
  have "\<And>r n. e_encode sample_env r n \<noteq> None" by (simp add: sample_env_def)
  from command_answered_once [OF this, of 0 "''?''" cmds_boot s'] h show ?thesis
    by (simp add: subscription_cb_def)
qed

section \<open>A command without its operation\<close>

definition parsed_without_operation :: "cmd_env \<Rightarrow> string \<Rightarrow> json_fields \<Rightarrow> bool" where
  "parsed_without_operation E p f \<longleftrightarrow>
     (\<forall>d. e_parse E d (takeWhile (\<lambda>c. c \<noteq> NUL) p) = Some f)
     \<and> f ''session_id'' \<noteq> None \<and> str_field f ''res_topic'' \<noteq> None \<and> f ''operation'' = None"

text \<open>
  Further: a command with a session and a response topic but no operation passes every decoder. The start
  topic then answers an error, the control topic takes it for NCLA, and the node-id and round-trip topics
  compare through a pointer that nothing has initialised.
\<close>

theorem missing_operation:
  assumes "parsed_without_operation E p f"
  shows "node_id_handle E p s = None \<and> rtt_handle E p s = None
    \<and> start_handle E p s = Some (start_publish_response_err ''payload unknown err'' s)
    \<and> (\<exists>res. str_field f ''res_topic'' = Some res \<and>
        control_handle E p s = Some (control_publish_response E res (num_field E f ''session_id'') ''ok''
          (start_ncla_unless_started (stop_cla_if_started E s))))"
proof -
  obtain res where res: "f ''res_topic'' = Some (JStr res)"
    using assms by (auto simp: parsed_without_operation_def str_field_def split: option.splits json_val.splits)
  obtain v where v: "f ''session_id'' = Some v" "f ''operation'' = None"
    "\<And>d. e_parse E d (takeWhile (\<lambda>c. c \<noteq> NUL) p) = Some f"
    using assms by (auto simp: parsed_without_operation_def)
  note d = handle_payload_def json_decode_def field_mask_def session_descr_def res v str_field_def
  have "node_id_handle E p s = None"
    by (simp add: node_id_handle_def node_id_json_cmd_decode_def node_id_exec_def d)
  moreover have "rtt_handle E p s = None"
    by (cases "f ''payload''") (simp_all add: rtt_handle_def rtt_json_cmd_decode_def rtt_exec_def d)
  moreover have "start_handle E p s = Some (start_publish_response_err ''payload unknown err'' s)"
    by (simp add: start_handle_def start_json_cmd_decode_def start_exec_def d fw_defs)
  moreover have "control_handle E p s = Some (control_publish_response E res (num_field E f ''session_id'') ''ok''
          (start_ncla_unless_started (stop_cla_if_started E s)))"
    by (simp add: control_handle_def control_json_cmd_decode_def control_exec_def d fw_defs num_field_def)
  ultimately show ?thesis using res by (simp add: str_field_def)
qed

theorem missing_operation_witness:
  "node_id_handle (sample_env\<lparr>e_parse := \<lambda>d j. Some [''session_id'' \<mapsto> JNum 7, ''res_topic'' \<mapsto> JStr ''r'']\<rparr>)
     ''x'' cmds_boot = None"
proof -
  let ?f = "[''session_id'' \<mapsto> JNum 7, ''res_topic'' \<mapsto> JStr ''r'']"
  have "parsed_without_operation (sample_env\<lparr>e_parse := \<lambda>d j. Some ?f\<rparr>) ''x'' ?f"
    by (simp add: parsed_without_operation_def str_field_def)
  from missing_operation [OF this, of cmds_boot] show ?thesis by blast
qed

end
