(* ===== verification/WifiThread.thy ===== *)
theory WifiThread
  imports Manager
begin

text \<open>
  src/threads/wifi\_thread.c: the thread that connects to the access point, retries, and takes the
  interface down for a minute after eleven failed attempts. The network stack's callbacks run while the
  thread sleeps; an environment says which events arrive during each sleep and what the calls return.
  The log lists the actions in order; \<open>Sleep\<close> and \<open>Alive\<close> are those of the thread itself.
\<close>

section \<open>State\<close>

definition CONNECTION_TIMEOUT_MS :: nat where [fw_defs]: "CONNECTION_TIMEOUT_MS = 30000"
definition STATUS_POLLING_MS :: nat where [fw_defs]: "STATUS_POLLING_MS = 3000"
definition WIFI_THREAD_TIMEOUT_SLEEP_MS :: nat where [fw_defs]: "WIFI_THREAD_TIMEOUT_SLEEP_MS = 3000"
definition WIFI_NO_NETWORK_SLEEP_MS :: nat where [fw_defs]: "WIFI_NO_NETWORK_SLEEP_MS = 60000"
definition WIFI_THREAD_CONNECTED_SLEEP_MS :: nat where [fw_defs]: "WIFI_THREAD_CONNECTED_SLEEP_MS = 10000"
definition WIFI_THREAD_SHUTDOWN_SLEEP_MS :: nat where [fw_defs]: "WIFI_THREAD_SHUTDOWN_SLEEP_MS = 60000"
definition MAX_FAILED_CONNECT_COUNT :: nat where [fw_defs]: "MAX_FAILED_CONNECT_COUNT = 10"

datatype wifi_security = WIFI_SECURITY_TYPE_SAE | WIFI_SECURITY_TYPE_NONE

datatype wifi_act =
    Alive nat
  | Sleep nat
  | Handler_sleep nat
  | Connect_req wifi_security
  | Disconnect_req
  | Twt_setup_req nat
  | Twt_teardown_req nat
  | Iface_status
  | Iface_down
  | Iface_up
  | Throw wifi_status

text \<open>
  Events of the network stack and power commands. \<open>Twt_event teardown received accept flow\<close> is a TWT
  event; the callback is registered for connect and disconnect results only, so it never arrives.
\<close>

datatype wifi_input =
    Connect_result int
  | Disconnect_result int
  | Twt_event bool bool bool nat
  | Other_wifi_event
  | Dhcp_bound
  | Power_turn_off
  | Power_turn_on
  | Power_twt_teardown
  | Power_other

record wifi_env =
  w_res :: "nat \<Rightarrow> wifi_act \<Rightarrow> int"
  w_events :: "nat \<Rightarrow> wifi_input list"
  w_admin_up :: "nat \<Rightarrow> bool"
  w_psk_length :: nat

record wifi =
  connected :: bool
  connect_result :: bool
  disconnect_requested :: bool
  is_wifi_shutdown :: bool
  failed_connect_count :: nat
  twt_resp_received :: bool
  twt_resp_accept :: bool
  twt_flow_id :: nat
  w_log :: "wifi_act list"

definition wifi_boot :: wifi where
  "wifi_boot = \<lparr>connected = False, connect_result = False, disconnect_requested = False,
     is_wifi_shutdown = False, failed_connect_count = 0, twt_resp_received = False,
     twt_resp_accept = False, twt_flow_id = 1, w_log = []\<rparr>"

definition act :: "wifi_act \<Rightarrow> wifi \<Rightarrow> wifi" where
  "act a s = s\<lparr>w_log := w_log s @ [a]\<rparr>"

definition wifi_call :: "wifi_env \<Rightarrow> wifi_act \<Rightarrow> wifi \<Rightarrow> int \<times> wifi" where
  "wifi_call E a s = (w_res E (length (w_log s)) a, act a s)"

section \<open>Callbacks\<close>

definition log_wifi_status :: "wifi \<Rightarrow> wifi" where
  "log_wifi_status s = act Iface_status s"

definition handle_wifi_connect_result :: "int \<Rightarrow> wifi \<Rightarrow> wifi" where
  "handle_wifi_connect_result status s =
     log_wifi_status
       (if status \<noteq> 0 then act (Throw WS_connect_failed) (s\<lparr>connected := False\<rparr>)
        else act (Throw WS_connected) (s\<lparr>connected := True\<rparr>))"

definition handle_wifi_disconnect_result :: "int \<Rightarrow> wifi \<Rightarrow> wifi" where
  "handle_wifi_disconnect_result status s =
     log_wifi_status
       (if disconnect_requested s then act (Throw WS_disconnect_failed) s
        else (act (Throw WS_disconnected) s)\<lparr>connected := False\<rparr>)"

definition handle_wifi_twt_event :: "bool \<Rightarrow> bool \<Rightarrow> bool \<Rightarrow> nat \<Rightarrow> wifi \<Rightarrow> wifi" where
  "handle_wifi_twt_event teardown received accept flow s =
     (if teardown then s
      else if received
      then s\<lparr>twt_resp_accept := (if accept then True else twt_resp_accept s), twt_resp_received := True,
             twt_flow_id := flow\<rparr>
      else s)"

definition wifi_mgmt_event_handler :: "wifi_input \<Rightarrow> wifi \<Rightarrow> wifi" where
  "wifi_mgmt_event_handler ev s =
     (case ev of
        Connect_result st \<Rightarrow> handle_wifi_connect_result st s
      | Disconnect_result st \<Rightarrow> handle_wifi_disconnect_result st s
      | Twt_event a b c d \<Rightarrow> handle_wifi_twt_event a b c d s
      | _ \<Rightarrow> s)\<lparr>connect_result := True\<rparr>"

definition net_mgmt_event_handler :: "wifi \<Rightarrow> wifi" where
  "net_mgmt_event_handler s = act (Throw WS_ip_acquired) s"

definition wifi_disconnect :: "wifi_env \<Rightarrow> wifi \<Rightarrow> wifi" where
  "wifi_disconnect E s = snd (wifi_call E Disconnect_req s)"

definition shutdown_wifi :: "wifi_env \<Rightarrow> wifi \<Rightarrow> wifi" where
  "shutdown_wifi E s =
     (if \<not> w_admin_up E (length (w_log s)) then s else snd (wifi_call E Iface_down s))"

definition startup_wifi :: "wifi_env \<Rightarrow> wifi \<Rightarrow> wifi" where
  "startup_wifi E s = snd (wifi_call E Iface_up s)"

text \<open>\<open>slp\<close> is the sleep of the calling thread.\<close>

definition enter_shutdown_mode :: "wifi_env \<Rightarrow> (nat \<Rightarrow> wifi \<Rightarrow> wifi) \<Rightarrow> wifi \<Rightarrow> wifi" where
  "enter_shutdown_mode E slp s =
     (shutdown_wifi E (slp STATUS_POLLING_MS (wifi_disconnect E s)))\<lparr>connected := False\<rparr>"

definition exit_shutdown_mode :: "wifi_env \<Rightarrow> wifi \<Rightarrow> wifi" where
  "exit_shutdown_mode E s = startup_wifi E s"

definition teardown_twt :: "wifi_env \<Rightarrow> wifi \<Rightarrow> wifi" where
  "teardown_twt E s = snd (wifi_call E (Twt_teardown_req (twt_flow_id s)) s)"

definition wifi_thread_event_handler :: "wifi_env \<Rightarrow> wifi_input \<Rightarrow> wifi \<Rightarrow> wifi" where
  "wifi_thread_event_handler E ev s =
     (case ev of
        Power_turn_off \<Rightarrow>
          enter_shutdown_mode E (\<lambda>ms. act (Handler_sleep ms)) (s\<lparr>is_wifi_shutdown := True\<rparr>)
      | Power_turn_on \<Rightarrow> exit_shutdown_mode E (s\<lparr>is_wifi_shutdown := False\<rparr>)
      | Power_twt_teardown \<Rightarrow> teardown_twt E s
      | _ \<Rightarrow> s)"

definition wifi_handle :: "wifi_env \<Rightarrow> wifi_input \<Rightarrow> wifi \<Rightarrow> wifi" where
  "wifi_handle E ev s =
     (case ev of
        Dhcp_bound \<Rightarrow> net_mgmt_event_handler s
      | Power_turn_off \<Rightarrow> wifi_thread_event_handler E ev s
      | Power_turn_on \<Rightarrow> wifi_thread_event_handler E ev s
      | Power_twt_teardown \<Rightarrow> wifi_thread_event_handler E ev s
      | Power_other \<Rightarrow> wifi_thread_event_handler E ev s
      | _ \<Rightarrow> wifi_mgmt_event_handler ev s)"

section \<open>The thread\<close>

definition wifi_sleep :: "wifi_env \<Rightarrow> nat \<Rightarrow> wifi \<Rightarrow> wifi" where
  "wifi_sleep E ms s = fold (wifi_handle E) (w_events E (length (w_log s))) (act (Sleep ms) s)"

text \<open>Two functions nothing calls: the request of a TWT session and the wait for its answer.\<close>

definition setup_twt :: "wifi_env \<Rightarrow> wifi \<Rightarrow> int \<times> wifi" where
  "setup_twt E s = wifi_call E (Twt_setup_req 1) (s\<lparr>twt_flow_id := 1\<rparr>)"

fun twt_poll :: "wifi_env \<Rightarrow> nat \<Rightarrow> wifi \<Rightarrow> bool \<times> wifi" where
  "twt_poll E 0 s = (False, s)"
| "twt_poll E (Suc n) s =
     (let s1 = wifi_sleep E 300 (act (Alive 300) s)
      in if twt_resp_received s1 then (twt_resp_accept s1, s1) else twt_poll E n s1)"

definition wait_for_twt_resp_received :: "wifi_env \<Rightarrow> wifi \<Rightarrow> bool \<times> wifi" where
  "wait_for_twt_resp_received E s = twt_poll E (20 * 1000 div 300) s"

definition wifi_args_to_params :: "wifi_env \<Rightarrow> wifi_security" where
  "wifi_args_to_params E =
     (if w_psk_length E \<noteq> 0 then WIFI_SECURITY_TYPE_SAE else WIFI_SECURITY_TYPE_NONE)"

definition wifi_connect :: "wifi_env \<Rightarrow> wifi \<Rightarrow> int \<times> wifi" where
  "wifi_connect E s =
     (let (r, s1) = wifi_call E (Connect_req (wifi_args_to_params E))
                      (s\<lparr>connected := False, connect_result := False\<rparr>)
      in if r \<noteq> 0 then (- ENOEXEC, s1\<lparr>connect_result := True\<rparr>) else (0, s1))"

text \<open>The loop waiting for a connection result, with \<open>n\<close> polls left.\<close>

fun poll_connect :: "wifi_env \<Rightarrow> nat \<Rightarrow> wifi \<Rightarrow> wifi" where
  "poll_connect E 0 s = s"
| "poll_connect E (Suc n) s =
     (let s1 = log_wifi_status (wifi_sleep E STATUS_POLLING_MS (act (Alive CONNECTION_TIMEOUT_MS) s))
      in if connect_result s1 then s1\<lparr>connect_result := False\<rparr> else poll_connect E n s1)"

definition poll_count :: nat where
  "poll_count = CONNECTION_TIMEOUT_MS div STATUS_POLLING_MS"

definition nap :: "wifi_env \<Rightarrow> nat \<Rightarrow> wifi \<Rightarrow> wifi" where
  "nap E ms s = wifi_sleep E ms (act (Alive ms) s)"

definition connect_failed :: "wifi_env \<Rightarrow> wifi \<Rightarrow> wifi" where
  "connect_failed E s =
     (let s1 = nap E WIFI_THREAD_TIMEOUT_SLEEP_MS s;
          s2 = s1\<lparr>failed_connect_count := failed_connect_count s1 + 1\<rparr>
      in if failed_connect_count s2 > MAX_FAILED_CONNECT_COUNT
         then exit_shutdown_mode E (nap E WIFI_NO_NETWORK_SLEEP_MS
                (enter_shutdown_mode E (wifi_sleep E) (s2\<lparr>failed_connect_count := 0\<rparr>)))
         else s2)"

definition wifi_pass :: "wifi_env \<Rightarrow> wifi \<Rightarrow> wifi" where
  "wifi_pass E s =
     (if is_wifi_shutdown s then nap E WIFI_THREAD_SHUTDOWN_SLEEP_MS s
      else if \<not> connected s then
        let s1 = snd (wifi_connect E (act (Alive CONNECTION_TIMEOUT_MS) (s\<lparr>connect_result := False\<rparr>)));
            s2 = poll_connect E poll_count s1
        in if connected s2
           then (nap E STATUS_POLLING_MS (nap E (STATUS_POLLING_MS * 20) s2))\<lparr>failed_connect_count := 0\<rparr>
           else if \<not> connect_result s2 then connect_failed E s2
           else s2
      else nap E WIFI_THREAD_CONNECTED_SLEEP_MS s)"

definition wifi_run :: "wifi_env \<Rightarrow> nat \<Rightarrow> wifi" where
  "wifi_run E k = (wifi_pass E ^^ k) wifi_boot"

section \<open>Check-ins\<close>

text \<open>
  The timeout of the last check-in in a log, the time slept since, and whether no sleep ever exceeded
  the timeout by more than three seconds.
\<close>

fun meter_step :: "wifi_act \<Rightarrow> nat \<times> nat \<times> bool \<Rightarrow> nat \<times> nat \<times> bool" where
  "meter_step (Alive t) (to, sl, ok) = (t, 0, ok)"
| "meter_step (Sleep m) (to, sl, ok) = (to, sl + m, ok \<and> sl + m \<le> to + 3000)"
| "meter_step _ r = r"

definition meter :: "wifi_act list \<Rightarrow> nat \<times> nat \<times> bool" where
  "meter l = fold meter_step l (0, 0, True)"

definition in_time :: "wifi \<Rightarrow> bool" where
  "in_time s \<longleftrightarrow> snd (snd (meter (w_log s)))"

definition m_timeout :: "wifi \<Rightarrow> nat" where "m_timeout s = fst (meter (w_log s))"
definition m_slept :: "wifi \<Rightarrow> nat" where "m_slept s = fst (snd (meter (w_log s)))"

definition same_meter :: "wifi \<Rightarrow> wifi \<Rightarrow> bool" where
  "same_meter s s' \<longleftrightarrow> meter (w_log s') = meter (w_log s)"

lemma same_meter_refl [simp, intro]: "same_meter s s"
  by (simp add: same_meter_def)

lemma same_meter_trans: "same_meter s t \<Longrightarrow> same_meter t u \<Longrightarrow> same_meter s u"
  by (simp add: same_meter_def)

lemma meter_snoc: "meter (l @ [a]) = meter_step a (meter l)"
  by (simp add: meter_def)

lemma meter_append: "meter (l @ as) = fold meter_step as (meter l)"
  by (simp add: meter_def)

lemma meter_other [simp]:
  "meter_step (Handler_sleep n) r = r" "meter_step (Connect_req c) r = r" "meter_step Disconnect_req r = r"
  "meter_step (Twt_setup_req n) r = r"
  "meter_step (Twt_teardown_req n) r = r" "meter_step Iface_status r = r" "meter_step Iface_down r = r"
  "meter_step Iface_up r = r" "meter_step (Throw st) r = r"
  by (cases r; simp)+

lemmas callback_defs = wifi_handle_def wifi_mgmt_event_handler_def handle_wifi_connect_result_def
  handle_wifi_disconnect_result_def handle_wifi_twt_event_def net_mgmt_event_handler_def
  wifi_thread_event_handler_def exit_shutdown_mode_def startup_wifi_def shutdown_wifi_def
  wifi_disconnect_def teardown_twt_def log_wifi_status_def wifi_call_def act_def

lemma same_meter_handle: "same_meter s (wifi_handle E ev s)"
  by (cases ev) (simp_all add: callback_defs enter_shutdown_mode_def same_meter_def meter_append)

lemma same_meter_fold: "same_meter s (fold (wifi_handle E) evs s)"
  by (induction evs arbitrary: s) (auto intro: same_meter_trans same_meter_handle)

lemma meter_sleep:
  "m_timeout (wifi_sleep E ms s) = m_timeout s" "m_slept (wifi_sleep E ms s) = m_slept s + ms"
  "in_time (wifi_sleep E ms s) = (in_time s \<and> m_slept s + ms \<le> m_timeout s + 3000)"
  using same_meter_fold [of "act (Sleep ms) s" E "w_events E (length (w_log s))"]
  by (cases "meter (w_log s)";
      simp add: wifi_sleep_def same_meter_def m_timeout_def m_slept_def in_time_def act_def meter_snoc)+

lemma meter_alive:
  "m_timeout (act (Alive t) s) = t" "m_slept (act (Alive t) s) = 0" "in_time (act (Alive t) s) = in_time s"
  by (cases "meter (w_log s)";
      simp add: m_timeout_def m_slept_def in_time_def act_def meter_snoc)+

lemma meter_keeps:
  "same_meter s s' \<Longrightarrow> m_timeout s' = m_timeout s \<and> m_slept s' = m_slept s \<and> in_time s' = in_time s"
  by (simp add: same_meter_def m_timeout_def m_slept_def in_time_def)

lemma same_meter_calls:
  "same_meter s (log_wifi_status s)" "same_meter s (wifi_disconnect E s)" "same_meter s (shutdown_wifi E s)"
  "same_meter s (exit_shutdown_mode E s)" "same_meter s (snd (wifi_connect E s))"
  by (simp_all add: callback_defs wifi_connect_def same_meter_def meter_snoc)

lemmas meter_rules = meter_sleep meter_alive
  meter_keeps [OF same_meter_calls(1), THEN conjunct1] meter_keeps [OF same_meter_calls(1), THEN conjunct2, THEN conjunct1]
  meter_keeps [OF same_meter_calls(1), THEN conjunct2, THEN conjunct2]
  meter_keeps [OF same_meter_calls(2), THEN conjunct1] meter_keeps [OF same_meter_calls(2), THEN conjunct2, THEN conjunct1]
  meter_keeps [OF same_meter_calls(2), THEN conjunct2, THEN conjunct2]
  meter_keeps [OF same_meter_calls(3), THEN conjunct2, THEN conjunct2]
  meter_keeps [OF same_meter_calls(4), THEN conjunct2, THEN conjunct2]
  meter_keeps [OF same_meter_calls(5), THEN conjunct2, THEN conjunct2]

lemma meter_fields [simp]:
  "in_time (s\<lparr>connected := b\<rparr>) = in_time s" "in_time (s\<lparr>connect_result := b\<rparr>) = in_time s"
  "in_time (s\<lparr>failed_connect_count := n\<rparr>) = in_time s" "m_timeout (s\<lparr>failed_connect_count := n\<rparr>) = m_timeout s"
  "m_slept (s\<lparr>failed_connect_count := n\<rparr>) = m_slept s"
  by (simp_all add: in_time_def m_timeout_def m_slept_def)

lemma in_time_nap: "in_time s \<Longrightarrow> in_time (nap E ms s)" "m_timeout (nap E ms s) = ms" "m_slept (nap E ms s) = ms"
  by (simp_all add: nap_def meter_rules)

lemma in_time_poll: "in_time s \<Longrightarrow> in_time (poll_connect E n s)"
  by (induction n arbitrary: s) (simp_all add: Let_def meter_rules fw_defs)

lemma in_time_failed: "in_time s \<Longrightarrow> in_time (connect_failed E s)"
  by (simp add: connect_failed_def Let_def enter_shutdown_mode_def meter_rules in_time_nap fw_defs)

lemma in_time_pass: "in_time s \<Longrightarrow> in_time (wifi_pass E s)"
proof -
  assume s: "in_time s"
  then have "in_time (poll_connect E poll_count
      (snd (wifi_connect E (act (Alive CONNECTION_TIMEOUT_MS) (s\<lparr>connect_result := False\<rparr>)))))"
    by (intro in_time_poll) (simp add: meter_rules)
  then show ?thesis using s by (simp add: wifi_pass_def Let_def in_time_nap in_time_failed)
qed

lemma in_time_run: "in_time (wifi_run E k)"
  by (induction k) (simp_all add: wifi_run_def in_time_pass, simp add: in_time_def wifi_boot_def meter_def)

lemma meter_ok_bound: "snd (snd (meter l)) \<Longrightarrow> fst (snd (meter l)) \<le> fst (meter l) + 3000"
proof (induction l rule: rev_induct)
  case (snoc a l)
  then show ?case by (cases "meter l"; cases a) (auto simp: meter_snoc)
qed (simp add: meter_def)

lemma meter_step_ok: "snd (snd (meter_step a r)) \<Longrightarrow> snd (snd r)"
  by (cases r; cases a) auto

lemma meter_fold_ok: "snd (snd (fold meter_step l r)) \<Longrightarrow> snd (snd r)"
proof (induction l arbitrary: r)
  case (Cons a l)
  have "snd (snd (meter_step a r))" by (rule Cons.IH) (use Cons.prems in \<open>simp del: meter_step.simps\<close>)
  then show ?case by (rule meter_step_ok)
qed simp

lemma meter_prefix: "prefix p l \<Longrightarrow> snd (snd (meter l)) \<Longrightarrow> snd (snd (meter p))"
  by (auto simp: prefix_def meter_append dest: meter_fold_ok)


text \<open>A network that is never there.\<close>

definition dead_network :: wifi_env where
  "dead_network = \<lparr>w_res = \<lambda>n a. 0, w_events = \<lambda>n. [], w_admin_up = \<lambda>n. True, w_psk_length = 8\<rparr>"


section \<open>Retries\<close>

definition hopeless :: "wifi_input \<Rightarrow> bool" where
  "hopeless ev \<longleftrightarrow> (case ev of Connect_result st \<Rightarrow> st \<noteq> 0 | Power_turn_off \<Rightarrow> False | Power_turn_on \<Rightarrow> False | _ \<Rightarrow> True)"

fun is_connect :: "wifi_act \<Rightarrow> bool" where
  "is_connect (Connect_req c) = True" | "is_connect _ = False"

definition n_connects :: "wifi \<Rightarrow> nat" where
  "n_connects s = length (filter is_connect (w_log s))"

definition n_restarts :: "wifi \<Rightarrow> nat" where
  "n_restarts s = length (filter ((=) Iface_up) (w_log s))"

definition calm :: "wifi \<Rightarrow> wifi \<Rightarrow> bool" where
  "calm s s' \<longleftrightarrow> n_connects s' = n_connects s \<and> n_restarts s' = n_restarts s
     \<and> failed_connect_count s' = failed_connect_count s \<and> is_wifi_shutdown s' = is_wifi_shutdown s
     \<and> (\<not> connected s \<longrightarrow> \<not> connected s')"

lemma calm_refl [simp, intro]: "calm s s"
  by (simp add: calm_def)

lemma calm_trans [trans]: "calm s t \<Longrightarrow> calm t u \<Longrightarrow> calm s u"
  by (simp add: calm_def)

lemma calm_handle: "hopeless ev \<Longrightarrow> calm s (wifi_handle E ev s)"
  by (cases ev) (simp_all add: callback_defs calm_def n_connects_def n_restarts_def hopeless_def)

lemma calm_fold: "\<forall>ev\<in>set evs. hopeless ev \<Longrightarrow> calm s (fold (wifi_handle E) evs s)"
proof (induction evs arbitrary: s)
  case (Cons a evs)
  then have "calm s (wifi_handle E a s)" "calm (wifi_handle E a s) (fold (wifi_handle E) evs (wifi_handle E a s))"
    by (auto intro: calm_handle)
  then show ?case by (auto intro: calm_trans)
qed simp

lemma calm_act: "\<not> is_connect a \<Longrightarrow> a \<noteq> Iface_up \<Longrightarrow> calm s (act a s)"
  by (simp add: act_def calm_def n_connects_def n_restarts_def)

lemma calm_sleep: "\<forall>n. \<forall>ev\<in>set (w_events E n). hopeless ev \<Longrightarrow> calm s (wifi_sleep E ms s)"
  unfolding wifi_sleep_def by (rule calm_trans [OF calm_act calm_fold]) auto

lemma calm_nap: "\<forall>n. \<forall>ev\<in>set (w_events E n). hopeless ev \<Longrightarrow> calm s (nap E ms s)"
  unfolding nap_def by (rule calm_trans [OF calm_act calm_sleep]) auto

lemma calm_poll: "\<forall>n. \<forall>ev\<in>set (w_events E n). hopeless ev \<Longrightarrow> calm s (poll_connect E n s)"
proof (induction n arbitrary: s)
  case (Suc n)
  let ?s = "log_wifi_status (wifi_sleep E STATUS_POLLING_MS (act (Alive CONNECTION_TIMEOUT_MS) s))"
  have "calm s ?s" unfolding log_wifi_status_def
    by (rule calm_trans [OF calm_act calm_trans [OF calm_sleep calm_act]]) (use Suc.prems in auto)
  moreover have "calm ?s (?s\<lparr>connect_result := False\<rparr>)"
    by (simp add: calm_def n_connects_def n_restarts_def)
  ultimately show ?case using Suc.IH [OF Suc.prems, of ?s] by (auto simp: Let_def intro: calm_trans)
qed simp

lemma poll_clears_result: "0 < n \<Longrightarrow> \<not> connect_result (poll_connect E n s)"
proof (induction n arbitrary: s)
  case (Suc n)
  then show ?case by (cases "n = 0") (simp_all add: Let_def)
qed simp

lemma calm_fields: "calm s (s\<lparr>connected := False\<rparr>)" "calm s (s\<lparr>connect_result := b\<rparr>)"
  by (simp_all add: calm_def n_connects_def n_restarts_def)

lemma calm_shutdown:
  "\<forall>n. \<forall>ev\<in>set (w_events E n). hopeless ev \<Longrightarrow> calm s (enter_shutdown_mode E (wifi_sleep E) s)"
proof -
  assume h: "\<forall>n. \<forall>ev\<in>set (w_events E n). hopeless ev"
  have d: "calm s (wifi_disconnect E s)" by (simp add: wifi_disconnect_def wifi_call_def calm_act)
  have u: "calm t (shutdown_wifi E t)" for t by (simp add: shutdown_wifi_def wifi_call_def calm_act)
  show ?thesis unfolding enter_shutdown_mode_def
    by (rule calm_trans [OF d calm_trans [OF calm_sleep [OF h] calm_trans [OF u calm_fields(1)]]])
qed

lemma wifi_connect_counts:
  "n_connects (snd (wifi_connect E s)) = n_connects s + 1" "n_restarts (snd (wifi_connect E s)) = n_restarts s"
  "failed_connect_count (snd (wifi_connect E s)) = failed_connect_count s"
  "is_wifi_shutdown (snd (wifi_connect E s)) = is_wifi_shutdown s" "\<not> connected (snd (wifi_connect E s))"
  by (simp_all add: wifi_connect_def wifi_call_def act_def n_connects_def n_restarts_def)

lemma exit_shutdown_counts:
  "n_connects (exit_shutdown_mode E s) = n_connects s" "n_restarts (exit_shutdown_mode E s) = n_restarts s + 1"
  "failed_connect_count (exit_shutdown_mode E s) = failed_connect_count s"
  "is_wifi_shutdown (exit_shutdown_mode E s) = is_wifi_shutdown s"
  "connected (exit_shutdown_mode E s) = connected s"
  by (simp_all add: exit_shutdown_mode_def startup_wifi_def wifi_call_def act_def n_connects_def n_restarts_def)

lemma count_fields [simp]:
  "n_connects (s\<lparr>failed_connect_count := n\<rparr>) = n_connects s"
  "n_restarts (s\<lparr>failed_connect_count := n\<rparr>) = n_restarts s"
  by (simp_all add: n_connects_def n_restarts_def)

lemma failed_counts:
  assumes h: "\<forall>n. \<forall>ev\<in>set (w_events E n). hopeless ev" and s: "\<not> connected s" "\<not> is_wifi_shutdown s"
  shows "\<not> connected (connect_failed E s) \<and> \<not> is_wifi_shutdown (connect_failed E s)
    \<and> n_connects (connect_failed E s) = n_connects s
    \<and> n_restarts (connect_failed E s) = n_restarts s + (if failed_connect_count s < 10 then 0 else 1)
    \<and> failed_connect_count (connect_failed E s) = (if failed_connect_count s < 10 then failed_connect_count s + 1 else 0)"
proof -
  define t where "t = nap E WIFI_THREAD_TIMEOUT_SLEEP_MS s"
  have t: "calm s t" unfolding t_def by (rule calm_nap [OF h])
  define v where "v = t\<lparr>failed_connect_count := 0\<rparr>"
  have "calm v (nap E WIFI_NO_NETWORK_SLEEP_MS (enter_shutdown_mode E (wifi_sleep E) v))"
    by (rule calm_trans [OF calm_shutdown [OF h] calm_nap [OF h]])
  then show ?thesis
    using t s by (auto simp: connect_failed_def Let_def calm_def exit_shutdown_counts MAX_FAILED_CONNECT_COUNT_def
        v_def simp flip: t_def)
qed

lemma hopeless_pass:
  assumes h: "\<forall>n. \<forall>ev\<in>set (w_events E n). hopeless ev" and s: "\<not> connected s" "\<not> is_wifi_shutdown s"
  shows "\<not> connected (wifi_pass E s) \<and> \<not> is_wifi_shutdown (wifi_pass E s)
    \<and> n_connects (wifi_pass E s) = n_connects s + 1
    \<and> n_restarts (wifi_pass E s) = n_restarts s + (if failed_connect_count s < 10 then 0 else 1)
    \<and> failed_connect_count (wifi_pass E s) = (if failed_connect_count s < 10 then failed_connect_count s + 1 else 0)"
proof -
  define a where "a = act (Alive CONNECTION_TIMEOUT_MS) (s\<lparr>connect_result := False\<rparr>)"
  define c where "c = snd (wifi_connect E a)"
  define r where "r = poll_connect E poll_count c"
  have a: "calm s a" unfolding a_def by (rule calm_trans [OF calm_fields(2) calm_act]) simp_all
  have r: "calm c r" unfolding r_def by (rule calm_poll [OF h])
  have "\<not> connect_result r" unfolding r_def by (rule poll_clears_result) (simp add: poll_count_def fw_defs)
  moreover have "\<not> connected r" "\<not> is_wifi_shutdown r" "n_connects r = n_connects s + 1"
    "n_restarts r = n_restarts s" "failed_connect_count r = failed_connect_count s"
    using a r s wifi_connect_counts [of E a] by (auto simp: calm_def c_def)
  ultimately show ?thesis
    using failed_counts [OF h, of r] s by (simp add: wifi_pass_def Let_def flip: a_def c_def r_def)
qed

text \<open>
  Further: without an access point the thread never gives up: whatever failures the network reports, every
  pass makes one connection request, every eleventh pass also takes the interface down and up again and
  restarts the count, and the thread neither counts as connected nor stays shut down.
\<close>

theorem wifi_retries_forever:
  assumes "\<forall>n. \<forall>ev\<in>set (w_events E n). hopeless ev"
  shows "n_connects (wifi_run E k) = k \<and> n_restarts (wifi_run E k) = k div 11
    \<and> failed_connect_count (wifi_run E k) = k mod 11
    \<and> \<not> connected (wifi_run E k) \<and> \<not> is_wifi_shutdown (wifi_run E k)"
proof (induction k)
  case 0
  show ?case by (simp add: wifi_run_def wifi_boot_def n_connects_def n_restarts_def)
next
  case (Suc k)
  have "wifi_run E (Suc k) = wifi_pass E (wifi_run E k)" by (simp add: wifi_run_def)
  then show ?case using Suc hopeless_pass [OF assms, of "wifi_run E k"] by (auto simp: div_Suc mod_Suc)
qed

theorem wifi_retries_forever_witness: "n_restarts (wifi_run dead_network 22) = 2"
  using wifi_retries_forever [of dead_network 22] by (simp add: dead_network_def)

end
