(* ===== verification/Network.thy ===== *)
theory Network
  imports Transport WifiThread
begin

text \<open>
  The network side of the application core as one system: the status events of the Wi-Fi thread, the MQTT
  transport and the manager, joined by the event manager. \<open>APP_EVENT_SUBMIT\<close> (events/wifi\_events.c,
  events/transport\_events.c) appends an event to one queue; delivering the first event calls its listeners: a
  Wi-Fi status goes to the transport and to the connectivity monitor, a transport status to the connectivity
  monitor. Everything else interleaves freely. The steps of the transport and the manager are those of their
  theories; a run lists steps with the time since boot in milliseconds.
\<close>

section \<open>The system\<close>

definition status_text :: "wifi_status \<Rightarrow> string" where
  "status_text st =
     (case st of
        WS_connecting \<Rightarrow> ''connecting''
      | WS_connect_failed \<Rightarrow> ''connect failed''
      | WS_connected \<Rightarrow> ''connected''
      | WS_disconnecting \<Rightarrow> ''disconnecting''
      | WS_disconnect_failed \<Rightarrow> ''disconnect failed''
      | WS_disconnected \<Rightarrow> ''disconnected''
      | WS_ip_acquired \<Rightarrow> ''ip acquired'')"

datatype net_msg = Msg_wifi wifi_status | Msg_transport Transport.transport_status

record 'q network =
  net_tr :: "'q transport"
  net_mgr :: manager
  net_events :: "net_msg list"

datatype net_step =
    Wifi_throws wifi_status
  | Transport_does answers transport_step
  | Manager_does manager_event
  | Deliver

text \<open>A restart names its assertion; \<open>Stopped\<close> is an assertion inside the transport or the helper.\<close>

datatype 'q outcome = Running "'q network" | Restart string | Stopped

definition wifi_status_event_throw :: "wifi_status \<Rightarrow> 'q network \<Rightarrow> 'q network" where
  "wifi_status_event_throw st n = n\<lparr>net_events := net_events n @ [Msg_wifi st]\<rparr>"

definition transport_status_event_throw :: "Transport.transport_status list \<Rightarrow> 'q network \<Rightarrow> 'q network" where
  "transport_status_event_throw sts n = n\<lparr>net_events := net_events n @ map Msg_transport sts\<rparr>"

text \<open>The two listeners of the manager and the one of the transport.\<close>

definition told :: "Transport.transport_status \<Rightarrow> Manager.transport_status" where
  "told x = (case x of STATUS_READY \<Rightarrow> TS_ready | STATUS_DISCONNECTED \<Rightarrow> TS_disconnected)"

definition tell_manager :: "(connectivity \<Rightarrow> connectivity) \<Rightarrow> manager \<Rightarrow> manager" where
  "tell_manager f g = g\<lparr>mgr_conn := f (mgr_conn g)\<rparr>"

definition net_deliver :: "nat \<Rightarrow> net_msg \<Rightarrow> 'q network \<Rightarrow> 'q network option" where
  "net_deliver now e n =
     (case e of
        Msg_wifi st \<Rightarrow>
          map_option (\<lambda>t. n\<lparr>net_tr := t,
              net_mgr := tell_manager (manager_connectivity_wifi_event_handler now st) (net_mgr n)\<rparr>)
            (transport_wifi_event_handler (Transport.Wifi_status (status_text st)) (net_tr n))
      | Msg_transport x \<Rightarrow>
          Some (n\<lparr>net_mgr := tell_manager (manager_connectivity_transport_event_handler now (told x)) (net_mgr n)\<rparr>))"

definition net_do :: "'q tenv \<Rightarrow> alloc \<Rightarrow> build_cfg \<Rightarrow> nat \<Rightarrow> net_step \<Rightarrow> 'q network \<Rightarrow> 'q outcome" where
  "net_do E alloc B now ev n =
     (case ev of
        Wifi_throws st \<Rightarrow> Running (wifi_status_event_throw st n)
      | Transport_does a st \<Rightarrow>
          (case transport_do (with_answers (a\<lparr>a_now := int now\<rparr>) E) alloc st (net_tr n) of
             None \<Rightarrow> Stopped
           | Some t \<Rightarrow>
               Running (transport_status_event_throw (drop (length (tr_status (net_tr n))) (tr_status t))
                 (n\<lparr>net_tr := t\<rparr>)))
      | Manager_does mev \<Rightarrow>
          (case manager_step B now mev (net_mgr n) of
             Inl a \<Rightarrow> Restart a
           | Inr None \<Rightarrow> Stopped
           | Inr (Some g) \<Rightarrow> Running (n\<lparr>net_mgr := g\<rparr>))
      | Deliver \<Rightarrow>
          (case net_events n of
             [] \<Rightarrow> Running n
           | e # es \<Rightarrow>
               (case net_deliver now e (n\<lparr>net_events := es\<rparr>) of
                  None \<Rightarrow> Stopped | Some n' \<Rightarrow> Running n')))"

fun net_run :: "'q tenv \<Rightarrow> alloc \<Rightarrow> build_cfg \<Rightarrow> (nat \<times> net_step) list \<Rightarrow> 'q network \<Rightarrow> 'q outcome" where
  "net_run E alloc B [] n = Running n"
| "net_run E alloc B ((now, ev) # es) n =
     (case net_do E alloc B now ev n of Running m \<Rightarrow> net_run E alloc B es m | r \<Rightarrow> r)"

text \<open>The transport thread has run its initialisation; the manager is in any state before that.\<close>

definition net_start :: "'q \<Rightarrow> manager \<Rightarrow> 'q network option" where
  "net_start q0 g =
     map_option (\<lambda>t. \<lparr>net_tr = t, net_mgr = g, net_events = map Msg_transport (tr_status t)\<rparr>)
       (transport_fsm_init (transport_boot q0))"

lemma net_run_append:
  "net_run E alloc B (es @ fs) n =
     (case net_run E alloc B es n of Running m \<Rightarrow> net_run E alloc B fs m | r \<Rightarrow> r)"
  by (induction E alloc B es n rule: net_run.induct) (auto split: outcome.splits)

section \<open>Announcements of the transport\<close>

text \<open>\<open>tr_status\<close> is the record of what the transport threw: a step only appends to it.\<close>

lemma on_mqtt_cb_status [simp]: "tr_status (on_mqtt_cb E c s) = tr_status s"
  by (simp add: on_mqtt_cb_def count_event_def transport_fsm_msg_published_def transport_pub_timer_stop_def Let_def
      split: mqtt_cb.split)

lemma helper_done_status [simp]: "tr_status (helper_done E h s) = tr_status s"
proof -
  have "tr_status (fold (on_mqtt_cb E) cs t) = tr_status t" for cs t by (induction cs arbitrary: t) simp_all
  then show ?thesis by (simp add: helper_done_def)
qed

lemma disconnect_helper_status: "disconnect_helper E s = Some s' \<Longrightarrow> tr_status s' = tr_status s"
  by (auto simp: disconnect_helper_def split: option.splits)

lemma service_queue_status: "service_transport_msg_queue E s = Some s' \<Longrightarrow> tr_status s' = tr_status s"
  by (auto simp: service_transport_msg_queue_def msg_publish_def remove_first_def transport_pub_timer_start_def
      Let_def split: if_splits option.splits prod.splits)

lemma clear_status [simp]: "tr_status (clear_mqtt s) = tr_status s" "tr_status (clear_network s) = tr_status s"
  by (simp_all add: clear_mqtt_def clear_network_def)

context transport_env begin

lemma change_status: "transport_state_change E new s = Some s' \<Longrightarrow> prefix (tr_status s) (tr_status s')"
  by (cases new; cases "fs_current s")
    (auto simp: change state_exit_def state_entry_def network_disconnected_entry_def connecting_to_broker_entry_def
      connected_subscribing_entry_def connected_publishing_entry_def connected_subscribing_exit_def
      connected_publishing_exit_def transport_pub_timer_stop_def throw_status_def split: option.splits)

lemma run_status: "transport_fsm_run E s = Some s' \<Longrightarrow> prefix (tr_status s) (tr_status s')"
proof -
  note c = change_status [of MQTT_NETWORK_DISCONNECTED] change_status [of MQTT_CONNECTING_TO_BROKER]
    change_status [of MQTT_CONNECTED_SUBSCRIBING] change_status [of MQTT_CONNECTED_PUBLISHING]
  have nd: "network_disconnected_run E s = Some s' \<Longrightarrow> prefix (tr_status s) (tr_status s')"
    by (auto simp: network_disconnected_run_def dest: c split: network_events.splits)
  have cb: "connecting_to_broker_run E s = Some s' \<Longrightarrow> prefix (tr_status s) (tr_status s')"
    by (cases "fs_network_event s")
      (fastforce simp: connecting_to_broker_run_def Let_def dest: c split: option.splits mqtt_events.splits
        intro: prefix_order.trans)+
  have cs: "connected_subscribing_run E s = Some s' \<Longrightarrow> prefix (tr_status s) (tr_status s')"
    by (cases "fs_network_event s")
      (fastforce simp: connected_subscribing_run_def Let_def bind_eq_Some_conv
        dest: c disconnect_helper_status split: option.splits mqtt_events.splits intro: prefix_order.trans)+
  have cp: "connected_publishing_run E s = Some s' \<Longrightarrow> prefix (tr_status s) (tr_status s')"
    by (cases "fs_network_event s")
      (fastforce simp: connected_publishing_run_def Let_def bind_eq_Some_conv
        dest: c disconnect_helper_status service_queue_status split: option.splits if_splits prod.splits
        intro: prefix_order.trans)+
  show "transport_fsm_run E s = Some s' \<Longrightarrow> prefix (tr_status s) (tr_status s')"
    using nd cb cs cp by (cases "fs_current s") (auto simp: transport_fsm_run_def state_run_def split: if_splits)
qed

lemma do_status: "transport_do E alloc st s = Some s' \<Longrightarrow> prefix (tr_status s) (tr_status s')"
  by (cases st)
    (auto simp: transport_do_def run_status library_event_def transport_publish_def transport_fsm_timer_expired_def
      remove_first_def transport_pub_timer_stop_def connect_work_fn_def Let_def split_beta subscribe_work_fn_def
      transport_subscribe_def transport_wifi_event_handler_def
      dest: disconnect_helper_status split: option.splits if_splits app_event.splits)

end

section \<open>What the manager knows of the transport\<close>

text \<open>What the manager will hold of the transport once the events submitted so far are delivered.\<close>

definition connected_view :: "net_msg list \<Rightarrow> connectivity \<Rightarrow> bool" where
  "connected_view pend c =
     fold (\<lambda>e b. case e of Msg_transport x \<Rightarrow> x = STATUS_READY | Msg_wifi st \<Rightarrow> b) pend (transport_connected c)"

definition view_inv :: "('q \<Rightarrow> transport_msg list) \<Rightarrow> 'q network \<Rightarrow> bool" where
  "view_inv items n \<longleftrightarrow> tinv items (net_tr n)
     \<and> connected_view (net_events n) (mgr_conn (net_mgr n)) = (last (tr_status (net_tr n)) = STATUS_READY)"

lemma view_announced:
  "connected_view (pend @ map Msg_transport xs) c =
     (if xs = [] then connected_view pend c else last xs = STATUS_READY)"
  by (induction xs rule: rev_induct) (simp_all add: connected_view_def)

lemma view_wifi [simp]:
  "connected_view (pend @ [Msg_wifi st]) c = connected_view pend c"
  "connected_view (Msg_wifi st # pend) c = connected_view pend c"
  by (simp_all add: connected_view_def)

lemma wifi_handler_transport [simp]:
  "transport_connected (manager_connectivity_wifi_event_handler now st c) = transport_connected c"
  by (simp add: manager_connectivity_wifi_event_handler_def split: wifi_status.split)

lemma view_delivered:
  "connected_view pend (manager_connectivity_transport_event_handler now (told x) c) = connected_view (Msg_transport x # pend) c"
  "connected_view pend (manager_connectivity_wifi_event_handler now st c) = connected_view pend c"
  by (cases x; simp add: connected_view_def manager_connectivity_transport_event_handler_def told_def)
    (simp add: connected_view_def)

text \<open>The manager's own steps: loop passes, check-ins and the start of the Wi-Fi threads.\<close>

fun own_step :: "manager_event \<Rightarrow> bool" where
  "own_step (Manager.Wifi_status st) = False"
| "own_step (Manager.Transport_status st) = False"
| "own_step _ = True"

lemma own_step_conn:
  "own_step ev \<Longrightarrow> manager_step B now ev g = Inr (Some g') \<Longrightarrow> mgr_conn g' = mgr_conn g"
  by (cases ev)
    (auto simp: manager_step_def start_wifi_thread_def bind_eq_Some_conv split: option.splits dest!: start_thread_conn)

fun net_own :: "nat \<times> net_step \<Rightarrow> bool" where
  "net_own (now, Manager_does ev) = own_step ev"
| "net_own _ = True"

lemma wifi_event_tinv:
  "tinv items s \<Longrightarrow> transport_wifi_event_handler ev s = Some s' \<Longrightarrow> tinv items s' \<and> tr_status s' = tr_status s"
  by (cases ev) (auto simp: transport_wifi_event_handler_def tinv_def split: if_splits)

lemma view_step:
  assumes ok: "msgq_ok (e_ops E) cap items" "alloc_ok alloc" "smf_ok (e_smf E)"
    and n: "view_inv items n" and own: "net_own (now, ev)" and r: "net_do E alloc B now ev n = Running n'"
  shows "view_inv items n'"
proof (cases ev)
  case (Wifi_throws st)
  then show ?thesis using n r by (auto simp: net_do_def wifi_status_event_throw_def view_inv_def)
next
  case (Transport_does a st)
  let ?E = "with_answers (a\<lparr>a_now := int now\<rparr>) E"
  note te = transport_env_answers [OF ok, of "a\<lparr>a_now := int now\<rparr>"]
  obtain t where t: "transport_do ?E alloc st (net_tr n) = Some t"
    "n' = transport_status_event_throw (drop (length (tr_status (net_tr n))) (tr_status t)) (n\<lparr>net_tr := t\<rparr>)"
    using r Transport_does by (auto simp: net_do_def split: option.splits)
  obtain d where d: "tr_status t = tr_status (net_tr n) @ d" using transport_env.do_status [OF te t(1)] by (auto simp: prefix_def)
  have "tinv items t" using transport_env.transport_do_inv [OF te _ t(1)] n by (simp add: view_inv_def)
  then show ?thesis using n by (auto simp: view_inv_def t(2) transport_status_event_throw_def d view_announced)
next
  case (Manager_does mev)
  then show ?thesis using n r own own_step_conn [of mev B now "net_mgr n"]
    by (auto simp: net_do_def view_inv_def split: sum.splits option.splits)
next
  case Deliver
  then show ?thesis using n r wifi_event_tinv [of items "net_tr n"]
    by (cases "net_events n")
      (fastforce simp: net_do_def net_deliver_def view_inv_def tell_manager_def view_delivered
        split: net_msg.splits option.splits)+
qed

lemma view_run:
  assumes ok: "msgq_ok (e_ops E) cap items" "alloc_ok alloc" "smf_ok (e_smf E)"
  shows "view_inv items n \<Longrightarrow> list_all net_own es \<Longrightarrow> net_run E alloc B es n = Running n' \<Longrightarrow> view_inv items n'"
proof (induction es arbitrary: n)
  case (Cons e es)
  obtain now ev where e: "e = (now, ev)" by (cases e)
  obtain m where "net_do E alloc B now ev n = Running m" "net_run E alloc B es m = Running n'"
    using Cons.prems(3) e by (auto split: outcome.splits)
  then show ?case using Cons view_step [OF ok, of n now ev B m] e by auto
qed simp

lemma view_start:
  assumes "items q0 = []" and "net_start q0 g = Some n"
  shows "view_inv items n"
proof -
  obtain t where t: "transport_fsm_init (transport_boot q0) = Some t"
    and n: "n = \<lparr>net_tr = t, net_mgr = g, net_events = map Msg_transport (tr_status t)\<rparr>"
    using assms(2) by (auto simp: net_start_def)
  have "tinv items t \<and> tr_status t = [STATUS_DISCONNECTED]" using assms(1) t
    by (auto simp: transport_fsm_init_def network_disconnected_entry_def transport_boot_def
        throw_status_def transport_pub_timer_stop_def tinv_def heap_ok_def)
  then show ?thesis by (simp add: n view_inv_def connected_view_def)
qed

text \<open>
  C18: the manager's view of the transport is exact. In every run of the system, whatever Wi-Fi reports, the
  library answers and in whatever order steps interleave, once the submitted events are delivered the manager
  counts the transport as connected exactly when its state machine is in the publishing state; while events
  are pending, the same holds of the view they will leave behind.
\<close>

theorem manager_view_exact:
  assumes "msgq_ok (e_ops E) cap items" and "alloc_ok alloc" and "smf_ok (e_smf E)" and "items q0 = []"
    and "net_start q0 g = Some n0" and "list_all net_own es" and "net_run E alloc B es n0 = Running n"
  shows "connected_view (net_events n) (mgr_conn (net_mgr n)) = transport_state_ready (net_tr n)
    \<and> (net_events n = [] \<longrightarrow> transport_connected (mgr_conn (net_mgr n)) = transport_state_ready (net_tr n))"
proof -
  have "view_inv items n"
    using view_run [OF assms(1-3) view_start [of items, OF assms(4,5)] assms(6,7)] .
  then have "connected_view (net_events n) (mgr_conn (net_mgr n)) = transport_state_ready (net_tr n)"
    by (auto simp: view_inv_def tinv_def transport_state_ready_def)
  then show ?thesis by (auto simp: connected_view_def)
qed

section \<open>A broker that does not accept\<close>

text \<open>No accepting CONNACK is among the events of the library.\<close>

definition no_connack :: "mqtt_evt list \<Rightarrow> bool" where
  "no_connack es \<longleftrightarrow> EVT_CONNACK True \<notin> set es"

definition no_accept :: "mqtt_helper \<Rightarrow> mqtt_helper \<Rightarrow> bool" where
  "no_accept h h' \<longleftrightarrow> (\<exists>cs. mh_cbs h' = mh_cbs h @ cs \<and> Cb_connack True \<notin> set cs)"

lemma no_accept_refl [simp]: "no_accept h h"
  by (simp add: no_accept_def)

lemma no_accept_trans: "no_accept h h1 \<Longrightarrow> no_accept h1 h2 \<Longrightarrow> no_accept h h2"
  by (auto simp: no_accept_def)

lemma no_accept_state: "mqtt_state_set st h = Some h' \<Longrightarrow> no_accept h h'"
  by (auto simp: mqtt_state_set_def no_accept_def split: if_splits)

lemma no_accept_call: "no_accept h (mh_call c h)"
  by (simp add: no_accept_def mh_call_def)

lemma no_accept_cb: "c \<noteq> Cb_connack True \<Longrightarrow> no_accept h (mh_cb c h)"
  by (simp add: no_accept_def mh_cb_def)

lemma no_accept_evt: "mqtt_evt_handler b e h = Some h' \<Longrightarrow> e \<noteq> EVT_CONNACK True \<Longrightarrow> no_accept h h'"
  by (cases e)
    (auto simp: mqtt_evt_handler_def on_publish_def intro!: no_accept_cb
      intro: no_accept_trans [OF no_accept_state no_accept_cb] no_accept_trans [OF no_accept_call no_accept_cb])

lemma no_accept_evts: "mqtt_evts b es h = Some h' \<Longrightarrow> no_connack es \<Longrightarrow> no_accept h h'"
proof (induction es arbitrary: h)
  case (Cons e es)
  then obtain h1 where "mqtt_evt_handler b e h = Some h1" "mqtt_evts b es h1 = Some h'"
    by (auto simp: bind_eq_Some_conv)
  then show ?case using Cons no_accept_trans [OF no_accept_evt] by (auto simp: no_connack_def)
qed simp

lemma no_accept_broker: "no_accept h (snd (broker_init addrs h))"
  by (auto simp: broker_init_def no_accept_def split: sum.split list.split)

lemma no_accept_connect:
  assumes "mqtt_helper_connect b addrs r evts h = Some (err, h')" and "no_connack evts"
  shows "no_accept h h'"
proof -
  have c: "no_accept h h1" if "client_connect b addrs r evts h = Some (e, h1)" for e h1
    using that no_accept_broker [of h addrs]
    by (fastforce simp: client_connect_def split_beta split: if_splits option.splits
        dest: no_accept_state no_accept_evts [OF _ assms(2)] intro: no_accept_trans no_accept_call)
  show ?thesis using assms(1)
    by (auto simp: mqtt_helper_connect_def no_accept_def split: if_splits option.splits
        dest!: c no_accept_state)
qed

lemma no_accept_disconnect:
  assumes "mqtt_helper_disconnect b r evts h = Some (err, h')" and "no_connack evts"
  shows "no_accept h h'"
proof (cases "mh_state h = MQTT_STATE_CONNECTED")
  case True
  then obtain h1 h2 where h1: "mqtt_state_set MQTT_STATE_DISCONNECTING h = Some h1"
    and h2: "mqtt_evts b evts (mh_call Mqtt_disconnect h1) = Some h2"
    and h': "h' = h2 \<or> (\<exists>h3. mqtt_state_set MQTT_STATE_DISCONNECTED h2 = Some h3 \<and> h' = mh_cb (Cb_disconnect r) h3)"
    using assms(1) by (auto simp: mqtt_helper_disconnect_def split: if_splits option.splits)
  have "no_accept h h2"
    using no_accept_trans [OF no_accept_state [OF h1] no_accept_trans [OF no_accept_call no_accept_evts [OF h2 assms(2)]]] .
  moreover have "no_accept h2 h'"
    using h' no_accept_trans [OF no_accept_state no_accept_cb [of "Cb_disconnect r"]] by auto
  ultimately show ?thesis by (rule no_accept_trans)
qed (use assms(1) in \<open>simp add: mqtt_helper_disconnect_def\<close>)

text \<open>Connecting, with no network event and no accepted connection to notice, as the manager knows it since \<open>t0\<close>.\<close>

definition not_accepted :: "'q transport \<Rightarrow> bool" where
  "not_accepted s \<longleftrightarrow> fs_current s = MQTT_CONNECTING_TO_BROKER \<and> fs_network_event s = NETWORK_NO_EVENT
     \<and> fs_mqtt_event s \<noteq> MQTT_BROKER_CONNECT_TO_BROKER_SUCCESS"

definition waits :: "'q transport \<Rightarrow> 'q transport \<Rightarrow> bool" where
  "waits s s' \<longleftrightarrow> (not_accepted s \<longrightarrow> not_accepted s') \<and> tr_status s' = tr_status s"

lemma waits_refl [simp]: "waits s s"
  by (simp add: waits_def)

lemma waits_trans: "waits s t \<Longrightarrow> waits t u \<Longrightarrow> waits s u"
  by (simp add: waits_def)

lemma waits_fields [simp]:
  "waits s (s\<lparr>connect_work := w\<rparr>)" "waits s (s\<lparr>tr_helper := h\<rparr>)" "waits s (s\<lparr>tr_queue := q\<rparr>)"
  "waits s (s\<lparr>subscribe_work := w\<rparr>)" "waits s (s\<lparr>pub_timer := b\<rparr>)" "waits s (s\<lparr>fs_last_message_id := i\<rparr>)"
  by (simp_all add: waits_def not_accepted_def)

lemma waits_cb: "c \<noteq> Cb_connack True \<Longrightarrow> waits s (on_mqtt_cb E c s)"
  by (auto simp: waits_def not_accepted_def on_mqtt_cb_def count_event_def transport_fsm_msg_published_def
      transport_pub_timer_stop_def Let_def split: mqtt_cb.split)

lemma waits_helper:
  assumes "no_accept (tr_helper s) h"
  shows "waits s (helper_done E h s)"
proof -
  obtain cs where cs: "mh_cbs h = mh_cbs (tr_helper s) @ cs" "Cb_connack True \<notin> set cs"
    using assms by (auto simp: no_accept_def)
  have "waits t (fold (on_mqtt_cb E) cs t)" for t
    using cs(2)
  proof (induction cs arbitrary: t)
    case (Cons c cs)
    then show ?case using waits_trans [OF waits_cb [of c t E], of "fold (on_mqtt_cb E) cs (on_mqtt_cb E c t)"] by auto
  qed simp
  from waits_trans [OF waits_fields(2) this] show ?thesis by (simp add: helper_done_def cs(1))
qed

lemma waits_disconnect:
  "disconnect_helper E s = Some s' \<Longrightarrow> no_connack (e_disc_evts E) \<Longrightarrow> waits s s'"
  by (auto simp: disconnect_helper_def intro!: waits_helper no_accept_disconnect split: option.splits)

lemma waits_connect:
  assumes "connect_work_fn E addrs r evts s = Some s'" and "no_connack evts" "no_connack (e_disc_evts E)"
  shows "waits s s'"
proof -
  obtain err h where h: "mqtt_helper_connect (e_buflen E) addrs r evts (tr_helper s) = Some (err, h)"
    using assms(1) by (auto simp: connect_work_fn_def split: option.splits)
  let ?s1 = "helper_done E h (s\<lparr>connect_work := None\<rparr>)"
  have 1: "waits s ?s1"
    using waits_trans [OF waits_fields(1) waits_helper] no_accept_connect [OF h assms(2)] by simp
  obtain s2 where s2: "(if err = - EOPNOTSUPP then disconnect_helper E ?s1 else Some ?s1) = Some s2"
    "s' = s2\<lparr>connect_work := Some RECONNECTION_TIMEOUT_SECONDS\<rparr>"
    using assms(1) h by (auto simp: connect_work_fn_def Let_def)
  have "waits ?s1 s2" using s2(1) waits_disconnect [OF _ assms(3)] by (auto split: if_splits)
  then show ?thesis using 1 s2(2) waits_trans waits_fields(1) by metis
qed

lemma waits_run: "not_accepted s \<Longrightarrow> transport_fsm_run E s = Some s' \<Longrightarrow> waits s s'"
  by (cases "fs_mqtt_event s")
    (auto simp: waits_def not_accepted_def transport_fsm_run_def state_run_def connecting_to_broker_run_def
      clear_network_def clear_mqtt_def Let_def split: if_splits)

fun silent :: "transport_step \<Rightarrow> bool" where
  "silent (Step_library e) = (e \<noteq> EVT_CONNACK True)"
| "silent (Step_connect addrs r evts) = no_connack evts"
| "silent (Step_app ev) = False"
| "silent _ = True"

lemma waits_do:
  assumes s: "not_accepted s" and t: "transport_do E alloc st s = Some s'"
    and q: "silent st" "no_connack (e_disc_evts E)"
  shows "not_accepted s' \<and> tr_status s' = tr_status s"
proof -
  have "waits s s'"
  proof (cases st)
    case (Step_library e)
    then show ?thesis using t q(1)
      by (auto simp: transport_do_def library_event_def intro!: waits_helper no_accept_evt split: option.splits)
  next
    case (Step_publish topic payload qos)
    then show ?thesis using t s
      by (auto simp: transport_do_def transport_publish_def transport_state_ready_def not_accepted_def split: option.splits)
  next
    case Step_timer
    then show ?thesis using t waits_trans [OF waits_fields(5) waits_fields(3)]
      by (auto simp: transport_do_def transport_fsm_timer_expired_def remove_first_def transport_pub_timer_stop_def
          split: if_splits)
  next
    case (Step_connect addrs r evts)
    then show ?thesis using t q waits_connect [of E addrs r evts s s'] by (auto simp: transport_do_def split: if_splits)
  next
    case (Step_subscribe topics mid r)
    then show ?thesis using t
      by (auto simp: transport_do_def subscribe_work_fn_def transport_subscribe_def split_beta Let_def waits_def not_accepted_def
          split: if_splits)
  qed (use q t waits_run [OF s] in \<open>auto simp: transport_do_def\<close>)
  then show ?thesis using s by (simp add: waits_def)
qed

text \<open>A stretch of steps in which Wi-Fi reports nothing and no broker accepts the connection.\<close>

fun unanswered :: "nat \<times> net_step \<Rightarrow> bool" where
  "unanswered (now, Wifi_throws st) = False"
| "unanswered (now, Transport_does a st) = (silent st \<and> no_connack (a_disc_evts a))"
| "unanswered (now, Manager_does ev) = own_step ev"
| "unanswered (now, Deliver) = True"

text \<open>The manager counts since \<open>t0\<close>; \<open>tm\<close> is its configured time.\<close>

definition counting :: "nat \<Rightarrow> int \<Rightarrow> 'q network \<Rightarrow> bool" where
  "counting t0 tm n \<longleftrightarrow> not_accepted (net_tr n) \<and> net_events n = []
     \<and> wifi_connected (mgr_conn (net_mgr n)) \<and> \<not> transport_connected (mgr_conn (net_mgr n))
     \<and> transport_disconnect_ts (mgr_conn (net_mgr n)) = t0 \<and> mqtt_to_ms (mgr_conn (net_mgr n)) = tm"

lemma counting_step:
  assumes n: "counting t0 tm n" and u: "unanswered (now, ev)" and r: "net_do E alloc B now ev n = Running n'"
  shows "counting t0 tm n'"
proof (cases ev)
  case (Transport_does a st)
  then obtain t where t: "transport_do (with_answers (a\<lparr>a_now := int now\<rparr>) E) alloc st (net_tr n) = Some t"
    "n' = transport_status_event_throw (drop (length (tr_status (net_tr n))) (tr_status t)) (n\<lparr>net_tr := t\<rparr>)"
    using r by (auto simp: net_do_def split: option.splits)
  have "not_accepted t \<and> tr_status t = tr_status (net_tr n)"
    by (rule waits_do [OF _ t(1)]) (use n u Transport_does in \<open>simp_all add: counting_def with_answers_def\<close>)
  then show ?thesis using n by (simp add: counting_def t(2) transport_status_event_throw_def)
next
  case (Manager_does mev)
  then show ?thesis using n u r own_step_conn [of mev B now "net_mgr n"]
    by (auto simp: net_do_def counting_def split: sum.splits option.splits)
qed (use assms in \<open>auto simp: net_do_def counting_def\<close>)

lemma counting_run:
  "counting t0 tm n \<Longrightarrow> list_all unanswered es \<Longrightarrow> net_run E alloc B es n = Running n' \<Longrightarrow> counting t0 tm n'"
proof (induction es arbitrary: n)
  case (Cons e es)
  obtain now ev where e: "e = (now, ev)" by (cases e)
  obtain m where "net_do E alloc B now ev n = Running m" "net_run E alloc B es m = Running n'"
    using Cons.prems(3) e by (auto split: outcome.splits)
  then show ?case using Cons counting_step [of t0 tm n now ev E alloc B m] e by auto
qed simp

lemma counting_expires:
  assumes n: "counting t0 tm n" and now: "0 < tm" "int t0 + tm < int now" "int now < 2 ^ 63"
  shows "\<exists>a. net_do E alloc B now (Manager_does Loop_pass) n = Restart a"
proof -
  have "(int now - int t0) mod 2 ^ 64 = int now - int t0" "tm mod 2 ^ 64 = tm" using now by simp_all
  then have "for_longer now t0 tm" using now by (simp add: for_longer_def)
  then have "manager_connectivity_monitor now (mgr_conn (net_mgr n)) = Some ''transport timeout''"
    using n now by (simp add: counting_def manager_connectivity_monitor_def)
  then show ?thesis by (auto simp: net_do_def manager_step_def split: option.split)
qed

text \<open>
  The network comes back: the Wi-Fi thread reports an address, the event is delivered, the transport thread
  makes a pass, and its announcement is delivered.
\<close>

definition ip_arrives :: "nat \<Rightarrow> nat \<Rightarrow> nat \<Rightarrow> nat \<Rightarrow> answers \<Rightarrow> (nat \<times> net_step) list" where
  "ip_arrives t1 t2 t3 t4 a =
     [(t1, Wifi_throws WS_ip_acquired), (t2, Deliver), (t3, Transport_does a Step_run), (t4, Deliver)]"

definition offline :: "'q network \<Rightarrow> bool" where
  "offline n \<longleftrightarrow> fs_current (net_tr n) = MQTT_NETWORK_DISCONNECTED \<and> is_mqtt_active (net_tr n)
     \<and> fs_mqtt_event (net_tr n) \<noteq> MQTT_BROKER_CONNECT_TO_BROKER_SUCCESS \<and> net_events n = []"

lemma ip_arrives_run:
  assumes ok: "msgq_ok (e_ops E) cap items" "alloc_ok alloc" "smf_ok (e_smf E)"
    and n: "heap_ok items (tr_queue (net_tr n))" "offline n"
  shows "\<exists>m. net_run E alloc B (ip_arrives t1 t2 t3 t4 a) n = Running m
     \<and> counting t4 (mqtt_to_ms (mgr_conn (net_mgr n))) m \<and> connect_work (net_tr m) \<noteq> None
     \<and> is_mqtt_active (net_tr m) \<and> tr_helper (net_tr m) = tr_helper (net_tr n)
     \<and> heap_ok items (tr_queue (net_tr m))"
proof -
  let ?E = "with_answers (a\<lparr>a_now := int t3\<rparr>) E"
  let ?s = "net_tr n\<lparr>fs_network_event := NETWORK_CONNECTED_WITH_IP\<rparr>"
  obtain q where q: "transport_state_change ?E MQTT_CONNECTING_TO_BROKER ?s =
      Some (?s\<lparr>fs_current := MQTT_CONNECTING_TO_BROKER, connect_work := Some CONNECT_TO_BROKER_DELAY_SECS,
             subscribe_work := None, pub_timer := False, tr_queue := q,
             tr_status := tr_status ?s @ [STATUS_DISCONNECTED]\<rparr>)" "heap_ok items q"
    using transport_env.to_connecting [OF transport_env_answers [OF ok], of ?s "a\<lparr>a_now := int t3\<rparr>"] n(1) by auto
  then show ?thesis using n(2)
    by (auto simp: ip_arrives_def net_do_def wifi_status_event_throw_def net_deliver_def offline_def status_text_def
        transport_wifi_event_handler_def transport_do_def transport_fsm_run_def state_run_def network_disconnected_run_def
        clear_network_def transport_status_event_throw_def told_def tell_manager_def counting_def not_accepted_def
        manager_connectivity_wifi_event_handler_def manager_connectivity_transport_event_handler_def)
qed


section \<open>Reconnection\<close>

text \<open>
  What an accepting broker answers: the connect work finds an address and the socket opens, the CONNACK
  arrives, the thread makes a pass, the subscribe work is accepted, its acknowledgement arrives, the thread
  makes a pass and its announcement is delivered.
\<close>

definition broker_accepts :: "(nat \<Rightarrow> nat) \<Rightarrow> answers \<Rightarrow> nat \<Rightarrow> string list \<Rightarrow> nat \<Rightarrow> (nat \<times> net_step) list" where
  "broker_accepts t a addr topics mid =
     [(t 0, Transport_does a (Step_connect (Inr [(True, addr)]) 0 [])),
      (t 1, Transport_does a (Step_library (EVT_CONNACK True))),
      (t 2, Transport_does a Step_run),
      (t 3, Transport_does a (Step_subscribe topics mid 0)),
      (t 4, Transport_does a (Step_library (EVT_SUBACK mid 0))),
      (t 5, Transport_does a Step_run),
      (t 6, Deliver)]"

definition online :: "nat \<Rightarrow> 'q network \<Rightarrow> bool" where
  "online addr n \<longleftrightarrow> transport_state_ready (net_tr n) \<and> net_events n = []
     \<and> mh_state (tr_helper (net_tr n)) = MQTT_STATE_CONNECTED \<and> mh_broker (tr_helper (net_tr n)) = Some addr
     \<and> wifi_connected (mgr_conn (net_mgr n)) \<and> transport_connected (mgr_conn (net_mgr n))"

definition helper_idle :: "mqtt_helper \<Rightarrow> bool" where
  "helper_idle h \<longleftrightarrow> mh_state h = MQTT_STATE_DISCONNECTED \<and> mh_cfg h"

definition phase :: "module_state \<Rightarrow> mqtt_state \<Rightarrow> nat \<Rightarrow> 'q transport \<Rightarrow> bool" where
  "phase st ms addr s \<longleftrightarrow> fs_current s = st \<and> fs_network_event s = NETWORK_NO_EVENT \<and> is_mqtt_active s
     \<and> mh_state (tr_helper s) = ms \<and> mh_broker (tr_helper s) = Some addr \<and> mh_cfg (tr_helper s)"

definition leads_to :: "'q transport option \<Rightarrow> Transport.transport_status list \<Rightarrow> 'q transport \<Rightarrow> ('q transport \<Rightarrow> bool) \<Rightarrow> bool" where
  "leads_to r sts s P \<longleftrightarrow> (\<exists>s'. r = Some s' \<and> P s' \<and> tr_status s' = tr_status s @ sts)"

lemma connects:
  "not_accepted s \<Longrightarrow> is_mqtt_active s \<Longrightarrow> helper_idle (tr_helper s) \<Longrightarrow> connect_work s \<noteq> None \<Longrightarrow>
   leads_to (transport_do E alloc (Step_connect (Inr [(True, addr)]) 0 []) s) [] s
     (phase MQTT_CONNECTING_TO_BROKER MQTT_STATE_CONNECTING addr)"
  using connect_from_disconnected [of "tr_helper s" "e_buflen E" addr]
  by (auto simp: transport_do_def connect_work_fn_def helper_done_def helper_idle_def mh_call_def fw_defs phase_def
      leads_to_def not_accepted_def)

lemma acknowledged:
  "phase MQTT_CONNECTING_TO_BROKER MQTT_STATE_CONNECTING addr s \<Longrightarrow>
   leads_to (transport_do E alloc (Step_library (EVT_CONNACK True)) s) [] s
     (\<lambda>s'. phase MQTT_CONNECTING_TO_BROKER MQTT_STATE_CONNECTED addr s'
         \<and> fs_mqtt_event s' = MQTT_BROKER_CONNECT_TO_BROKER_SUCCESS)"
  by (simp add: transport_do_def library_event_def mqtt_evt_handler_def mqtt_state_set_def legal_transition_def mh_cb_def
      helper_done_def on_mqtt_cb_def count_event_def Let_def phase_def leads_to_def)

lemma subscribed:
  "phase MQTT_CONNECTED_SUBSCRIBING MQTT_STATE_CONNECTED addr s \<and> subscribe_work s = Some w \<Longrightarrow>
   leads_to (transport_do E alloc (Step_subscribe topics mid 0) s) [] s
     (\<lambda>s'. phase MQTT_CONNECTED_SUBSCRIBING MQTT_STATE_CONNECTED addr s' \<and> fs_last_message_id s' = mid)"
  by (simp add: transport_do_def subscribe_work_fn_def transport_subscribe_def mqtt_helper_subscribe_def mh_call_def
      phase_def leads_to_def)

lemma suback:
  "phase MQTT_CONNECTED_SUBSCRIBING MQTT_STATE_CONNECTED addr s \<and> fs_last_message_id s = mid \<Longrightarrow>
   leads_to (transport_do E alloc (Step_library (EVT_SUBACK mid 0)) s) [] s
     (\<lambda>s'. phase MQTT_CONNECTED_SUBSCRIBING MQTT_STATE_CONNECTED addr s'
         \<and> fs_mqtt_event s' = MQTT_BROKER_SUBSCRIBE_ACK)"
  by (auto simp: transport_do_def library_event_def mqtt_evt_handler_def mh_cb_def
      helper_done_def on_mqtt_cb_def count_event_def Let_def phase_def leads_to_def)

context transport_env begin

lemma subscribing_pass:
  "phase MQTT_CONNECTING_TO_BROKER ms addr s \<and> fs_mqtt_event s = MQTT_BROKER_CONNECT_TO_BROKER_SUCCESS \<Longrightarrow>
   leads_to (transport_do E alloc Step_run s) [] s
     (\<lambda>s'. phase MQTT_CONNECTED_SUBSCRIBING ms addr s' \<and> subscribe_work s' = Some 5)"
  by (simp add: transport_do_def transport_fsm_run_def state_run_def connecting_to_broker_run_def clear_network_def
      clear_mqtt_def to_subscribing phase_def leads_to_def)

lemma publishing_pass:
  "phase MQTT_CONNECTED_SUBSCRIBING ms addr s \<and> fs_mqtt_event s = MQTT_BROKER_SUBSCRIBE_ACK \<Longrightarrow>
   leads_to (transport_do E alloc Step_run s) [STATUS_READY] s (phase MQTT_CONNECTED_PUBLISHING ms addr)"
  by (simp add: transport_do_def transport_fsm_run_def state_run_def connected_subscribing_run_def clear_network_def
      clear_mqtt_def to_publishing phase_def leads_to_def)

end

text \<open>One transport step of a run, by what it makes of the transport.\<close>

lemma net_run_leads:
  assumes "leads_to (transport_do (with_answers (a\<lparr>a_now := int now\<rparr>) E) alloc st (net_tr n)) sts (net_tr n) P"
    and "\<And>s'. P s' \<Longrightarrow> Q (net_run E alloc B es (n\<lparr>net_tr := s', net_events := net_events n @ map Msg_transport sts\<rparr>))"
  shows "Q (net_run E alloc B ((now, Transport_does a st) # es) n)"
proof -
  obtain s' where "transport_do (with_answers (a\<lparr>a_now := int now\<rparr>) E) alloc st (net_tr n) = Some s'" "P s'"
    "tr_status s' = tr_status (net_tr n) @ sts" using assms(1) by (auto simp: leads_to_def)
  then show ?thesis using assms(2) [of s'] by (simp add: net_do_def transport_status_event_throw_def)
qed

lemma broker_accepts_run:
  assumes ok: "msgq_ok (e_ops E) cap items" "alloc_ok alloc" "smf_ok (e_smf E)"
    and n: "counting t0 tm n" "connect_work (net_tr n) \<noteq> None" "is_mqtt_active (net_tr n)"
      "helper_idle (tr_helper (net_tr n))"
  shows "\<exists>m. net_run E alloc B (broker_accepts t a addr topics mid) n = Running m \<and> online addr m"
proof -
  note env = transport_env_answers [OF ok]
  have c: "not_accepted (net_tr n)" using n(1) by (simp add: counting_def)
  show ?thesis unfolding broker_accepts_def
    apply (rule net_run_leads [OF connects [OF c n(3,4,2)]])
    apply (rule net_run_leads, simp, erule acknowledged)
    apply (rule net_run_leads, simp, erule transport_env.subscribing_pass [OF env])
    apply (rule net_run_leads, simp, erule subscribed)
    apply (rule net_run_leads, simp, erule suback)
    apply (rule net_run_leads, simp, erule transport_env.publishing_pass [OF env])
    using n(1) apply (simp add: net_do_def net_deliver_def told_def tell_manager_def phase_def
        manager_connectivity_transport_event_handler_def online_def transport_state_ready_def counting_def)
    done
qed

lemma reconnects:
  assumes ok: "msgq_ok (e_ops E) cap items" "alloc_ok alloc" "smf_ok (e_smf E)" "items q0 = []"
    and reach: "net_start q0 g = Some n0" "list_all net_own es" "net_run E alloc B es n0 = Running n"
    and n: "offline n" "helper_idle (tr_helper (net_tr n))"
  shows "\<exists>m. net_run E alloc B (ip_arrives t1 t2 t3 t4 a @ broker_accepts t b addr topics mid) n = Running m
     \<and> online addr m \<and> (\<forall>now. manager_connectivity_monitor now (mgr_conn (net_mgr m)) = None)"
proof -
  have "view_inv items n" using view_run [OF ok(1-3) view_start [of items, OF ok(4) reach(1)] reach(2,3)] .
  then have "heap_ok items (tr_queue (net_tr n))" by (simp add: view_inv_def tinv_def)
  from ip_arrives_run [OF ok(1-3) this n(1)] obtain k where
    k: "net_run E alloc B (ip_arrives t1 t2 t3 t4 a) n = Running k" "counting t4 (mqtt_to_ms (mgr_conn (net_mgr n))) k"
      "connect_work (net_tr k) \<noteq> None" "is_mqtt_active (net_tr k)" "tr_helper (net_tr k) = tr_helper (net_tr n)"
    by blast
  obtain m where "net_run E alloc B (broker_accepts t b addr topics mid) k = Running m" "online addr m"
    using broker_accepts_run [OF ok(1-3) k(2-4)] n(2) k(5) by metis
  then show ?thesis using k(1) by (auto simp: net_run_append online_def manager_connectivity_monitor_def)
qed

text \<open>
  Further: the device reconnects. Take any reachable state without network whose helper is idle: when an address
  arrives and the broker accepts the connection and the subscriptions, the transport ends in the publishing
  state on that broker, the manager counts Wi-Fi and transport as connected, and its connectivity check
  passes at every later time.
\<close>

theorem network_reconnects:
  assumes ok: "msgq_ok (e_ops E) cap items" "alloc_ok alloc" "smf_ok (e_smf E)" "items q0 = []"
    and reach: "net_start q0 g = Some n0" "list_all net_own es" "net_run E alloc B es n0 = Running n"
    and n: "offline n" "helper_idle (tr_helper (net_tr n))"
  shows "\<exists>m. net_run E alloc B (ip_arrives t1 t2 t3 t4 a @ broker_accepts t b addr topics mid) n = Running m
     \<and> online addr m \<and> (\<forall>now. manager_connectivity_monitor now (mgr_conn (net_mgr m)) = None)"
  using ok reach n by (rule reconnects)

text \<open>A device just started.\<close>

lemma sample_network:
  "\<exists>n0 n. net_start [] running_manager = Some n0 \<and> net_run env0 first_free head_build [(1, Deliver)] n0 = Running n
     \<and> offline n \<and> helper_idle (tr_helper (net_tr n)) \<and> mqtt_to_ms (mgr_conn (net_mgr n)) = 300000"
  by (simp add: net_start_def transport_fsm_init_def network_disconnected_entry_def transport_boot_def throw_status_def
      transport_pub_timer_stop_def net_do_def net_deliver_def told_def tell_manager_def offline_def helper_idle_def
      mh_boot_def manager_connectivity_transport_event_handler_def running_manager_def connectivity_init_defs)

theorem network_reconnects_witness:
  "\<exists>n m. net_run env0 first_free head_build
       (ip_arrives 2 3 4 5 run_answers @ broker_accepts (\<lambda>i. 10000 + i) run_answers 42 [''cmd''] 7) n = Running m
     \<and> offline n \<and> online 42 m"
proof -
  obtain n0 n where n: "net_start [] running_manager = Some n0"
    "net_run env0 first_free head_build [(1, Deliver)] n0 = Running n" "offline n" "helper_idle (tr_helper (net_tr n))"
    using sample_network by blast
  have "list_all net_own [(1 :: nat, Deliver)]" by simp
  from network_reconnects [OF env0_ok(1) first_free_ok env0_ok(2), of "[]", OF refl n(1) this n(2-4)] n(3)
  show ?thesis by blast
qed

theorem manager_view_exact_witness:
  "\<exists>n. net_run env0 first_free head_build [(1, Deliver)] (the (net_start [] running_manager)) = Running n
     \<and> net_events n = [] \<and> transport_connected (mgr_conn (net_mgr n)) = transport_state_ready (net_tr n)"
proof -
  obtain n0 n where n: "net_start [] running_manager = Some n0"
    "net_run env0 first_free head_build [(1, Deliver)] n0 = Running n" "offline n"
    using sample_network by blast
  have "list_all net_own [(1 :: nat, Deliver)]" by simp
  from manager_view_exact [OF env0_ok(1) first_free_ok env0_ok(2), of "[]", OF refl n(1) this n(2)] n
  show ?thesis by (auto simp: offline_def)
qed


end
