(* ===== verification/Publishers.thy ===== *)
theory Publishers
  imports MqttCmds CrashRecord
begin

text \<open>
  What the publishers of the table send: src/services/publisher/*\_pub.c, data/mqtt/*\_pub\_mqtt.c and
  data/json/*\_pub\_json.c, with the sources of their fields: reset\_cause.c and time\_sync.c. The JSON
  library, the hardware registers, the calendar functions, the heap and the sockets are parameters.
  \<open>None\<close> is undefined behaviour.
\<close>

section \<open>reset\_cause.c\<close>

text \<open>The register bits of the six causes the board reports.\<close>

record reset_bits =
  RESET_PIN :: nat
  RESET_SOFTWARE :: nat
  RESET_WATCHDOG :: nat
  RESET_DEBUG :: nat
  RESET_LOW_POWER_WAKE :: nat
  RESET_CPU_LOCKUP :: nat

definition cause_to_string :: "reset_bits \<Rightarrow> nat \<Rightarrow> string" where
  "cause_to_string B cause =
     (if cause = RESET_PIN B then ''pin''
      else if cause = RESET_SOFTWARE B then ''software''
      else if cause = RESET_WATCHDOG B then ''watchdog''
      else if cause = RESET_DEBUG B then ''debug''
      else if cause = RESET_LOW_POWER_WAKE B then ''low power wake-up''
      else if cause = RESET_CPU_LOCKUP B then ''CPU lockup''
      else ''unknown'')"

definition RESET_CAUSE_STR_MAX_LEN :: nat where "RESET_CAUSE_STR_MAX_LEN = 128"

text \<open>One pass of the loop, for mask \<open>2 ^ i\<close>; \<open>s\<close> is the text built so far.\<close>

definition append_cause :: "reset_bits \<Rightarrow> nat \<Rightarrow> nat \<Rightarrow> string \<Rightarrow> string" where
  "append_cause B cause i s =
     (if cause div 2 ^ i mod 2 = 1
      then let new = take 31 (cause_to_string B (2 ^ i) @ '','')
           in if length (cause_to_string B (2 ^ i) @ '','') < RESET_CAUSE_STR_MAX_LEN - length s
              then s @ c_str (fst (safe_strlcpy new (RESET_CAUSE_STR_MAX_LEN - length s))) else s
      else s)"

record reset_cause =
  rc_initialized :: bool
  reset_cause_str :: string

definition reset_cause_boot :: reset_cause where
  "reset_cause_boot = \<lparr>rc_initialized = False, reset_cause_str = []\<rparr>"

text \<open>\<open>hw\<close> is what \<open>hwinfo_get_reset_cause\<close> delivers: \<open>Inl\<close> an error, \<open>Inr\<close> the register.\<close>

definition reset_cause_get :: "reset_bits \<Rightarrow> int + nat \<Rightarrow> reset_cause \<Rightarrow> string \<times> reset_cause" where
  "reset_cause_get B hw s =
     (if rc_initialized s then (reset_cause_str s, s)
      else let s1 = s\<lparr>rc_initialized := True\<rparr>
           in case hw of
                Inl _ \<Rightarrow> (''Error reading the cause'', s1)
              | Inr cause \<Rightarrow>
                  (let t = fold (append_cause B cause) [0..<32] (c_str (fst (safe_strlcpy ''['' RESET_CAUSE_STR_MAX_LEN)));
                       t' = t @ c_str (fst (safe_strlcpy '']'' (RESET_CAUSE_STR_MAX_LEN + 1 - length t)))
                   in (t', s1\<lparr>reset_cause_str := t'\<rparr>)))"

section \<open>time\_sync.c\<close>

text \<open>
  \<open>tp_*\<close> is the calendar time; \<open>timegm\<close> and \<open>gmtime\<close> are the library conversions, \<open>t_fmt\<close> the formatting.
\<close>

record time_packet =
  tp_year :: int
  tp_month :: int
  tp_day :: int
  tp_hour :: int
  tp_minute :: int
  tp_second :: int

record time_lib =
  t_gm :: "time_packet \<Rightarrow> int"
  t_cal :: "int \<Rightarrow> time_packet"
  t_fmt :: "time_packet \<Rightarrow> int \<Rightarrow> string"

text \<open>The offset between UTC and uptime in seconds.\<close>

definition update_utc_offset :: "time_lib \<Rightarrow> time_packet \<Rightarrow> int \<Rightarrow> int" where
  "update_utc_offset L pck uptime_ms = t_gm L pck - uptime_ms div 1000"

definition get_current_time :: "time_lib \<Rightarrow> int \<Rightarrow> int \<Rightarrow> time_packet \<times> int" where
  "get_current_time L utc_offset_sec uptime_ms =
     (t_cal L (uptime_ms div 1000 + utc_offset_sec), uptime_ms mod 1000 * 1000)"

text \<open>The text lies in a fresh block of 32 bytes; \<open>heap\<close> counts the blocks that can still be had.\<close>

definition get_current_time_string :: "time_lib \<Rightarrow> int \<Rightarrow> int \<Rightarrow> nat \<Rightarrow> string \<times> nat" where
  "get_current_time_string L utc_offset_sec uptime_ms heap =
     (case heap of
        0 \<Rightarrow> ([], 0)
      | Suc n \<Rightarrow> (take 31 (t_fmt L (t_cal L (uptime_ms div 1000 + utc_offset_sec)) (uptime_ms mod 1000)), n))"

datatype sock_call = Socket | Connect | Recv | Settime | Close_sock

text \<open>
  \<open>fetch_time_from_server\<close>: the calls made, the result and the new offset. The arguments are the results
  of \<open>socket\<close>, \<open>connect\<close>, \<open>recv\<close>, the packet received and the result of \<open>clock_settime\<close>.
\<close>

definition fetch_time_from_server ::
  "time_lib \<Rightarrow> int \<Rightarrow> int \<Rightarrow> int \<Rightarrow> time_packet \<Rightarrow> int \<Rightarrow> int \<Rightarrow> int \<Rightarrow> sock_call list \<times> int \<times> int" where
  "fetch_time_from_server L sock conn received pck settime uptime_ms ofs =
     (if sock < 0 then ([Socket], - 1, ofs)
      else if conn < 0 then ([Socket, Connect, Close_sock], - 1, ofs)
      else if received \<le> 0 then ([Socket, Connect, Recv], - 1, ofs)
      else let ofs' = update_utc_offset L pck uptime_ms
           in if t_gm L pck = - 1 then ([Socket, Connect, Recv], - 1, ofs')
              else if settime < 0 then ([Socket, Connect, Recv, Settime], - 1, ofs')
              else ([Socket, Connect, Recv, Settime, Close_sock], 0, ofs'))"

section \<open>Objects and publication\<close>

datatype pub_val = PNum int | PStr string | PObj "(string \<times> pub_val) list"

type_synonym pub_obj = "(string \<times> pub_val) list"

record boot_info_t =
  bi_uptime :: int
  bi_boot_count :: int
  bi_reboot_cause :: string

record cla_pub_t =
  cl_time_str :: string
  cl_rssi :: int
  cl_boot_info :: boot_info_t
  cl_az :: string
  cl_el :: string
  cl_operation :: string

record ncla_pub_t = cla_pub_t +
  nc_latest_ipc_msg :: string

text \<open>
  The device as a publisher sees it: its id (\<open>None\<close> when \<open>id_get\<close> fails), whether the time was fetched,
  the signal strength (\<open>None\<close> when the request fails), uptime, boot count, reset cause and the two
  random angles as text.
\<close>

record pub_env =
  pe_id :: "string option"
  pe_synced :: bool
  pe_lib :: time_lib
  pe_offset :: int
  pe_rssi :: "int option"
  pe_uptime :: int
  pe_boot_count :: int
  pe_reset_cause :: string
  pe_az :: string
  pe_el :: string
  pe_encode :: "pub_obj \<Rightarrow> nat \<Rightarrow> string option"
  pe_parse :: "json_descr \<Rightarrow> string \<Rightarrow> json_fields option"

definition pub_time_str :: "pub_env \<Rightarrow> nat \<Rightarrow> string \<times> nat" where
  "pub_time_str E heap =
     (if pe_synced E then get_current_time_string (pe_lib E) (pe_offset E) (pe_uptime E) heap else (''NA'', heap))"

definition pub_boot_info :: "pub_env \<Rightarrow> boot_info_t" where
  "pub_boot_info E = \<lparr>bi_uptime = s32 (pe_uptime E div 1000), bi_boot_count = pe_boot_count E,
     bi_reboot_cause = pe_reset_cause E\<rparr>"

definition cla_pub_get :: "pub_env \<Rightarrow> nat \<Rightarrow> cla_pub_t \<times> nat" where
  "cla_pub_get E heap =
     (let (t, heap') = pub_time_str E heap
      in (\<lparr>cl_time_str = t, cl_rssi = (case pe_rssi E of None \<Rightarrow> 0 | Some r \<Rightarrow> r), cl_boot_info = pub_boot_info E,
           cl_az = pe_az E, cl_el = pe_el E, cl_operation = ''CLA''\<rparr>, heap'))"

text \<open>
  The last packet is taken as a C string in the 32 bytes it was copied to; if none of them is zero the
  string goes on behind the structure.
\<close>

definition packet_text :: "u8 list \<Rightarrow> string option" where
  "packet_text bs = (if 0 \<in> set bs then Some (map (\<lambda>b. char_of (unat b)) (takeWhile (\<lambda>b. b \<noteq> 0) bs)) else None)"

definition ncla_pub_get :: "pub_env \<Rightarrow> head_app \<Rightarrow> nat \<Rightarrow> (ncla_pub_t \<times> nat) option" where
  "ncla_pub_get E h heap =
     (let (t, heap') = pub_time_str E heap
      in case packet_text (fst (get_latest_rx_string h)) of
           None \<Rightarrow> None
         | Some msg \<Rightarrow>
             Some (\<lparr>cl_time_str = t, cl_rssi = (case pe_rssi E of None \<Rightarrow> 0 | Some r \<Rightarrow> r),
                    cl_boot_info = pub_boot_info E, cl_az = pe_az E, cl_el = pe_el E, cl_operation = ''NCLA'',
                    nc_latest_ipc_msg = msg\<rparr>, heap'))"

definition boot_info_obj :: "boot_info_t \<Rightarrow> pub_val" where
  "boot_info_obj b = PObj [(''uptime'', PNum (bi_uptime b)), (''boot_count'', PNum (bi_boot_count b)),
     (''reboot_cause'', PStr (bi_reboot_cause b))]"

definition cla_pub_obj :: "'a cla_pub_t_scheme \<Rightarrow> pub_obj" where
  "cla_pub_obj c = [(''time_str'', PStr (cl_time_str c)), (''rssi'', PNum (cl_rssi c)),
     (''boot_info'', boot_info_obj (cl_boot_info c)), (''az'', PStr (cl_az c)), (''el'', PStr (cl_el c)),
     (''operation'', PStr (cl_operation c))]"

definition ncla_pub_obj :: "ncla_pub_t \<Rightarrow> pub_obj" where
  "ncla_pub_obj c = cla_pub_obj c @ [(''latest_ipc_msg'', PStr (nc_latest_ipc_msg c))]"

definition dt_topic :: "string \<Rightarrow> string \<Rightarrow> string" where
  "dt_topic node name = ''dt/'' @ MQTT_PLATFORM @ ''/'' @ node @ ''/'' @ name"

text \<open>
  The publish function of every data topic: topic, payload and quality of service handed to the
  transport, nothing when the object does not fit in 1024 bytes; without an id the device stops.
\<close>

definition pub_mqtt_publish :: "pub_env \<Rightarrow> string \<Rightarrow> pub_obj \<Rightarrow> (string \<times> string \<times> nat) list option" where
  "pub_mqtt_publish E name obj =
     (case pe_id E of
        None \<Rightarrow> None
      | Some node \<Rightarrow>
          Some (case pe_encode E obj 1024 of None \<Rightarrow> [] | Some txt \<Rightarrow> [(dt_topic node name, txt, 1)]))"

definition cla_pub :: "pub_env \<Rightarrow> nat \<Rightarrow> ((string \<times> string \<times> nat) list \<times> nat) option" where
  "cla_pub E heap =
     (let (c, heap') = cla_pub_get E heap
      in map_option (\<lambda>p. (p, heap')) (pub_mqtt_publish E ''cla'' (cla_pub_obj c)))"

definition ncla_pub :: "pub_env \<Rightarrow> head_app \<Rightarrow> nat \<Rightarrow> ((string \<times> string \<times> nat) list \<times> nat) option" where
  "ncla_pub E h heap =
     (case ncla_pub_get E h heap of
        None \<Rightarrow> None
      | Some (c, heap') \<Rightarrow> map_option (\<lambda>p. (p, heap')) (pub_mqtt_publish E ''ncla'' (ncla_pub_obj c)))"

text \<open>
  \<open>wifi_stats_pub_get\<close> leaves in the structure a pointer to its own array \<open>id\<close>, dead once it returns:
  the field is \<open>None\<close>.
\<close>

record wifi_stats_pub_t =
  ws_id_str :: "string option"
  ws_time_str :: string
  ws_rssi :: int

definition wifi_stats_pub_get :: "pub_env \<Rightarrow> int \<Rightarrow> nat \<Rightarrow> wifi_stats_pub_t \<times> nat" where
  "wifi_stats_pub_get E old_rssi heap =
     (let (t, heap') = pub_time_str E heap
      in (\<lparr>ws_id_str = (case pe_id E of Some _ \<Rightarrow> None | None \<Rightarrow> Some ''NA''), ws_time_str = t,
           ws_rssi = (case pe_rssi E of None \<Rightarrow> old_rssi | Some r \<Rightarrow> r)\<rparr>, heap'))"

definition wifi_stats_pub :: "pub_env \<Rightarrow> int \<Rightarrow> nat \<Rightarrow> ((string \<times> string \<times> nat) list \<times> nat) option" where
  "wifi_stats_pub E old_rssi heap =
     (let (w, heap') = wifi_stats_pub_get E old_rssi heap
      in case ws_id_str w of
           None \<Rightarrow> None
         | Some i \<Rightarrow> map_option (\<lambda>p. (p, heap'))
             (pub_mqtt_publish E ''wifi_stats''
                [(''id_str'', PStr i), (''time_str'', PStr (ws_time_str w)), (''rssi'', PNum (ws_rssi w))]))"

section \<open>The system information\<close>

record sys_info_t =
  si_uptime :: int
  si_boot_count :: int
  si_reboot_cause :: string
  si_assert_json :: string
  si_fatal_error_json :: string
  si_con_status :: string
  si_con_s :: int

text \<open>
  \<open>sys_pub_init\<close> reads the two records into 256 bytes each (\<open>CrashRecord\<close>); \<open>con_s\<close> and \<open>ready\<close> come
  from the transport.
\<close>

definition sys_pub_init :: "'f fs_api \<Rightarrow> 'f \<Rightarrow> (int \<times> string \<times> string \<times> 'f) option" where
  "sys_pub_init A f =
     (case assert_json_read A 256 f of
        None \<Rightarrow> None
      | Some (_, assert_str, f1) \<Rightarrow>
          map_option (\<lambda>(rc, fatal_str, f2). (rc, assert_str, fatal_str, f2)) (fatal_error_json_read A 256 f1))"

definition sys_pub_get :: "pub_env \<Rightarrow> string \<Rightarrow> string \<Rightarrow> int \<Rightarrow> bool \<Rightarrow> sys_info_t" where
  "sys_pub_get E assert_str fatal_str con_s ready =
     \<lparr>si_uptime = s32 (pe_uptime E div 1000), si_boot_count = pe_boot_count E, si_reboot_cause = pe_reset_cause E,
      si_assert_json = assert_str, si_fatal_error_json = fatal_str,
      si_con_status = (if ready then ''ready'' else ''disconnected''), si_con_s = con_s\<rparr>"

text \<open>An integer field that the parser did not find holds what was on the stack (\<open>junk\<close>).\<close>

definition num_or :: "int \<Rightarrow> json_fields \<Rightarrow> string \<Rightarrow> int" where
  "num_or junk f n = (case f n of Some (JNum i) \<Rightarrow> i | _ \<Rightarrow> junk)"

definition assert_descr :: json_descr where
  "assert_descr = [(''file'', JSON_TOK_STRING), (''line'', JSON_TOK_NUMBER), (''boot_count'', JSON_TOK_NUMBER),
     (''uptime'', JSON_TOK_NUMBER)]"

definition fatal_error_descr :: json_descr where
  "fatal_error_descr = [(''error'', JSON_TOK_STRING), (''reason'', JSON_TOK_STRING),
     (''boot_count'', JSON_TOK_NUMBER), (''uptime'', JSON_TOK_NUMBER)]"

definition copied :: "string \<Rightarrow> nat \<Rightarrow> string" where
  "copied x n = c_str (fst (safe_strlcpy x n))"

definition assert_obj_decode :: "pub_env \<Rightarrow> int \<Rightarrow> string \<Rightarrow> pub_val option" where
  "assert_obj_decode E junk assert_str =
     (let obj = \<lambda>file line bc up. PObj [(''file'', PStr (copied file 256)), (''line'', PNum line),
                                        (''boot_count'', PNum bc), (''uptime'', PNum up)]
      in case pe_parse E assert_descr (copied assert_str 256) of
           None \<Rightarrow> Some (obj [] 0 0 0)
         | Some f \<Rightarrow>
             (case str_field f ''file'' of
                None \<Rightarrow> None
              | Some file \<Rightarrow> Some (obj file (num_or junk f ''line'') (num_or junk f ''boot_count'') (num_or junk f ''uptime''))))"

definition fatal_error_obj_decode :: "pub_env \<Rightarrow> int \<Rightarrow> string \<Rightarrow> pub_val option" where
  "fatal_error_obj_decode E junk fatal_str =
     (let obj = \<lambda>error reason bc up. PObj [(''error'', PStr (copied error 32)), (''reason'', PStr (copied reason 128)),
                                           (''boot_count'', PNum bc), (''uptime'', PNum up)]
      in case pe_parse E fatal_error_descr (copied fatal_str 256) of
           None \<Rightarrow> Some (obj [] [] 0 0)
         | Some f \<Rightarrow>
             (case (str_field f ''error'', str_field f ''reason'') of
                (Some e, Some r) \<Rightarrow> Some (obj e r (num_or junk f ''boot_count'') (num_or junk f ''uptime''))
              | _ \<Rightarrow> None))"

definition sys_pub_obj :: "pub_env \<Rightarrow> int \<Rightarrow> sys_info_t \<Rightarrow> pub_obj option" where
  "sys_pub_obj E junk s =
     (case (assert_obj_decode E junk (si_assert_json s), fatal_error_obj_decode E junk (si_fatal_error_json s)) of
        (Some a, Some fe) \<Rightarrow>
          Some [(''con'', PObj [(''con_s'', PNum (si_con_s s)), (''status'', PStr (si_con_status s))]),
                (''boot_info'', boot_info_obj \<lparr>bi_uptime = si_uptime s, bi_boot_count = si_boot_count s,
                                               bi_reboot_cause = si_reboot_cause s\<rparr>),
                (''assert'', a), (''fatal_error'', fe)]
      | _ \<Rightarrow> None)"

definition sys_pub :: "pub_env \<Rightarrow> int \<Rightarrow> string \<Rightarrow> string \<Rightarrow> int \<Rightarrow> bool \<Rightarrow> (string \<times> string \<times> nat) list option" where
  "sys_pub E junk assert_str fatal_str con_s ready =
     Option.bind (sys_pub_obj E junk (sys_pub_get E assert_str fatal_str con_s ready)) (pub_mqtt_publish E ''sys'')"

section \<open>The reset cause\<close>

lemma strlcpy_text: "NUL \<notin> set x \<Longrightarrow> 0 < n \<Longrightarrow> c_str (fst (safe_strlcpy x n)) = take (n - 1) x"
proof -
  assume x: "NUL \<notin> set x" and n: "0 < n"
  then have "NUL \<notin> set (take (n - 1) x)" by (auto dest: in_set_takeD)
  then show ?thesis using safe_strlcpy_spec [OF x n] c_str_append [of "take (n - 1) x" "[]"] by simp
qed

lemma cause_names: "NUL \<notin> set (cause_to_string B c) \<and> length (cause_to_string B c) \<le> 17"
  by (simp add: cause_to_string_def)

text \<open>A pass adds the whole name or nothing, and always leaves room for the terminator.\<close>

lemma append_cause_eq:
  assumes "length s < 128"
  shows "append_cause B cause i s =
    (if cause div 2 ^ i mod 2 = 1 \<and> length s + length (cause_to_string B (2 ^ i)) + 1 < 128
     then s @ cause_to_string B (2 ^ i) @ '','' else s)"
proof -
  let ?n = "cause_to_string B (2 ^ i) @ '',''"
  have n: "NUL \<notin> set ?n" "length ?n \<le> 18" using cause_names [of B "2 ^ i"] by auto
  then have "c_str (fst (safe_strlcpy (take 31 ?n) (128 - length s))) = take (128 - length s - 1) ?n"
    using strlcpy_text [of ?n "128 - length s"] assms by simp
  then show ?thesis using assms n by (auto simp: append_cause_def RESET_CAUSE_STR_MAX_LEN_def Let_def)
qed

definition bracketed :: "string \<Rightarrow> bool" where
  "bracketed s \<longleftrightarrow> 0 < length s \<and> length s < 128 \<and> hd s = CHR 0x5B"

lemma append_cause_inv: "bracketed s \<Longrightarrow> bracketed (append_cause B cause i s)"
  using append_cause_eq [of s B cause i] by (auto simp: bracketed_def)

lemma append_causes_inv: "bracketed s \<Longrightarrow> bracketed (fold (append_cause B cause) is s)"
proof (induction "is" arbitrary: s)
  case (Cons i js)
  then show ?case using append_cause_inv [of s B cause i] by simp
qed simp

lemma bracket: "c_str (fst (safe_strlcpy ''['' RESET_CAUSE_STR_MAX_LEN)) = ''[''"
  using strlcpy_text [of "''[''" 128] by (simp add: RESET_CAUSE_STR_MAX_LEN_def)

text \<open>
  Further: whatever the reset register holds, the text of the causes is enclosed in brackets and stays in its
  129 bytes, and every later call returns the text of the first. If the register could not be read, the
  first call says so and every later call returns an empty text.
\<close>

theorem reset_cause_text:
  "let (t1, s1) = reset_cause_get B hw reset_cause_boot; (t2, s2) = reset_cause_get B hw' s1
   in (case hw of
         Inl _ \<Rightarrow> t1 = ''Error reading the cause'' \<and> t2 = []
       | Inr _ \<Rightarrow> length t1 < 129 \<and> hd t1 = CHR 0x5B \<and> last t1 = CHR 0x5D \<and> t2 = t1) \<and> s2 = s1"
proof (cases hw)
  case (Inr cause)
  let ?t = "fold (append_cause B cause) [0..<32] ''[''"
  have t: "0 < length ?t" "length ?t < 128" "hd ?t = CHR 0x5B"
    using append_causes_inv [of "''[''" B cause "[0..<32]"] by (auto simp: bracketed_def)
  have "c_str (fst (safe_strlcpy '']'' (RESET_CAUSE_STR_MAX_LEN + 1 - length ?t))) = '']''"
    using strlcpy_text [of "'']''" "RESET_CAUSE_STR_MAX_LEN + 1 - length ?t"] t(2)
    by (simp add: RESET_CAUSE_STR_MAX_LEN_def)
  then show ?thesis
    using Inr t by (simp add: reset_cause_get_def reset_cause_boot_def bracket Let_def hd_append)
qed (simp add: reset_cause_get_def reset_cause_boot_def)

section \<open>What is published\<close>

text \<open>
  Further: publishing the NCLA data stays inside its objects exactly when the node has an id and the 32 bytes kept
  of the last received packet contain a zero byte; without one the encoder reads behind the packet.
\<close>

theorem ncla_reads_past_packet:
  "ncla_pub E h heap \<noteq> None \<longleftrightarrow> pe_id E \<noteq> None \<and> 0 \<in> set (latest_rx_data h)"
  by (auto simp: ncla_pub_def ncla_pub_get_def get_latest_rx_string_def packet_text_def pub_mqtt_publish_def
      split_beta Let_def split: option.split)

text \<open>
  Further: the Wi-Fi statistics can never be published: with an id the structure points to an array that no
  longer exists, without one the topic cannot be built.
\<close>

theorem wifi_stats_never_defined:
  "wifi_stats_pub E r heap = None"
  by (cases "pe_id E")
    (simp_all add: wifi_stats_pub_def wifi_stats_pub_get_def pub_mqtt_publish_def split_beta)

fun cla_pubs :: "pub_env list \<Rightarrow> nat \<Rightarrow> nat" where
  "cla_pubs [] heap = heap"
| "cla_pubs (E # Es) heap = cla_pubs Es (snd (cla_pub_get E heap))"

text \<open>
  Further: once the time is known, every publication keeps a heap block for its time string and none is given
  back: after as many publications as there are blocks every later one has an empty time.
\<close>

theorem time_strings_leak:
  assumes "\<forall>E\<in>set Es. pe_synced E" "pe_synced F" and "heap \<le> length Es"
  shows "cla_pubs Es heap = 0 \<and> cl_time_str (fst (cla_pub_get F (cla_pubs Es heap))) = []"
proof -
  have "cla_pubs Es heap = heap - length Es"
    using assms(1)
    by (induction Es arbitrary: heap)
      (auto simp: cla_pub_get_def pub_time_str_def get_current_time_string_def split_beta split: nat.split)
  then show ?thesis
    using assms(2,3) by (simp add: cla_pub_get_def pub_time_str_def get_current_time_string_def)
qed

definition sample_pub_env :: pub_env where
  "sample_pub_env = \<lparr>pe_id = Some ''0a1b'', pe_synced = True,
     pe_lib = \<lparr>t_gm = (\<lambda>_. 0), t_cal = (\<lambda>t. \<lparr>tp_year = 1970, tp_month = 1, tp_day = 1, tp_hour = 0, tp_minute = 0, tp_second = t\<rparr>),
       t_fmt = (\<lambda>_ _. ''now'')\<rparr>,
     pe_offset = 0, pe_rssi = None, pe_uptime = 5000, pe_boot_count = 3, pe_reset_cause = ''[pin,]'',
     pe_az = ''1.0'', pe_el = ''2.0'', pe_encode = (\<lambda>_ _. Some ''{}''),
     pe_parse = (\<lambda>d x. if x = assert_msg ''main.c'' 42 3 100
       then Some [''file'' \<mapsto> JStr ''main.c'', ''line'' \<mapsto> JNum 42, ''boot_count'' \<mapsto> JNum 3, ''uptime'' \<mapsto> JNum 100]
       else None)\<rparr>"

theorem time_strings_leak_witness:
  "cl_time_str (fst (cla_pub_get sample_pub_env (cla_pubs [sample_pub_env, sample_pub_env] 2))) = []"
proof -
  have s: "pe_synced sample_pub_env" by (simp add: sample_pub_env_def)
  have a: "\<forall>E\<in>set [sample_pub_env, sample_pub_env]. pe_synced E" using s by simp
  have l: "2 \<le> length [sample_pub_env, sample_pub_env]" by simp
  show ?thesis using time_strings_leak [OF a s l] by (rule conjunct2)
qed

section \<open>A recorded assertion on its way out\<close>

lemma copied_text: "NUL \<notin> set x \<Longrightarrow> length x < n \<Longrightarrow> copied x n = x"
  using strlcpy_text [of x n] by (simp add: copied_def)

lemma copied_nil: "0 < n \<Longrightarrow> copied [] n = []"
  by (rule copied_text) simp_all

text \<open>
  Further: the assertion that the system information publishes is the recorded one when its message has at most
  127 characters. A longer message was cut when it was recorded; it no longer parses and is published as an
  assertion in no file at line 0.
\<close>

theorem published_assert:
  assumes f: "NUL \<notin> set file" "\<forall>c\<in>set file. of_char c \<le> (127 :: nat)" "CHR ''}'' \<notin> set file" "length file < 256"
    and whole: "pe_parse E assert_descr (assert_msg file line bc up) = Some fs"
      "fs ''file'' = Some (JStr file)" "fs ''line'' = Some (JNum line)" "fs ''boot_count'' = Some (JNum bc)"
      "fs ''uptime'' = Some (JNum up)"
    and cut: "\<And>x. CHR ''}'' \<notin> set x \<Longrightarrow> pe_parse E assert_descr x = None"
  shows "assert_obj_decode E junk (take 127 (assert_msg file line bc up)) =
    Some (if length (assert_msg file line bc up) \<le> 127
          then PObj [(''file'', PStr file), (''line'', PNum line), (''boot_count'', PNum bc), (''uptime'', PNum up)]
          else PObj [(''file'', PStr []), (''line'', PNum 0), (''boot_count'', PNum 0), (''uptime'', PNum 0)])"
proof -
  let ?m = "assert_msg file line bc up"
  have n: "NUL \<notin> set (take 127 ?m)" using assert_msg_chars(1) [OF f(1,2)] by (auto dest: in_set_takeD)
  have c: "copied (take 127 ?m) 256 = take 127 ?m" using n by (intro copied_text) auto
  have d: "CHR ''}'' \<notin> set (dec_str i)" for i using dec_str_chars [of "CHR ''}''" i] by auto
  obtain b where b: "?m = b @ ''}''" "CHR ''}'' \<notin> set b"
    using f(3) d by (simp add: assert_msg_def json_tail_def quoted_def)
  show ?thesis
  proof (cases "length ?m \<le> 127")
    case True
    then show ?thesis
      using c whole copied_text [OF f(1,4)]
      by (simp add: assert_obj_decode_def Let_def str_field_def num_or_def)
  next
    case False
    then have "take 127 ?m = take 127 b" using b(1) by simp
    then have "CHR ''}'' \<notin> set (take 127 ?m)" using b(2) by (auto dest: in_set_takeD)
    then show ?thesis using False c cut by (simp add: assert_obj_decode_def copied_nil)
  qed
qed

theorem published_assert_witness:
  "assert_obj_decode sample_pub_env 0 (take 127 (assert_msg ''main.c'' 42 3 100)) =
    Some (PObj [(''file'', PStr ''main.c''), (''line'', PNum 42), (''boot_count'', PNum 3), (''uptime'', PNum 100)])"
proof -
  let ?fs = "[''file'' \<mapsto> JStr ''main.c'', ''line'' \<mapsto> JNum 42, ''boot_count'' \<mapsto> JNum 3, ''uptime'' \<mapsto> JNum 100]"
  have p: "pe_parse sample_pub_env d x = (if x = assert_msg ''main.c'' 42 3 100 then Some ?fs else None)" for d x
    by (simp add: sample_pub_env_def)
  have "CHR ''}'' \<in> set (assert_msg ''main.c'' 42 3 100)" by (simp add: assert_msg_def json_tail_def)
  then have cut: "CHR ''}'' \<notin> set x \<Longrightarrow> pe_parse sample_pub_env assert_descr x = None" for x by (auto simp: p)
  have "length (dec_str 42) \<le> 11" "length (dec_str 3) \<le> 11" "length (dec_str 100) \<le> 11"
    by (rule dec_str_length; simp)+
  moreover have "s32 42 = 42" by (simp add: s32_def)
  ultimately have "length (assert_msg ''main.c'' 42 3 100) \<le> 127" by (simp add: assert_msg_def json_tail_def)
  then show ?thesis
    using published_assert [of "''main.c''" sample_pub_env 42 3 100 ?fs 0] cut by (simp add: p)
qed

section \<open>The clock\<close>

text \<open>
  Further: after the time was fetched the clock shows the fetched time and then advances by one second for every
  second of uptime; the socket is closed exactly when the connection failed or everything succeeded.
\<close>

theorem clock_after_fetch:
  assumes lib: "t_cal L (t_gm L p) = p" and ok: "0 \<le> sock"
    and run: "fetch_time_from_server L sock conn received p settime u ofs = (calls, rc, ofs')"
  shows "(rc = 0 \<longrightarrow> get_current_time L ofs' u = (p, u mod 1000 * 1000)
      \<and> get_current_time L ofs' (u + 1000 * d) = (t_cal L (t_gm L p + d), u mod 1000 * 1000))
    \<and> (Close_sock \<in> set calls \<longleftrightarrow> conn < 0 \<or> rc = 0)"
proof -
  have "(u + 1000 * d) div 1000 = u div 1000 + d" by simp
  moreover have "(u + 1000 * d) mod 1000 = u mod 1000" by simp
  ultimately show ?thesis
    using run lib ok
    by (auto simp: fetch_time_from_server_def update_utc_offset_def get_current_time_def Let_def algebra_simps
        split: if_splits)
qed

theorem clock_after_fetch_witness:
  "Close_sock \<notin> set (fst (fetch_time_from_server (pe_lib sample_pub_env) 3 0 (- 1) (t_cal (pe_lib sample_pub_env) 0) 0 9 0))"
proof -
  let ?L = "(pe_lib sample_pub_env)\<lparr>t_gm := tp_second\<rparr>"
  have e: "fetch_time_from_server ?L 3 0 (- 1) (t_cal ?L 0) 0 9 0 = ([Socket, Connect, Recv], - 1, 0)"
    "fetch_time_from_server (pe_lib sample_pub_env) 3 0 (- 1) (t_cal (pe_lib sample_pub_env) 0) 0 9 0
      = ([Socket, Connect, Recv], - 1, 0)"
    by (simp_all add: fetch_time_from_server_def)
  have "t_cal ?L (t_gm ?L (t_cal ?L 0)) = t_cal ?L 0" by (simp add: sample_pub_env_def)
  from clock_after_fetch [OF this _ e(1), of 0] e(2) show ?thesis by simp
qed

end
