(* ===== verification/Telemetry.thy ===== *)
theory Telemetry
  imports Publishers PowerThread HttpUpdate
begin

text \<open>
  The publishers that send a structure of another module, and the last will: services/publisher/status\_pub.c,
  mppt\_pub.c and ota\_dfu\_pub.c, data/mqtt/status\_mqtt.c, mppt\_pub\_mqtt.c and lwt\_pub\_mqtt.c, data/json/status\_json.c
  and mppt\_pub\_json.c, threads/status\_obj.c and power\_obj.c. The publish functions of all data topics are the
  \<open>pub_mqtt_publish\<close> of Publishers. A \<open>char *\<close> that may be NULL is an option; reading NULL is \<open>None\<close>.
\<close>

section \<open>The status structure\<close>

record axis_pos =
  step_pos :: int
  tar_pos :: int
  last_skip :: int
  tot_skip :: int
  ax_state :: "string option"

record axis_cfg =
  ax_duty :: int
  ax_per :: int
  i_lim :: int

record accel_telem =
  accel_p :: "string option"
  accel_r :: "string option"
  temp_c :: "string option"

record pos =
  pos_axis_0 :: axis_pos
  pos_axis_1 :: axis_pos
  pos_ts :: int

record status_t =
  st_pos :: pos
  st_cfg_axis_0 :: axis_cfg
  st_cfg_axis_1 :: axis_cfg
  st_b_emf_0 :: int
  st_b_emf_1 :: int
  st_accel :: accel_telem
  st_motor_state :: "string option"
  st_home_state :: "string option"

text \<open>The static object; nothing but \<open>heliostat_status_get\<close> writes to it.\<close>

definition axis_pos0 :: axis_pos where
  "axis_pos0 = \<lparr>step_pos = 0, tar_pos = 0, last_skip = 0, tot_skip = 0, ax_state = None\<rparr>"

definition axis_cfg0 :: axis_cfg where
  "axis_cfg0 = \<lparr>ax_duty = 0, ax_per = 0, i_lim = 0\<rparr>"

definition status_obj :: status_t where
  "status_obj =
     \<lparr>st_pos = \<lparr>pos_axis_0 = axis_pos0, pos_axis_1 = axis_pos0, pos_ts = 0\<rparr>, st_cfg_axis_0 = axis_cfg0, st_cfg_axis_1 = axis_cfg0,
      st_b_emf_0 = 0, st_b_emf_1 = 0, st_accel = \<lparr>accel_p = None, accel_r = None, temp_c = None\<rparr>,
      st_motor_state = None, st_home_state = None\<rparr>"

text \<open>\<open>uptime_ms\<close> is the result of \<open>k_uptime_get_32\<close>, stored in an \<open>int32_t\<close>.\<close>

definition heliostat_status_get :: "int \<Rightarrow> status_t \<Rightarrow> status_t" where
  "heliostat_status_get uptime_ms s = s\<lparr>st_pos := (st_pos s)\<lparr>pos_ts := s32 (uptime_ms mod 2 ^ 32)\<rparr>\<rparr>"

text \<open>The object as its descriptor tables hand it to the encoder.\<close>

definition axis_pos_descr :: "axis_pos \<Rightarrow> pub_val option" where
  "axis_pos_descr a =
     map_option (\<lambda>st. PObj [(''step_pos'', PNum (step_pos a)), (''tar_pos'', PNum (tar_pos a)), (''last_skip'', PNum (last_skip a)),
         (''tot_skip'', PNum (tot_skip a)), (''state'', PStr st)]) (ax_state a)"

definition axis_cfg_descr :: "axis_cfg \<Rightarrow> pub_val" where
  "axis_cfg_descr a = PObj [(''duty'', PNum (ax_duty a)), (''per'', PNum (ax_per a)), (''i_lim'', PNum (i_lim a))]"

definition accel_telem_descr :: "accel_telem \<Rightarrow> pub_val option" where
  "accel_telem_descr a =
     (case (accel_p a, accel_r a, temp_c a) of
        (Some p, Some r, Some t) \<Rightarrow> Some (PObj [(''p'', PStr p), (''r'', PStr r), (''temp_c'', PStr t)])
      | _ \<Rightarrow> None)"

definition status_descr :: "status_t \<Rightarrow> pub_obj option" where
  "status_descr s =
     (case (axis_pos_descr (pos_axis_0 (st_pos s)), axis_pos_descr (pos_axis_1 (st_pos s)), accel_telem_descr (st_accel s),
            st_motor_state s, st_home_state s) of
        (Some a0, Some a1, Some ac, Some m, Some h) \<Rightarrow>
          Some [(''pos'', PObj [(''axis_0'', a0), (''axis_1'', a1), (''ts'', PNum (pos_ts (st_pos s)))]),
                (''cfg'', PObj [(''axis_0'', axis_cfg_descr (st_cfg_axis_0 s)), (''axis_1'', axis_cfg_descr (st_cfg_axis_1 s))]),
                (''telem'', PObj [(''axis_0'', PObj [(''b_emf'', PNum (st_b_emf_0 s))]),
                                  (''axis_1'', PObj [(''b_emf'', PNum (st_b_emf_1 s))]), (''accel'', ac)]),
                (''motor_fsm_state'', PObj [(''state'', PStr m), (''h_state'', PStr h)])]
      | _ \<Rightarrow> None)"

definition status_pub :: "pub_env \<Rightarrow> status_t \<Rightarrow> (string \<times> string \<times> nat) list option" where
  "status_pub E s =
     Option.bind (status_descr (heliostat_status_get (pe_uptime E) s)) (pub_mqtt_publish E ''status'')"

text \<open>
  Further: the status can never be published: the strings of the object are NULL from the start and nothing ever
  sets them, so at every publication, the first and every later one, the encoder reads through NULL.
\<close>

theorem status_never_defined:
  "status_pub E (fold heliostat_status_get uptimes status_obj) = None"
proof -
  have "st_motor_state (fold heliostat_status_get uptimes s) = st_motor_state s" for s
    by (induction uptimes arbitrary: s) (simp_all add: heliostat_status_get_def)
  then show ?thesis
    by (simp add: status_pub_def status_descr_def heliostat_status_get_def status_obj_def split: option.split)
qed

section \<open>The power report\<close>

fun mppt_number :: "MpptPowerState \<Rightarrow> int" where
  "mppt_number OFF = 0" | "mppt_number SCAN = 1" | "mppt_number TRACK = 2"

text \<open>The object all zero before the first report.\<close>

definition heliostat_mppt_get :: "power \<Rightarrow> MpptPowerState \<times> int \<times> int \<times> int \<times> int \<times> int \<times> int" where
  "heliostat_mppt_get s = (case mppt_obj s of None \<Rightarrow> (OFF, 0, 0, 0, 0, 0, 0) | Some r \<Rightarrow> r)"

definition mppt_descr :: "MpptPowerState \<times> int \<times> int \<times> int \<times> int \<times> int \<times> int \<Rightarrow> pub_obj" where
  "mppt_descr r =
     (case r of (st, duty, mv, ma, mw, bat, tc) \<Rightarrow>
        [(''mppt_state'', PNum (mppt_number st)), (''gate_duty'', PNum duty), (''mv'', PNum mv), (''ma'', PNum ma),
         (''mw'', PNum mw), (''bat_mv'', PNum bat), (''tenth_C'', PNum tc)])"

text \<open>\<open>locked\<close>: the mutex was had within 100 ms.\<close>

definition mppt_pub :: "pub_env \<Rightarrow> bool \<Rightarrow> power \<Rightarrow> (string \<times> string \<times> nat) list option" where
  "mppt_pub E locked s =
     (if locked then pub_mqtt_publish E ''mppt'' (mppt_descr (heliostat_mppt_get s)) else Some [])"

definition reported :: "power \<Rightarrow> MpptPowerState \<times> int \<times> int \<times> int \<times> int \<times> int \<times> int" where
  "reported s = (mppt_power_state s, gate_duty_cycle s, rg_avg (pv_mv s), rg_avg (pv_ma s), new_mw s,
     rg_avg (battery_mv s), rg_avg (ntc_dc s))"

lemma adc_ticks: "tick_count (calculate_adc_values x s) = tick_count s" "mppt_obj (calculate_adc_values x s) = mppt_obj s"
  by (simp_all add: calculate_adc_values_def Let_def)

lemma mppt_state_obj: "mppt_obj (update_mppt_power_state s) = mppt_obj s" "tick_count (update_mppt_power_state s) = tick_count s"
  by (simp_all add: update_mppt_power_state_def mppt_off_def mppt_scan_def mppt_track_def reset_ringbuffer_def
      set_duty_cycle_def transition_to_off_def Let_def split: MpptPowerState.split)

lemma tick_report:
  "mppt_obj (power_tick N (x, l) s) = (if tick_count s mod N = 0 \<and> l then Some (reported (power_tick N (x, l) s)) else mppt_obj s)"
  "tick_count (power_tick N (x, l) s) = (tick_count s + 1) mod 2 ^ 32"
  by (simp_all add: power_tick_def Let_def update_mppt_obj_def adc_ticks mppt_state_obj reported_def)

lemma run_ticks: "tick_count s = a mod 2 ^ 32 \<Longrightarrow> tick_count (fold (power_tick N) xs s) = (a + length xs) mod 2 ^ 32"
proof (induction xs arbitrary: s a)
  case (Cons xl xs)
  obtain x l where xl: "xl = (x, l)" by (cases xl)
  have "tick_count (power_tick N xl s) = (a + 1) mod 2 ^ 32"
    by (simp only: xl tick_report(2) Cons.prems mod_add_left_eq)
  from Cons.IH [OF this] show ?case by simp
qed simp

lemma report_kept:
  "tick_count s + length zs < 2 ^ 32 \<Longrightarrow> \<forall>i<length zs. snd (zs ! i) \<longrightarrow> (tick_count s + i) mod N \<noteq> 0 \<Longrightarrow>
   mppt_obj (fold (power_tick N) zs s) = mppt_obj s"
proof (induction zs arbitrary: s)
  case (Cons z zs)
  obtain x l where z: "z = (x, l)" by (cases z)
  have "(tick_count s + 1) mod 2 ^ 32 = tick_count s + 1" using Cons.prems(1) by (intro mod_less) simp
  then have t: "tick_count (power_tick N z s) = tick_count s + 1" by (simp only: z tick_report(2))
  have "\<forall>i<length zs. snd (zs ! i) \<longrightarrow> (tick_count (power_tick N z s) + i) mod N \<noteq> 0"
  proof (intro allI impI)
    fix i assume "i < length zs" "snd (zs ! i)"
    then show "(tick_count (power_tick N z s) + i) mod N \<noteq> 0"
      using spec [OF Cons.prems(2), of "Suc i"] by (simp add: t)
  qed
  moreover have "tick_count (power_tick N z s) + length zs < 2 ^ 32" using Cons.prems(1) by (simp add: t)
  ultimately have k: "mppt_obj (fold (power_tick N) zs (power_tick N z s)) = mppt_obj (power_tick N z s)"
    by (intro Cons.IH)
  have "\<not> (tick_count s mod N = 0 \<and> l)" using spec [OF Cons.prems(2), of 0] by (auto simp: z)
  then show ?case using k by (auto simp: z tick_report(1))
qed simp

text \<open>
  Further: the MPPT publication shows one consistent report of the power thread: tracker state, duty cycle and the
  averages all as they were at the end of the latest pass whose number is a multiple of the report interval
  and that got the mutex, however many passes without a report follow it.
\<close>

theorem mppt_report_published:
  assumes len: "length (ys @ (x, True) # zs) < 2 ^ 32" and tick: "length ys mod N = 0"
    and later: "\<forall>i<length zs. snd (zs ! i) \<longrightarrow> (length ys + 1 + i) mod N \<noteq> 0"
  shows "mppt_pub E True (fold (power_tick N) (ys @ (x, True) # zs) (power_boot b)) =
    pub_mqtt_publish E ''mppt'' (mppt_descr (reported (fold (power_tick N) (ys @ [(x, True)]) (power_boot b))))"
proof -
  let ?s = "fold (power_tick N) ys (power_boot b)"
  have t: "tick_count ?s = length ys" using run_ticks [of "power_boot b" 0 N ys] len by (simp add: power_boot_def)
  let ?s1 = "power_tick N (x, True) ?s"
  have t1: "tick_count ?s1 = length ys + 1" using len by (simp add: tick_report t)
  have "mppt_obj (fold (power_tick N) zs ?s1) = mppt_obj ?s1"
    by (rule report_kept) (use len later in \<open>simp_all add: t1\<close>)
  then show ?thesis using tick by (simp add: mppt_pub_def heliostat_mppt_get_def tick_report t)
qed

theorem mppt_report_published_witness:
  "mppt_pub sample_pub_env True
     (fold (power_tick head_report_ticks) [(\<lparr>pv_mv_counts = 0, pv_ma_counts = 0, battery_mv_counts = 3642, ntc_dc_counts = 0\<rparr>, True),
        (\<lparr>pv_mv_counts = 0, pv_ma_counts = 0, battery_mv_counts = 607, ntc_dc_counts = 0\<rparr>, True)] (power_boot False)) =
   pub_mqtt_publish sample_pub_env ''mppt''
     (mppt_descr (reported (power_tick head_report_ticks
        (\<lparr>pv_mv_counts = 0, pv_ma_counts = 0, battery_mv_counts = 3642, ntc_dc_counts = 0\<rparr>, True) (power_boot False))))"
  using mppt_report_published [of "[]" "\<lparr>pv_mv_counts = 0, pv_ma_counts = 0, battery_mv_counts = 3642, ntc_dc_counts = 0\<rparr>"
      "[(\<lparr>pv_mv_counts = 0, pv_ma_counts = 0, battery_mv_counts = 607, ntc_dc_counts = 0\<rparr>, True)]" head_report_ticks sample_pub_env False]
  by (simp add: head_report_ticks_def)

section \<open>The update report\<close>

definition ota_dfu_pub :: "http_env \<Rightarrow> http \<Rightarrow> http" where
  "ota_dfu_pub E s = http_update_status_send E s"

section \<open>The last will\<close>

text \<open>
  The static topic and message handed to the library at every connection attempt. The message is \<open>None\<close> until
  one was built; its text lies in a static buffer, into which a failing encoder leaves the beginning \<open>part\<close>.
\<close>

record lwt =
  will_topic :: string
  will_qos :: nat
  will_message :: "string option"

definition lwt_boot :: lwt where
  "lwt_boot = \<lparr>will_topic = [], will_qos = 0, will_message = None\<rparr>"

definition lwt_create ::
  "pub_env \<Rightarrow> int \<Rightarrow> string \<Rightarrow> string \<Rightarrow> int \<Rightarrow> bool \<Rightarrow> string \<Rightarrow> lwt \<Rightarrow> (int \<times> lwt) option" where
  "lwt_create E junk assert_str fatal_str con_s ready part w =
     (case pe_id E of
        None \<Rightarrow> None
      | Some node \<Rightarrow>
          (let w1 = w\<lparr>will_topic := dt_topic node ''sys'', will_qos := 1\<rparr>;
               sys = (sys_pub_get E assert_str fatal_str con_s ready)\<lparr>si_con_status := ''disconnected'', si_con_s := 0\<rparr>
           in case sys_pub_obj E junk sys of
                None \<Rightarrow> None
              | Some obj \<Rightarrow>
                  Some (case pe_encode E obj 1024 of
                          None \<Rightarrow> (- ENOMEM, w1\<lparr>will_message := map_option (\<lambda>_. part) (will_message w1)\<rparr>)
                        | Some txt \<Rightarrow> (0, w1\<lparr>will_message := Some txt\<rparr>))))"

text \<open>
  C34: the last will is the device's own report of being disconnected: whatever the state of the connection when
  it is built, its topic, text and quality of service are those the system publisher would send at that moment
  if the transport were disconnected since zero seconds. It is built exactly when that report can be encoded;
  otherwise the connection is attempted with no will or with one whose text has been overwritten.
\<close>

theorem last_will:
  assumes "sys_pub E junk assert_str fatal_str 0 False = Some msgs"
  shows "\<exists>rc w'. lwt_create E junk assert_str fatal_str con_s ready part w = Some (rc, w')
    \<and> (if msgs = [] then rc \<noteq> 0 \<and> will_message w' = map_option (\<lambda>_. part) (will_message w)
       else rc = 0 \<and> (\<exists>txt. will_message w' = Some txt \<and> msgs = [(will_topic w', txt, will_qos w')]))"
proof -
  obtain obj where obj: "sys_pub_obj E junk (sys_pub_get E assert_str fatal_str 0 False) = Some obj"
    "pub_mqtt_publish E ''sys'' obj = Some msgs"
    using assms by (auto simp: sys_pub_def bind_eq_Some_conv)
  obtain node where node: "pe_id E = Some node" using obj(2) by (cases "pe_id E") (auto simp: pub_mqtt_publish_def)
  have "(sys_pub_get E assert_str fatal_str con_s ready)\<lparr>si_con_status := ''disconnected'', si_con_s := 0\<rparr>
      = sys_pub_get E assert_str fatal_str 0 False" by (simp add: sys_pub_get_def)
  then show ?thesis using obj node
    by (auto simp: lwt_create_def pub_mqtt_publish_def Let_def fw_defs split: option.splits)
qed

theorem last_will_witness:
  "\<exists>msgs txt w'. sys_pub sample_pub_env 0 (assert_msg ''main.c'' 42 3 100) [] 0 False = Some msgs
     \<and> lwt_create sample_pub_env 0 (assert_msg ''main.c'' 42 3 100) [] 77 True [] lwt_boot = Some (0, w')
     \<and> msgs = [(will_topic w', txt, will_qos w')]"
proof -
  have e: "copied [] 256 = []" using strlcpy_text [of "[]" 256] by (simp add: copied_def)
  have a: "assert_msg ''main.c'' 42 3 100 \<noteq> []" by (simp add: assert_msg_def quoted_def)
  have "\<exists>m. sys_pub sample_pub_env 0 (assert_msg ''main.c'' 42 3 100) [] 0 False = Some [m]"
    by (auto simp: sys_pub_def sys_pub_obj_def sys_pub_get_def assert_obj_decode_def fatal_error_obj_decode_def
        sample_pub_env_def str_field_def pub_mqtt_publish_def Let_def e a a [symmetric] split: option.split)
  then obtain m where m: "sys_pub sample_pub_env 0 (assert_msg ''main.c'' 42 3 100) [] 0 False = Some [m]" by blast
  from last_will [OF this, of 77 True "[]" lwt_boot] m show ?thesis by auto
qed

end
