(* ===== verification/Console.thy ===== *)
theory Console
  imports Shell MqttCmds Network Publishers Telemetry
begin

text \<open>
  The remaining console commands: listing, statistics and erasing of storage/fs\_shell.c with \<open>storage_flash_erase\<close>
  (storage/storage.c), the printing of shell\_cmds/shell\_retained\_ram.c, the state, default-subscription and
  reception commands of shell\_cmds/shell\_mqtt.c, and shell\_sys.c, shell\_stats.c, shell\_mppt.c, shell\_dhcp.c,
  shell\_reboot.c.
\<close>

section \<open>fs\_shell.c\<close>

definition DIR_LEN_MAX :: nat where "DIR_LEN_MAX = 1024"

definition cmd_fs_ls :: "'f fs_api \<Rightarrow> 'f \<Rightarrow> shell_out list option" where
  "cmd_fs_ls A f = map_option (\<lambda>(len, txt). [Value len, Text_line txt]) (storage_list A DIR_LEN_MAX f)"

text \<open>\<open>statvfs\<close> is the result of \<open>fs_statvfs\<close> and the four numbers it fills in.\<close>

definition cmd_fs_stats :: "int \<times> int \<times> int \<times> int \<times> int \<Rightarrow> shell_out list" where
  "cmd_fs_stats statvfs =
     (case statvfs of (rc, bsize, frsize, blocks, bfree) \<Rightarrow>
        if rc < 0 then [Failed rc] else [Value bsize, Value frsize, Value blocks, Value bfree])"

text \<open>The calls on the flash area; the build option \<open>wipe\<close> is \<open>CONFIG_APP_WIPE_STORAGE\<close>.\<close>

datatype flash_call = Area_open | Area_erase | Area_close

definition storage_flash_erase :: "bool \<Rightarrow> int \<Rightarrow> int \<Rightarrow> int \<times> flash_call list" where
  "storage_flash_erase wipe open_rc erase_rc =
     (if open_rc < 0 then (open_rc, [Area_open])
      else if wipe then (erase_rc, [Area_open, Area_erase, Area_close])
      else (open_rc, [Area_open, Area_close]))"

definition cmd_fs_erase :: "bool \<Rightarrow> int \<Rightarrow> int \<Rightarrow> shell_out list \<times> flash_call list" where
  "cmd_fs_erase wipe open_rc erase_rc =
     (case storage_flash_erase wipe open_rc erase_rc of (rc, calls) \<Rightarrow> (if rc < 0 then [Failed rc] else [], calls))"

section \<open>shell\_retained\_ram.c\<close>

text \<open>A string of the structure, printed with \<open>%s\<close>: one without a zero byte is read past its end.\<close>

definition print_str :: "string \<Rightarrow> shell_out option" where
  "print_str b = (if NUL \<in> set b then Some (Text_line (c_str b)) else None)"

definition retained_cmd_read :: "retained_data \<Rightarrow> shell_out list option" where
  "retained_cmd_read r =
     (case (print_str (test_str r), print_str (assert_err_str r), print_str (fatal_err_str r), print_str (watchdog_err_str r)) of
        (Some a, Some b, Some c, Some d) \<Rightarrow> Some [a, b, c, d, Value (step_count_0 r), Value (step_count_1 r)]
      | _ \<Rightarrow> None)"

section \<open>shell\_mqtt.c\<close>

fun transport_fsm_state_to_str :: "module_state \<Rightarrow> string" where
  "transport_fsm_state_to_str MQTT_NETWORK_DISCONNECTED = ''MQTT_NETWORK_DISCONNECTED''"
| "transport_fsm_state_to_str MQTT_CONNECTING_TO_BROKER = ''MQTT_CONNECTING_TO_BROKER''"
| "transport_fsm_state_to_str MQTT_CONNECTED_SUBSCRIBING = ''MQTT_CONNECTED_SUBSCRIBING''"
| "transport_fsm_state_to_str MQTT_CONNECTED_PUBLISHING = ''MQTT_CONNECTED_PUBLISHING''"

definition cmd_mqtt_state_print :: "'q transport \<Rightarrow> shell_out list" where
  "cmd_mqtt_state_print s = [Text_line (transport_fsm_state_to_str (fs_current s))]"

text \<open>The default topics are those of the command modules, built anew into their static buffers.\<close>

definition cmd_mqtt_sub_default ::
  "cmd_env \<Rightarrow> nat \<Rightarrow> int \<Rightarrow> cmds \<times> 'q transport \<Rightarrow> cmds \<times> 'q transport" where
  "cmd_mqtt_sub_default C uptime_ms sub_ret st =
     (let c1 = subscription_list_build C (fst st)
      in (c1, transport_subscribe (topic_cmd_strs c1) (uptime_ms mod 2 ^ 16) sub_ret (snd st)))"

text \<open>What it prints ends with \<open>Did\<close> when a command took the message.\<close>

definition cmd_mqtt_receive :: "cmd_env \<Rightarrow> string list \<Rightarrow> cmds \<Rightarrow> (shell_out list \<times> cmds) option" where
  "cmd_mqtt_receive C argv s =
     (if length argv < 3 then Some ([Text_line ''error - pass in [topic] [payload] strings''], s)
      else map_option (\<lambda>(handled, s1). ([Text_line (argv ! 1), Text_line (argv ! 2)] @ (if handled then [Did] else []), s1))
             (mqtt_common_on_mqtt_publish C (argv ! 1) (argv ! 2) s))"

section \<open>shell\_sys.c, shell\_stats.c, shell\_mppt.c, shell\_dhcp.c\<close>

definition cmd_sys_get :: "sys_info_t \<Rightarrow> shell_out list" where
  "cmd_sys_get sys = [Value (si_uptime sys), Value (si_boot_count sys), Text_line (si_reboot_cause sys),
     Text_line (si_assert_json sys), Text_line (si_fatal_error_json sys)]"

text \<open>The loop of \<open>sys pub\<close>, with the environment of each round; all messages go to the transport queue in order.\<close>

fun sys_pub_loop ::
  "(nat \<Rightarrow> pub_env) \<Rightarrow> int \<Rightarrow> string \<Rightarrow> string \<Rightarrow> int \<Rightarrow> bool \<Rightarrow> nat \<Rightarrow> (string \<times> string \<times> nat) list option" where
  "sys_pub_loop Es junk a f con_s ready 0 = Some []"
| "sys_pub_loop Es junk a f con_s ready (Suc n) =
     Option.bind (sys_pub_loop Es junk a f con_s ready n)
       (\<lambda>xs. map_option ((@) xs) (sys_pub (Es n) junk a f con_s ready))"

definition cmd_sys_pub ::
  "(nat \<Rightarrow> pub_env) \<Rightarrow> int \<Rightarrow> string \<Rightarrow> string \<Rightarrow> int \<Rightarrow> bool \<Rightarrow> string list
    \<Rightarrow> (shell_out list \<times> (string \<times> string \<times> nat) list) option" where
  "cmd_sys_pub Es junk a f con_s ready argv =
     (let count = (if length argv > 1 then atoi (argv ! 1) else 1)
      in map_option (Pair [Value count]) (sys_pub_loop Es junk a f con_s ready (nat count)))"

definition cmd_jitter :: "nat \<Rightarrow> string list \<Rightarrow> shell_out list option" where
  "cmd_jitter rnd argv =
     (case (word 1 argv, word 2 argv) of
        (Some a, Some j) \<Rightarrow>
          Some [Value (atoi a), Value (atoi j),
            Value (s32 (int (AddJitter rnd (nat (atoi a mod 2 ^ 32)) (nat (atoi j mod 2 ^ 16)))))]
      | _ \<Rightarrow> None)"

definition cmd_mppt_get :: "bool \<Rightarrow> power \<Rightarrow> shell_out list" where
  "cmd_mppt_get locked s =
     (case heliostat_mppt_get s of (st, duty, mv, ma, mw, bat, tc) \<Rightarrow>
        if locked then [Value mv, Value ma, Value bat, Value tc] else [])"

text \<open>\<open>dhcp\<close> without an argument compares a string that is not there; \<open>Did\<close>: DHCP is started again.\<close>

definition cmd_dhcp_restart :: "string list \<Rightarrow> shell_out list option" where
  "cmd_dhcp_restart argv = map_option (\<lambda>w. if w = ''restart'' then [Did] else []) (word 1 argv)"

definition cmd_reboot :: "cmds \<Rightarrow> cmds" where
  "cmd_reboot s = reboot_timer_start 3 s"

section \<open>A subscription made on the console\<close>

text \<open>
  C29: one acknowledged console subscription is enough to make the device count as ready. While the transport
  waits to subscribe to its command topics, subscribing to any one topic on the console and its acknowledgement
  end the wait: the next pass announces the transport as ready, the pending subscription is cancelled, and on
  the way the library is asked for the console's topic only: the device reports itself ready without its command topics.
\<close>

theorem console_subscription_is_enough:
  assumes ok: "msgq_ok (e_ops E) cap items" "alloc_ok alloc" "smf_ok (e_smf E)"
    and s: "fs_current s = MQTT_CONNECTED_SUBSCRIBING" "fs_network_event s = NETWORK_NO_EVENT" "is_mqtt_active s"
      "mh_state (tr_helper s) = MQTT_STATE_CONNECTED" "mh_cfg (tr_helper s)"
    and argv: "word 1 argv = Some t"
  shows "\<exists>s'. Option.bind
        (transport_do E alloc (Step_library (EVT_SUBACK (uptime_ms mod 2 ^ 16) 0)) (snd (cmd_mqtt_sub uptime_ms 0 argv s)))
        (transport_do E alloc Step_run) = Some s'
    \<and> transport_state_ready s' \<and> tr_status s' = tr_status s @ [STATUS_READY] \<and> subscribe_work s' = None
    \<and> mh_calls (tr_helper s') = mh_calls (tr_helper s) @ [Mqtt_subscribe [t] (uptime_ms mod 2 ^ 16)]"
proof -
  have env: "transport_env E cap items alloc" using ok by unfold_locales
  let ?mid = "uptime_ms mod 2 ^ 16"
  let ?s1 = "snd (cmd_mqtt_sub uptime_ms 0 argv s)"
  have s1: "?s1 = s\<lparr>tr_helper := mh_call (Mqtt_subscribe [t] ?mid) (tr_helper s), fs_last_message_id := ?mid\<rparr>"
    using s(4) argv by (simp add: cmd_mqtt_sub_def transport_subscribe_def mqtt_helper_subscribe_def)
  obtain s2 where s2: "transport_do E alloc (Step_library (EVT_SUBACK ?mid 0)) ?s1 = Some s2"
    "fs_current s2 = MQTT_CONNECTED_SUBSCRIBING" "fs_network_event s2 = NETWORK_NO_EVENT" "is_mqtt_active s2"
    "fs_mqtt_event s2 = MQTT_BROKER_SUBSCRIBE_ACK" "tr_status s2 = tr_status s"
    "mh_calls (tr_helper s2) = mh_calls (tr_helper s) @ [Mqtt_subscribe [t] ?mid]"
    using s by (auto simp: s1 transport_do_def library_event_def mqtt_evt_handler_def mh_cb_def mh_call_def helper_done_def
        on_mqtt_cb_def count_event_def Let_def)
  then show ?thesis
    by (simp add: transport_do_def transport_fsm_run_def state_run_def connected_subscribing_run_def clear_network_def
        clear_mqtt_def transport_env.to_publishing [OF env] transport_state_ready_def)
qed

definition subscribing :: "transport_msg list transport" where
  "subscribing = (transport_boot [])\<lparr>fs_current := MQTT_CONNECTED_SUBSCRIBING, subscribe_work := Some 5,
     tr_helper := mh_boot\<lparr>mh_state := MQTT_STATE_CONNECTED, mh_cfg := True\<rparr>\<rparr>"

theorem console_subscription_is_enough_witness:
  "\<exists>s'. Option.bind
        (transport_do env0 first_free (Step_library (EVT_SUBACK (70000 mod 2 ^ 16) 0))
          (snd (cmd_mqtt_sub 70000 0 [''sub'', ''news''] subscribing)))
        (transport_do env0 first_free Step_run) = Some s'
     \<and> transport_state_ready s' \<and> subscribe_work s' = None
     \<and> mh_calls (tr_helper s') = [Mqtt_subscribe [''news''] (70000 mod 2 ^ 16)]"
proof -
  have s: "fs_current subscribing = MQTT_CONNECTED_SUBSCRIBING" "fs_network_event subscribing = NETWORK_NO_EVENT"
    "is_mqtt_active subscribing" "mh_state (tr_helper subscribing) = MQTT_STATE_CONNECTED" "mh_cfg (tr_helper subscribing)"
    "mh_calls (tr_helper subscribing) = []" "word 1 [''sub'', ''news''] = Some ''news''"
    by (simp_all add: subscribing_def transport_boot_def mh_boot_def word_def)
  show ?thesis
    using console_subscription_is_enough [OF env0_ok(1) first_free_ok env0_ok(2) s(1-5,7), of 70000] s(6) by auto
qed

end
