(* ===== verification/Device.thy ===== *)
theory Device
  imports Network
begin

text \<open>
  The passes of the Wi-Fi thread (WifiThread) inside the composed network (Network). The thread runs beside the
  transport, the event manager and the manager, and touches them only through the status events it throws; so a
  run of the whole is a run of the network whose Wi-Fi events are, in order, what the passes of the thread threw so far.
\<close>

section \<open>What the thread throws\<close>

fun thrown :: "wifi_act list \<Rightarrow> wifi_status list" where
  "thrown [] = []"
| "thrown (Throw st # as) = st # thrown as"
| "thrown (a # as) = thrown as"

fun wifi_throws :: "(nat \<times> net_step) list \<Rightarrow> wifi_status list" where
  "wifi_throws [] = []"
| "wifi_throws ((now, Wifi_throws st) # es) = st # wifi_throws es"
| "wifi_throws (e # es) = wifi_throws es"

text \<open>The steps of the network that belong to the first \<open>k\<close> passes of a thread in state \<open>s\<close>.\<close>

definition driven_by :: "wifi_env \<Rightarrow> wifi \<Rightarrow> nat \<Rightarrow> (nat \<times> net_step) list \<Rightarrow> bool" where
  "driven_by W s k es \<longleftrightarrow>
     prefix (wifi_throws es) (thrown (drop (length (w_log s)) (w_log ((wifi_pass W ^^ k) s))))"

lemma thrown_append [simp]: "thrown (as @ bs) = thrown as @ thrown bs"
  by (induction as rule: thrown.induct) simp_all

lemma thrown_set: "st \<in> set (thrown as) \<longleftrightarrow> Throw st \<in> set as"
  by (induction as rule: thrown.induct) auto

lemma throws_append [simp]: "wifi_throws (es @ fs) = wifi_throws es @ wifi_throws fs"
  by (induction es rule: wifi_throws.induct) simp_all

text \<open>The statuses an event of the network stack may lead to.\<close>

fun reports :: "wifi_input \<Rightarrow> wifi_status \<Rightarrow> bool" where
  "reports (Connect_result r) st = (st = (if r \<noteq> 0 then WS_connect_failed else WS_connected))"
| "reports (Disconnect_result r) st = (st = WS_disconnected \<or> st = WS_disconnect_failed)"
| "reports Dhcp_bound st = (st = WS_ip_acquired)"
| "reports _ st = False"

text \<open>A stretch of the thread in which every status thrown was reported by an event satisfying \<open>I\<close>.\<close>

definition honest :: "(wifi_input \<Rightarrow> bool) \<Rightarrow> wifi \<Rightarrow> wifi \<Rightarrow> bool" where
  "honest I s s' \<longleftrightarrow> (\<exists>as. w_log s' = w_log s @ as \<and> (\<forall>st. Throw st \<in> set as \<longrightarrow> (\<exists>i. I i \<and> reports i st)))"

lemma honest_same: "w_log s' = w_log s \<Longrightarrow> honest I s s'"
  by (simp add: honest_def)

lemma honest_trans: "honest I s t \<Longrightarrow> honest I t u \<Longrightarrow> honest I s u"
  by (fastforce simp: honest_def)

lemma honest_act: "(\<And>st. a \<noteq> Throw st) \<Longrightarrow> honest I s (act a s)"
  by (auto simp: honest_def act_def)

lemma honest_handle: "I ev \<Longrightarrow> honest I s (wifi_handle W ev s)"
  by (cases ev) (fastforce simp: honest_def callback_defs enter_shutdown_mode_def)+

lemma honest_fold: "list_all I evs \<Longrightarrow> honest I s (fold (wifi_handle W) evs s)"
  by (induction evs arbitrary: s) (auto intro: honest_same honest_trans honest_handle)

lemma honest_calls:
  "honest I s (log_wifi_status s)" "honest I s (wifi_disconnect W s)" "honest I s (shutdown_wifi W s)"
  "honest I s (exit_shutdown_mode W s)" "honest I s (snd (wifi_connect W s))"
  by (auto simp: callback_defs wifi_connect_def honest_def)

text \<open>All events the network stack and the power thread deliver satisfy \<open>I\<close>.\<close>

definition delivers :: "wifi_env \<Rightarrow> (wifi_input \<Rightarrow> bool) \<Rightarrow> bool" where
  "delivers W I \<longleftrightarrow> (\<forall>i. list_all I (w_events W i))"

lemma honest_sleep: "delivers W I \<Longrightarrow> honest I s (wifi_sleep W ms s)"
  unfolding wifi_sleep_def delivers_def by (rule honest_trans [OF honest_act honest_fold]) simp_all

lemma honest_nap: "delivers W I \<Longrightarrow> honest I s (nap W ms s)"
  unfolding nap_def by (rule honest_trans [OF honest_act honest_sleep]) simp_all

lemma honest_poll: "delivers W I \<Longrightarrow> honest I s (poll_connect W n s)"
proof (induction n arbitrary: s)
  case (Suc n)
  let ?s1 = "log_wifi_status (wifi_sleep W STATUS_POLLING_MS (act (Alive CONNECTION_TIMEOUT_MS) s))"
  have 1: "honest I s ?s1"
    by (rule honest_trans [OF honest_act honest_trans [OF honest_sleep [OF Suc.prems] honest_calls(1)]]) simp
  then show ?case using honest_trans [OF 1 Suc.IH [OF Suc.prems, of ?s1]] honest_trans [OF 1 honest_same]
    by (simp add: Let_def)
qed (simp add: honest_same)

lemma honest_shutdown: "delivers W I \<Longrightarrow> honest I s (enter_shutdown_mode W (wifi_sleep W) s)"
  unfolding enter_shutdown_mode_def
  by (rule honest_trans [OF honest_calls(2) honest_trans [OF honest_sleep honest_trans [OF honest_calls(3) honest_same]]])
    simp_all

lemma honest_failed: "delivers W I \<Longrightarrow> honest I s (connect_failed W s)"
proof -
  assume W: "delivers W I"
  let ?s1 = "nap W WIFI_THREAD_TIMEOUT_SLEEP_MS s"
  have 2: "honest I s (?s1\<lparr>failed_connect_count := n\<rparr>)" for n
    by (rule honest_trans [OF honest_nap [OF W] honest_same]) simp
  have 3: "honest I s (?s1\<lparr>failed_connect_count := n, failed_connect_count := 0\<rparr>)" for n
    using 2 [of 0] by simp
  show ?thesis
    using 2 honest_trans [OF 3 honest_trans [OF honest_shutdown [OF W] honest_trans [OF honest_nap [OF W] honest_calls(4)]]]
    by (simp add: connect_failed_def Let_def)
qed

lemma honest_pass: "delivers W I \<Longrightarrow> honest I s (wifi_pass W s)"
proof -
  assume W: "delivers W I"
  let ?s1 = "snd (wifi_connect W (act (Alive CONNECTION_TIMEOUT_MS) (s\<lparr>connect_result := False\<rparr>)))"
  let ?s2 = "poll_connect W poll_count ?s1"
  have 0: "honest I s (s\<lparr>connect_result := False\<rparr>)" by (rule honest_same) simp
  have 2: "honest I s ?s2"
    by (rule honest_trans [OF 0 honest_trans [OF honest_act honest_trans [OF honest_calls(5) honest_poll [OF W]]]]) simp
  have 3: "honest I s ((nap W STATUS_POLLING_MS (nap W (STATUS_POLLING_MS * 20) ?s2))\<lparr>failed_connect_count := 0\<rparr>)"
    by (rule honest_trans [OF 2 honest_trans [OF honest_nap [OF W] honest_trans [OF honest_nap [OF W] honest_same]]]) simp
  show ?thesis using 2 3 honest_nap [OF W] honest_trans [OF 2 honest_failed [OF W]]
    by (simp add: wifi_pass_def Let_def)
qed

lemma honest_passes: "delivers W I \<Longrightarrow> honest I s ((wifi_pass W ^^ k) s)"
  by (induction k) (auto intro: honest_same honest_trans honest_pass)

text \<open>So the Wi-Fi events of a run of the whole are reports of what the network stack delivered.\<close>

lemma driven_reports:
  assumes "delivers W I" and "driven_by W s k es" and "st \<in> set (wifi_throws es)"
  shows "\<exists>i. I i \<and> reports i st"
proof -
  obtain as where as: "w_log ((wifi_pass W ^^ k) s) = w_log s @ as" "\<forall>st. Throw st \<in> set as \<longrightarrow> (\<exists>i. I i \<and> reports i st)"
    using honest_passes [OF assms(1), of s k] by (auto simp: honest_def)
  then have "st \<in> set (thrown as)" using assms(2,3) set_mono_prefix by (fastforce simp: driven_by_def)
  then show ?thesis using as(2) by (simp add: thrown_set)
qed

section \<open>A lost access point\<close>

text \<open>Neither an address nor the loss of one.\<close>

fun no_link_change :: "wifi_input \<Rightarrow> bool" where
  "no_link_change Dhcp_bound = False"
| "no_link_change (Disconnect_result r) = False"
| "no_link_change _ = True"

definition harmless :: "wifi_status \<Rightarrow> bool" where
  "harmless st \<longleftrightarrow> st \<noteq> WS_ip_acquired \<and> st \<noteq> WS_disconnected"

lemma no_link_change_reports: "no_link_change i \<Longrightarrow> reports i st \<Longrightarrow> harmless st"
  by (cases i) (auto simp: harmless_def split: if_splits)

text \<open>The manager counts Wi-Fi as lost since \<open>t0\<close>, and no pending event says otherwise.\<close>

definition down_since :: "nat \<Rightarrow> int \<Rightarrow> 'q network \<Rightarrow> bool" where
  "down_since t0 tm n \<longleftrightarrow> \<not> wifi_connected (mgr_conn (net_mgr n)) \<and> wifi_disconnect_ts (mgr_conn (net_mgr n)) = t0
     \<and> wifi_to_ms (mgr_conn (net_mgr n)) = tm \<and> (\<forall>st. Msg_wifi st \<in> set (net_events n) \<longrightarrow> harmless st)"

lemma down_step:
  assumes n: "down_since t0 tm n" and own: "net_own (now, ev)" and wifi: "\<And>st. ev = Wifi_throws st \<Longrightarrow> harmless st"
    and r: "net_do E alloc B now ev n = Running n'"
  shows "down_since t0 tm n'"
proof (cases ev)
  case (Wifi_throws st)
  then show ?thesis using n r wifi by (auto simp: net_do_def wifi_status_event_throw_def down_since_def)
next
  case (Transport_does a st)
  then show ?thesis using n r
    by (auto simp: net_do_def transport_status_event_throw_def down_since_def split: option.splits)
next
  case (Manager_does mev)
  then show ?thesis using n r own own_step_conn [of mev B now "net_mgr n"]
    by (auto simp: net_do_def down_since_def split: sum.splits option.splits)
next
  case Deliver
  have w: "manager_connectivity_wifi_event_handler now st c = c" if "harmless st" for st c
    using that by (simp add: manager_connectivity_wifi_event_handler_def harmless_def split: wifi_status.split)
  have t: "wifi_connected (manager_connectivity_transport_event_handler now x c) = wifi_connected c"
    "wifi_disconnect_ts (manager_connectivity_transport_event_handler now x c) = wifi_disconnect_ts c"
    "wifi_to_ms (manager_connectivity_transport_event_handler now x c) = wifi_to_ms c" for x c
    by (simp_all add: manager_connectivity_transport_event_handler_def split: Manager.transport_status.split)
  show ?thesis using n r Deliver
    by (cases "net_events n")
      (auto simp: net_do_def net_deliver_def tell_manager_def down_since_def t w split: net_msg.splits option.splits)
qed

lemma down_run:
  "down_since t0 tm n \<Longrightarrow> list_all net_own es \<Longrightarrow> list_all harmless (wifi_throws es) \<Longrightarrow>
   net_run E alloc B es n = Running n' \<Longrightarrow> down_since t0 tm n'"
proof (induction es arbitrary: n)
  case (Cons e es)
  obtain now ev where e: "e = (now, ev)" by (cases e)
  obtain m where m: "net_do E alloc B now ev n = Running m" "net_run E alloc B es m = Running n'"
    using Cons.prems(4) e by (auto split: outcome.splits)
  have "harmless st" if "ev = Wifi_throws st" for st using Cons.prems(3) that e by simp
  moreover have "list_all harmless (wifi_throws es)" using Cons.prems(3) e by (cases ev) simp_all
  ultimately show ?case using Cons.IH [OF down_step [OF Cons.prems(1) _ _ m(1)]] m(2) Cons.prems(2) e by simp
qed simp

lemma down_expires:
  assumes n: "down_since t0 tm n" and now: "0 < tm" "int t0 + tm < int now" "int now < 2 ^ 63"
  shows "\<exists>a. net_do E alloc B now (Manager_does Loop_pass) n = Restart a"
proof -
  have "(int now - int t0) mod 2 ^ 64 = int now - int t0" "tm mod 2 ^ 64 = tm" using now by simp_all
  then have "for_longer now t0 tm" using now by (simp add: for_longer_def)
  then have "manager_connectivity_monitor now (mgr_conn (net_mgr n)) = Some ''wifi timeout''"
    using n now by (simp add: down_since_def manager_connectivity_monitor_def)
  then show ?thesis by (auto simp: net_do_def manager_step_def split: option.split)
qed

lemma first_poll: "poll_connect W poll_count s =
    (let s1 = log_wifi_status (wifi_sleep W STATUS_POLLING_MS (act (Alive CONNECTION_TIMEOUT_MS) s))
     in if connect_result s1 then s1\<lparr>connect_result := False\<rparr> else poll_connect W 9 s1)"
proof -
  have "poll_count = Suc 9" by (simp add: poll_count_def fw_defs)
  then show ?thesis using poll_connect.simps(2) [of W 9 s] by metis
qed

text \<open>
  C12: a device that lost its access point restarts. Let the manager count Wi-Fi as lost since \<open>t0\<close>, and let the
  network stack from then on report neither an address nor another disconnection to the Wi-Fi thread, whatever
  else it reports and however often the thread retries, gives up for a minute or is switched by the power
  thread: then no interleaving of the thread's passes with the transport, the event manager and the manager runs
  past the first loop pass of the manager later than the configured time after \<open>t0\<close>.
\<close>

theorem lost_access_point_restarts:
  assumes n: "down_since t0 tm n" and stack: "delivers W no_link_change"
    and es: "list_all net_own es" "driven_by W s k es"
    and now: "0 < tm" "int t0 + tm < int now" "int now < 2 ^ 63"
  shows "\<nexists>m. net_run E alloc B (es @ [(now, Manager_does Loop_pass)]) n = Running m"
proof -
  have "list_all harmless (wifi_throws es)"
    using driven_reports [OF stack es(2)] no_link_change_reports by (auto simp: list_all_iff)
  note d = down_run [OF n es(1) this]
  show ?thesis
  proof (cases "net_run E alloc B es n")
    case (Running m)
    then show ?thesis using down_expires [OF d [OF Running] now, of E alloc B] by (auto simp: net_run_append)
  qed (simp_all add: net_run_append)
qed

definition refused :: wifi_env where
  "refused = \<lparr>w_res = \<lambda>i a. 0, w_events = \<lambda>i. [Connect_result 1], w_admin_up = \<lambda>i. True, w_psk_length = 8\<rparr>"

theorem lost_access_point_restarts_witness:
  "\<exists>n0. net_start [] running_manager = Some n0 \<and> (\<nexists>m. net_run env0 first_free head_build
     ([(5, Wifi_throws WS_connect_failed), (6, Deliver)] @ [(300001, Manager_does Loop_pass)]) n0 = Running m)"
proof -
  obtain n0 :: "transport_msg list network" where n0: "net_start [] running_manager = Some n0"
    using sample_network by blast
  have n: "down_since 0 300000 n0" using n0
    by (auto simp: net_start_def transport_fsm_init_def network_disconnected_entry_def transport_boot_def throw_status_def
        transport_pub_timer_stop_def down_since_def running_manager_def connectivity_init_defs)
  have d: "driven_by refused wifi_boot 1 [(5, Wifi_throws WS_connect_failed), (6, Deliver)]"
    by (simp add: driven_by_def wifi_pass_def wifi_boot_def refused_def wifi_connect_def wifi_sleep_def callback_defs
        Let_def connect_failed_def nap_def first_poll fw_defs)
  have "delivers refused no_link_change" by (simp add: delivers_def refused_def)
  from lost_access_point_restarts [OF n this _ d, of 300001] n0 show ?thesis by auto
qed

section \<open>From the access point to the broker\<close>

text \<open>
  What an access point answers to a thread in state \<open>s\<close>: it takes the request, its result comes during poll \<open>j\<close>,
  the address during the wait after that, and nothing else; the positions are those in the thread's log.
\<close>

definition joins :: "wifi_env \<Rightarrow> wifi \<Rightarrow> nat \<Rightarrow> bool" where
  "joins W s j \<longleftrightarrow> (let l = length (w_log s) in
     w_res W (l + 1) (Connect_req (wifi_args_to_params W)) = 0
     \<and> (\<forall>i<j. w_events W (l + 3 + 3 * i) = []) \<and> w_events W (l + 3 + 3 * j) = [Connect_result 0]
     \<and> w_events W (l + 8 + 3 * j) = [Dhcp_bound] \<and> w_events W (l + 11 + 3 * j) = [])"

lemma silent_polls:
  "\<not> connect_result s \<Longrightarrow> \<forall>i<j. w_events W (length (w_log s) + 1 + 3 * i) = [] \<Longrightarrow>
   \<exists>as. thrown as = [] \<and> length as = 3 * j \<and> poll_connect W (j + n) s = poll_connect W n (s\<lparr>w_log := w_log s @ as\<rparr>)"
proof (induction j arbitrary: s)
  case (Suc j)
  let ?bs = "[Alive CONNECTION_TIMEOUT_MS, Sleep STATUS_POLLING_MS, Iface_status]"
  let ?s1 = "s\<lparr>w_log := w_log s @ ?bs\<rparr>"
  have "w_events W (Suc (length (w_log s))) = []" using spec [OF Suc.prems(2), of 0] by simp
  then have 1: "poll_connect W (Suc j + n) s = poll_connect W (j + n) ?s1"
    using Suc.prems(1) by (simp add: wifi_sleep_def log_wifi_status_def act_def Let_def)
  have "w_events W (length (w_log ?s1) + 1 + 3 * i) = []" if "i < j" for i
  proof -
    have "length (w_log ?s1) + 1 + 3 * i = length (w_log s) + 1 + 3 * Suc i" by simp
    then show ?thesis using Suc.prems(2) that by (metis Suc_mono)
  qed
  then obtain as where "thrown as = []" "length as = 3 * j"
    "poll_connect W (j + n) ?s1 = poll_connect W n (?s1\<lparr>w_log := w_log ?s1 @ as\<rparr>)"
    using Suc.IH [of ?s1] Suc.prems(1) by auto
  then show ?case using 1 by (intro exI [of _ "?bs @ as"]) simp
qed (auto intro: exI [of _ "[]"])

lemma pass_joins:
  assumes s: "\<not> is_wifi_shutdown s" "\<not> connected s" and j: "j < poll_count" and W: "joins W s j"
  shows "\<exists>as. w_log (wifi_pass W s) = w_log s @ as \<and> thrown as = [WS_connected, WS_ip_acquired]
    \<and> connected (wifi_pass W s)"
proof -
  let ?l = "length (w_log s)" and ?c = "Connect_req (wifi_args_to_params W)"
  let ?s1 = "s\<lparr>connect_result := False, connected := False, w_log := w_log s @ [Alive CONNECTION_TIMEOUT_MS, ?c]\<rparr>"
  note w = W [unfolded joins_def Let_def]
  obtain n where n: "poll_count = j + Suc n" using j by (auto simp: less_iff_Suc_add)
  have c: "snd (wifi_connect W (act (Alive CONNECTION_TIMEOUT_MS) (s\<lparr>connect_result := False\<rparr>))) = ?s1"
    using w by (simp add: wifi_connect_def wifi_call_def act_def)
  have "length (w_log ?s1) + 1 = ?l + 3" by simp
  then have q: "\<forall>i<j. w_events W (length (w_log ?s1) + 1 + 3 * i) = []" using w by metis
  obtain as where as: "thrown as = []" "length as = 3 * j"
    "poll_connect W poll_count ?s1 = poll_connect W (Suc n) (?s1\<lparr>w_log := w_log ?s1 @ as\<rparr>)"
    using silent_polls [OF _ q, of "Suc n"] unfolding n by force
  let ?bs = "[Alive CONNECTION_TIMEOUT_MS, ?c] @ as @ [Alive CONNECTION_TIMEOUT_MS, Sleep STATUS_POLLING_MS,
      Throw WS_connected, Iface_status, Iface_status]"
  let ?s2 = "s\<lparr>connect_result := False, connected := True, w_log := w_log s @ ?bs\<rparr>"
  have e: "w_events W (Suc (Suc (Suc (?l + 3 * j)))) = [Connect_result 0]" using w by (simp add: eval_nat_numeral)
  have p: "poll_connect W poll_count ?s1 = ?s2"
    using e as(2) unfolding as(3)
    by (simp add: wifi_sleep_def log_wifi_status_def act_def Let_def wifi_handle_def wifi_mgmt_event_handler_def
        handle_wifi_connect_result_def)
  have len: "length (w_log ?s2) = ?l + 3 * j + 7" using as(2) by simp
  have d: "w_events W (Suc (length (w_log ?s2))) = [Dhcp_bound]" using w len by (simp add: eval_nat_numeral algebra_simps)
  let ?s3 = "?s2\<lparr>w_log := w_log ?s2 @ [Alive (STATUS_POLLING_MS * 20), Sleep (STATUS_POLLING_MS * 20), Throw WS_ip_acquired]\<rparr>"
  have n1: "nap W (STATUS_POLLING_MS * 20) ?s2 = ?s3"
    using d by (simp add: nap_def wifi_sleep_def act_def wifi_handle_def net_mgmt_event_handler_def)
  have f: "w_events W (Suc (length (w_log ?s3))) = []" using w as(2) by (simp add: eval_nat_numeral algebra_simps)
  have n2: "nap W STATUS_POLLING_MS ?s3 = ?s3\<lparr>w_log := w_log ?s3 @ [Alive STATUS_POLLING_MS, Sleep STATUS_POLLING_MS]\<rparr>"
    using f by (simp add: nap_def wifi_sleep_def act_def)
  have "wifi_pass W s = (?s3\<lparr>w_log := w_log ?s3 @ [Alive STATUS_POLLING_MS, Sleep STATUS_POLLING_MS]\<rparr>)\<lparr>failed_connect_count := 0\<rparr>"
    using s n1 n2 by (simp add: wifi_pass_def Let_def c p)
  then show ?thesis using as(1) by simp
qed

text \<open>The report of the connection is delivered, the transport makes a pass, its announcement is delivered.\<close>

definition associates :: "(nat \<Rightarrow> nat) \<Rightarrow> answers \<Rightarrow> (nat \<times> net_step) list" where
  "associates t a =
     [(t 0, Wifi_throws WS_connected), (t 1, Deliver), (t 2, Transport_does a Step_run), (t 3, Deliver)]"

lemma associates_run:
  assumes ok: "msgq_ok (e_ops E) cap items" "alloc_ok alloc" "smf_ok (e_smf E)" and n: "offline n"
  shows "\<exists>m. net_run E alloc B (associates t a) n = Running m \<and> offline m \<and> tr_helper (net_tr m) = tr_helper (net_tr n)"
  using transport_env.to_network_disconnected [OF transport_env_answers [OF ok],
      of "a\<lparr>a_now := int (t 2)\<rparr>" "net_tr n\<lparr>fs_network_event := NETWORK_DISCONNECTED\<rparr>"] n
  by (auto simp: associates_def net_do_def wifi_status_event_throw_def net_deliver_def offline_def status_text_def
      transport_wifi_event_handler_def transport_do_def transport_fsm_run_def state_run_def network_disconnected_run_def
      clear_network_def transport_status_event_throw_def told_def tell_manager_def)


definition open_ap :: wifi_env where
  "open_ap = \<lparr>w_res = \<lambda>i a. 0, w_events = \<lambda>i. if i = 3 then [Connect_result 0] else if i = 8 then [Dhcp_bound] else [],
     w_admin_up = \<lambda>i. True, w_psk_length = 8\<rparr>"


end
