(* ===== verification/Server.thy ===== *)
theory Server
  imports MqttCmds Transport
begin

text \<open>
  The way of a server command through the application core: the library delivers a message, the transport's
  callback (transport/transport\_mqtt\_callbacks.c) hands it to the table of commands (MqttCmds) within the poll thread of
  the library, and what the command publishes goes through \<open>mqtt_common_publish\<close> into the transport's queue (Transport).
\<close>

section \<open>The composition\<close>

record 'q server =
  sv_tr :: "'q transport"
  sv_cmds :: cmds

text \<open>
  \<open>stale\<close> is the text in a buffer the encoder could not fill, \<open>other\<close> what the other threads do to the transport
  while a command sleeps.
\<close>

definition send_out ::
  "('q, transport_msg) msgq_ops \<Rightarrow> alloc \<Rightarrow> string \<Rightarrow> (int \<Rightarrow> 'q transport \<Rightarrow> 'q transport) \<Rightarrow> cmd_out
     \<Rightarrow> 'q transport \<Rightarrow> 'q transport" where
  "send_out ops alloc stale other c s =
     (case c of
        Publish t p q \<Rightarrow>
          snd (transport_publish ops alloc (Some t) (Some (case p of Text x \<Rightarrow> x | Unfilled \<Rightarrow> stale)) q s)
      | Sleep ms \<Rightarrow> other ms s
      | _ \<Rightarrow> s)"

definition on_mqtt_publish ::
  "('q, transport_msg) msgq_ops \<Rightarrow> alloc \<Rightarrow> string \<Rightarrow> (int \<Rightarrow> 'q transport \<Rightarrow> 'q transport) \<Rightarrow> cmd_env
     \<Rightarrow> string \<times> string \<Rightarrow> 'q server \<Rightarrow> 'q server option" where
  "on_mqtt_publish ops alloc stale other C msg v =
     map_option (\<lambda>(handled, c).
         \<lparr>sv_tr = fold (send_out ops alloc stale other) (drop (length (cm_out (sv_cmds v))) (cm_out c)) (sv_tr v),
          sv_cmds = c\<rparr>)
       (mqtt_common_on_mqtt_publish C (fst msg) (snd msg) (sv_cmds v))"

text \<open>An event of the library, with the messages it made the helper pass on.\<close>

definition server_event ::
  "'q tenv \<Rightarrow> alloc \<Rightarrow> string \<Rightarrow> (int \<Rightarrow> 'q transport \<Rightarrow> 'q transport) \<Rightarrow> cmd_env \<Rightarrow> mqtt_evt
     \<Rightarrow> 'q server \<Rightarrow> 'q server option" where
  "server_event E alloc stale other C e v =
     (case library_event E e (sv_tr v) of
        None \<Rightarrow> None
      | Some t \<Rightarrow>
          fold (\<lambda>msg vo. Option.bind vo (on_mqtt_publish (e_ops E) alloc stale other C msg))
            (drop (length (tr_received (sv_tr v))) (tr_received t)) (Some (v\<lparr>sv_tr := t\<rparr>)))"

section \<open>What a command says\<close>

text \<open>The log of a command only grows.\<close>

definition keeps :: "cmds \<Rightarrow> cmds \<Rightarrow> bool" where
  "keeps s s' \<longleftrightarrow> prefix (cm_out s) (cm_out s')"

lemma keeps_refl [simp]: "keeps s s"
  by (simp add: keeps_def)

lemma keeps_fields [simp]:
  "keeps s (s'\<lparr>cm_pubs := p\<rparr>) = keeps s s'" "keeps s (s'\<lparr>cm_head := h\<rparr>) = keeps s s'"
  "keeps s (s'\<lparr>ota_bufs := b\<rparr>) = keeps s s'" "keeps s (s'\<lparr>start_cla := x\<rparr>) = keeps s s'"
  "keeps s (s'\<lparr>start_ncla := x\<rparr>) = keeps s s'"
  by (simp_all add: keeps_def)

lemma keeps_out: "keeps s s' \<Longrightarrow> keeps s (out c s')"
  by (auto simp: keeps_def out_def prefix_def)

lemma keeps_ops:
  "keeps s s' \<Longrightarrow> keeps s (k_sleep E ms s')" "keeps s s' \<Longrightarrow> keeps s (stop_cla_if_started E s')"
  "keeps s s' \<Longrightarrow> keeps s (stop_ncla_if_started s')" "keeps s s' \<Longrightarrow> keeps s (start_cla_unless_started s')"
  "keeps s s' \<Longrightarrow> keeps s (start_ncla_unless_started s')" "keeps s s' \<Longrightarrow> keeps s (publish_encoded E t r q s')"
  "keeps s s' \<Longrightarrow> keeps s (publish_text t x q s')" "keeps s s' \<Longrightarrow> keeps s (fs_publish_response E res sid st d s')"
  "keeps s s' \<Longrightarrow> keeps s (reboot_timer_start n s')"
  by (auto simp: k_sleep_def stop_cla_if_started_def stop_ncla_if_started_def start_cla_unless_started_def
      start_ncla_unless_started_def publish_encoded_def publish_text_def mqtt_common_publish_def fs_publish_response_def
      reboot_timer_start_def Let_def intro: keeps_out split: option.split)

lemma keeps_payload: "keeps s s0 \<Longrightarrow> fs_sub_process_payload E c fl d s0 = Some (st, txt, s') \<Longrightarrow> keeps s s'"
  by (auto simp: fs_sub_process_payload_def storage_def intro!: keeps_out split: if_splits prod.splits)

lemma keeps_exec:
  "reboot_exec E f s = Some s' \<Longrightarrow> keeps s s'"
  "ota_dfu_exec E f s = Some s' \<Longrightarrow> keeps s s'"
  "keeps s s0 \<Longrightarrow> fs_exec E f s0 = Some s' \<Longrightarrow> keeps s s'"
  "remote_pub_exec E f s = Some s' \<Longrightarrow> keeps s s'"
  "control_exec E f s = Some s' \<Longrightarrow> keeps s s'"
  "start_exec E f s = Some s' \<Longrightarrow> keeps s s'"
  "node_id_exec E f s = Some s' \<Longrightarrow> keeps s s'"
proof -
  note d = publish_defs Let_def
  show "reboot_exec E f s = Some s' \<Longrightarrow> keeps s s'"
    by (auto simp: reboot_exec_def d intro!: keeps_ops split: if_splits option.splits)
  show "ota_dfu_exec E f s = Some s' \<Longrightarrow> keeps s s'"
    by (auto simp: ota_dfu_exec_def d intro!: keeps_ops keeps_out split: option.splits prod.splits)
  show "keeps s s0 \<Longrightarrow> fs_exec E f s0 = Some s' \<Longrightarrow> keeps s s'"
    by (auto simp: fs_exec_def intro!: keeps_ops dest: keeps_payload split: option.splits)
  show "remote_pub_exec E f s = Some s' \<Longrightarrow> keeps s s'"
    by (auto simp: remote_pub_exec_def d intro!: keeps_ops split: option.splits prod.splits)
  show "control_exec E f s = Some s' \<Longrightarrow> keeps s s'"
    by (auto simp: control_exec_def d intro!: keeps_ops split: option.splits if_splits)
  show "start_exec E f s = Some s' \<Longrightarrow> keeps s s'"
    by (auto simp: start_exec_def d intro!: keeps_ops split: option.splits if_splits)
  show "node_id_exec E f s = Some s' \<Longrightarrow> keeps s s'"
    by (auto simp: node_id_exec_def d intro!: keeps_ops split: option.splits if_splits)
qed

lemma keeps_handle_payload:
  assumes "\<And>f s'. exec f s = Some s' \<Longrightarrow> keeps s0 s'" and "\<And>x. keeps s0 (err x s)"
    and "handle_payload decode exec err p s = Some s'"
  shows "keeps s0 s'"
  using assms by (auto simp: handle_payload_def split: sum.splits)

lemma keeps_handler:
  assumes k: "k < 7" and h: "(subscription_cb E ! k) p s = Some s'"
  shows "keeps s s'"
proof -
  have sl: "keeps s (k_sleep E 500 s)" by (simp add: keeps_ops)
  consider "k = 0" | "k = 1" | "k = 2" | "k = 3" | "k = 4" | "k = 5" | "k = 6" using k by linarith
  then show ?thesis
    using h
    by cases (simp_all add: subscription_cb_def handle_defs,
      (erule keeps_handle_payload [rotated 2], auto simp: publish_defs intro: keeps_exec keeps_ops sl)+)
qed

text \<open>The new outputs of a command, exactly one of which is an answer.\<close>

lemma one_answer:
  assumes enc: "\<And>r n. e_encode E r n \<noteq> None" and k: "k < 7" and h: "(subscription_cb E ! k) p s = Some s'"
  shows "\<exists>os t x q. cm_out s' = cm_out s @ os \<and> filter is_publish os = [Publish t x q]"
proof -
  obtain os where os: "cm_out s' = cm_out s @ os"
    using keeps_handler [OF k h] by (auto simp: keeps_def prefix_def)
  have "length (filter is_publish os) = 1"
    using handler_replies [OF enc k h] os by (simp add: replies_def)
  then obtain c where c: "filter is_publish os = [c]" by (auto simp: length_Suc_conv)
  then have "is_publish c" by (metis filter_eq_Cons_iff)
  then show ?thesis using os c by (cases c) auto
qed

section \<open>What the transport gets\<close>

fun is_sleep :: "cmd_out \<Rightarrow> bool" where
  "is_sleep (Sleep _) = True"
| "is_sleep _ = False"

lemma send_only_answers:
  "\<not> list_ex is_sleep os \<Longrightarrow>
   fold (send_out ops alloc stale other) os s = fold (send_out ops alloc stale other) (filter is_publish os) s"
proof (induction os arbitrary: s)
  case (Cons c os)
  then show ?case by (cases c) (simp_all add: send_out_def)
qed simp

lemma answer_queued:
  assumes ok: "msgq_ok ops cap items" "alloc_ok alloc" and h: "heap_ok items (tr_queue s)"
  shows "\<exists>xs. contents items (tr_queue (send_out ops alloc stale other (Publish t p q) s)) = contents items (tr_queue s) @ xs
    \<and> heap_ok items (tr_queue (send_out ops alloc stale other (Publish t p q) s))
    \<and> (xs = [] \<or> xs = [(t, case p of Text x \<Rightarrow> x | Unfilled \<Rightarrow> stale, min q 1)])
    \<and> (\<not> transport_state_ready s \<or> 64 \<le> length t \<longrightarrow> xs = [])"
proof -
  let ?x = "case p of Text x \<Rightarrow> x | Unfilled \<Rightarrow> stale"
  have th: "transport_heap ops cap items alloc" using ok by unfold_locales
  have m: "(if q > 1 then 1 else q) = min q 1" by simp
  from transport_heap.add_cases [OF th h, of "Some t" "Some ?x" "min q 1"] h show ?thesis
    by (auto simp: send_out_def transport_publish_def m MQTT_TOPIC_STRING_MAX_SIZE_def split_beta Let_def)
qed

text \<open>What \<open>server_event\<close> does with a delivered message.\<close>

lemma delivered:
  assumes rd: "publish_get_payload (e_buflen E) (length p) rd = 0" and cfg: "mh_cfg (tr_helper (sv_tr v))"
  shows "server_event E alloc stale other C (EVT_PUBLISH t p q mid rd) v =
    on_mqtt_publish (e_ops E) alloc stale other C (t, p)
      (v\<lparr>sv_tr := (count_event E MQTT_BROKER_RX_MSG
           ((sv_tr v)\<lparr>tr_helper := mh_cb (Cb_publish t p) (if q = 1 then mh_call (Mqtt_ack mid) (tr_helper (sv_tr v))
              else tr_helper (sv_tr v))\<rparr>))\<lparr>tr_received := tr_received (sv_tr v) @ [(t, p)]\<rparr>\<rparr>)"
proof -
  have c: "mh_cbs (mh_call a h) = mh_cbs h" "mh_cfg (mh_call a h) = mh_cfg h"
    "mh_cfg h \<Longrightarrow> mh_cbs (mh_cb b h) = mh_cbs h @ [b]" for a b h
    by (simp_all add: mh_call_def mh_cb_def)
  show ?thesis
    by (simp add: server_event_def library_event_def mqtt_evt_handler_def on_publish_def rd helper_done_def c cfg
        on_mqtt_cb_def count_event_def)
qed

lemma send_out_kept:
  "tr_helper (send_out ops alloc stale other (Publish t p q) s) = tr_helper s"
  "tr_received (send_out ops alloc stale other (Publish t p q) s) = tr_received s"
  by (simp_all add: send_out_def transport_publish_def Let_def split_beta)


definition commanded :: "transport_msg list server" where
  "commanded = \<lparr>sv_tr = publishing_state, sv_cmds = subscription_list_build sample_env cmds_boot\<rparr>"


end
