(* ===== verification/NodeApp.thy ===== *)
theory NodeApp
  imports MqttCmds
begin

text \<open>
  The commands of a cluster node: the application core of the node image differs from that of the head in its table of
  subscriptions (cluster\_node\_multi\_image\_fota, src/data/mqtt/mqtt\_common.c), which leaves out the RTT command, and
  the node's build leaves out rtt\_mqtt.c. The command modules are those of MqttCmds.
\<close>

definition node_cmd_topics :: "string \<Rightarrow> string list" where
  "node_cmd_topics node =
     [node_topic node ''reboot'', node_topic node ''ota_dfu'', node_topic node ''fs'',
      node_topic node ''remote_pub'', node_topic node ''control'', all_topic ''start'', all_topic ''node_id'']"

definition node_subscription_list_build :: "cmd_env \<Rightarrow> cmds \<Rightarrow> cmds" where
  "node_subscription_list_build E s = s\<lparr>topic_cmd_strs := node_cmd_topics (e_id E)\<rparr>"

definition node_subscription_cb :: "cmd_env \<Rightarrow> (string \<Rightarrow> cmds \<Rightarrow> cmds option) list" where
  "node_subscription_cb E =
     [reboot_handle E, ota_dfu_handle E, fs_handle E, remote_pub_handle E, control_handle E,
      start_handle E, node_id_handle E]"

definition node_on_mqtt_publish :: "cmd_env \<Rightarrow> string \<Rightarrow> string \<Rightarrow> cmds \<Rightarrow> (bool \<times> cmds) option" where
  "node_on_mqtt_publish E topic payload s =
     dispatch (zip (topic_cmd_strs s) (node_subscription_cb E)) topic payload s"

definition node_cmds_step :: "cmd_env \<Rightarrow> cmd_step \<Rightarrow> cmds option \<Rightarrow> cmds option" where
  "node_cmds_step E ev so =
     (case so of
        None \<Rightarrow> None
      | Some s \<Rightarrow>
          (case ev of
             Subscribe \<Rightarrow> Some (node_subscription_list_build E s)
           | Message topic payload \<Rightarrow> map_option snd (node_on_mqtt_publish E topic payload s)
           | Work w \<Rightarrow> Some (if is_work w then s\<lparr>cm_pubs := pubs_step w (cm_pubs s)\<rparr> else s)))"

section \<open>The head's table without its last row\<close>

lemma node_table:
  "node_cmd_topics node = take 7 (cmd_topics node)" "node_subscription_cb E = take 7 (subscription_cb E)"
  "length (node_cmd_topics node) = 7" "length (node_subscription_cb E) = 7"
  by (simp_all add: node_cmd_topics_def cmd_topics_def node_subscription_cb_def subscription_cb_def)

lemma no_match: "\<forall>x\<in>set (map fst cbs). \<not> matches t x \<Longrightarrow> dispatch cbs t p s = Some (False, s)"
  by (induction cbs) (auto simp: on_publish_cb_def)

lemma first_index_take: "first_index P xs = Some i \<Longrightarrow> i < n \<Longrightarrow> first_index P (take n xs) = Some i"
proof (induction xs arbitrary: i n)
  case (Cons x xs)
  then show ?case by (cases n) (auto split: if_splits)
qed simp

lemma rtt_unknown:
  assumes node: "hex_id node" and x: "x \<in> set (node_cmd_topics node)"
  shows "\<not> prefix (all_topic ''rtt'') x"
  using x hex_id_start [OF node not_xdigit(4)] by (auto simp: node_cmd_topics_def simp del: append.simps)

text \<open>
  C33: a node runs the first seven commands of the head's table, each on its own topic, and no round-trip test: a message
  on that topic, which the head broadcasts by, is not handled and changes nothing.
\<close>

theorem node_commands:
  assumes node: "hex_id (e_id E)" and s: "topic_cmd_strs s = node_cmd_topics (e_id E)"
  shows "(k < 7 \<longrightarrow> node_on_mqtt_publish E (cmd_topics (e_id E) ! k) p s
      = map_option (Pair True) ((subscription_cb E ! k) p s))
    \<and> node_on_mqtt_publish E (all_topic ''rtt'') p s = Some (False, s)"
proof (intro conjI impI)
  let ?cbs = "zip (node_cmd_topics (e_id E)) (node_subscription_cb E)"
  have fst: "map fst ?cbs = node_cmd_topics (e_id E)" by (simp add: node_table(3,4))
  { assume k: "k < 7"
    then have "NUL \<notin> set (cmd_topics (e_id E) ! k)"
      using topics_no_nul [OF node] by (simp add: lengths list_all_length)
    moreover have "first_index (prefix (cmd_topics (e_id E) ! k)) (node_cmd_topics (e_id E)) = Some k"
      unfolding node_table(1) using topic_index [OF node, of k] k by (intro first_index_take) simp_all
    ultimately have "first_index (matches (cmd_topics (e_id E) ! k)) (map fst ?cbs) = Some k"
      unfolding fst by (simp add: first_index_Some matches_prefix)
    from dispatch_first [OF this] k
    show "node_on_mqtt_publish E (cmd_topics (e_id E) ! k) p s = map_option (Pair True) ((subscription_cb E ! k) p s)"
      by (simp add: node_on_mqtt_publish_def s node_table lengths) }
  have "NUL \<notin> set (all_topic ''rtt'')" by (simp add: topic_no_nul)
  then have "\<forall>x\<in>set (map fst ?cbs). \<not> matches (all_topic ''rtt'') x"
    unfolding fst using rtt_unknown [OF node] by (simp add: matches_prefix)
  then show "node_on_mqtt_publish E (all_topic ''rtt'') p s = Some (False, s)"
    unfolding node_on_mqtt_publish_def s by (rule no_match)
qed

theorem node_commands_witness:
  "node_on_mqtt_publish sample_env (all_topic ''rtt'') ''RTT'' (node_subscription_list_build sample_env cmds_boot)
     = Some (False, node_subscription_list_build sample_env cmds_boot)"
proof -
  have "hex_id (e_id sample_env)" by code_simp
  then show ?thesis
    using node_commands [of sample_env "node_subscription_list_build sample_env cmds_boot" 0 "''RTT''"]
    by (simp add: node_subscription_list_build_def)
qed

section \<open>The two publishers of a node\<close>

lemma node_inv_step: "cmds_inv so \<Longrightarrow> cmds_inv (node_cmds_step E ev so)"
proof (cases so)
  case (Some s)
  assume "cmds_inv so"
  then have s: "flags_inv (core s)" using Some by (simp add: cmds_inv_def)
  show ?thesis
  proof (cases ev)
    case Subscribe
    then show ?thesis using s Some
      by (simp add: node_cmds_step_def cmds_inv_def node_subscription_list_build_def core_def)
  next
    case (Message t p)
    have "set (node_subscription_cb E) \<subseteq> set (subscription_cb E)" by (simp add: node_table set_take_subset)
    then have "dispatch (zip (topic_cmd_strs s) (node_subscription_cb E)) t p s = Some (b, s') \<Longrightarrow> flags_inv (core s')" for b s'
      using s flags_handle [OF s] by (elim flags_dispatch [rotated 2]) (auto dest: set_zip_rightD)
    then show ?thesis using Message Some
      by (auto simp: node_cmds_step_def cmds_inv_def node_on_mqtt_publish_def split: option.split)
  next
    case (Work w)
    then show ?thesis using s Some
      by (auto simp: node_cmds_step_def cmds_inv_def intro!: flags_set_pubs pubs_inv_step flags_pubs)
  qed
qed (simp add: node_cmds_step_def cmds_inv_def)

interpretation ncmds: machine "\<lambda>so. so = Some cmds_boot" "node_cmds_step E" cmds_inv for E
  by unfold_locales (simp_all add: node_inv_step, simp add: cmds_inv_def core_def flags_inv_def cmds_boot_def pubs_inv_boot)

text \<open>
  Further: a node, too, never holds both publishers for started.
\<close>

theorem node_cla_ncla_exclusive:
  assumes "fold (node_cmds_step E) evs (Some cmds_boot) = Some s"
  shows "\<not> (start_cla s \<and> start_ncla s) \<and> pubs_inv (cm_pubs s)"
  using ncmds.inv_run [of "Some cmds_boot" E evs] assms
  by (simp add: cmds_inv_def core_def flags_inv_def)

theorem node_cla_ncla_exclusive_witness:
  "\<exists>s. fold (node_cmds_step sample_env)
         [Subscribe, Message (all_topic ''start'') ''START'', Message (node_topic ''0a1b'' ''control'') ''CLA'']
         (Some cmds_boot) = Some s \<and> start_cla s \<and> \<not> (start_cla s \<and> start_ncla s)"
proof -
  let ?evs = "[Subscribe, Message (all_topic ''start'') ''START'', Message (node_topic ''0a1b'' ''control'') ''CLA'']"
  have "map_option start_cla (fold (node_cmds_step sample_env) ?evs (Some cmds_boot)) = Some True" by code_simp
  then obtain s where "fold (node_cmds_step sample_env) ?evs (Some cmds_boot) = Some s" "start_cla s" by auto
  then show ?thesis using node_cla_ncla_exclusive [of sample_env ?evs s] by blast
qed

end
