(* ===== verification/Pwm.thy ===== *)
theory Pwm
  imports PowerThread
begin

text \<open>
  The driver of the pulse-width modulator that switches the boost converter (src/bsp/helio\_pwm.c,
  src/hal/helio\_pwm.h), below the power thread. Writes to the registers are logged in order by name. Of the peripheral the
  model uses what its documentation says of this configuration: a start of the sequence loads the four compare values
  from memory, and the output of a channel is high for the counts between its compare value and the top of the counter.
\<close>

section \<open>The driver\<close>

datatype pwm_reg =
    Psel_out0 nat
  | Pwm_enable
  | Mode_up
  | Prescaler_div_1
  | Countertop "16 word"
  | Loop_disabled
  | Decoder_individual_refresh_count
  | Seq0_ptr_duty_block
  | Seq0_cnt nat
  | Seq0_refresh nat
  | Seq0_enddelay nat
  | Tasks_seqstart0

record pwm =
  pwm_duty_block_0 :: "16 word list"
  pwm_regs :: "pwm_reg list"
  pwm_loaded :: "16 word list"

definition OFF_DUTY_CNT :: "16 word" where "OFF_DUTY_CNT = 256"
definition BOOST_GATE :: nat where "BOOST_GATE = 2"

definition pwm_boot :: pwm where
  "pwm_boot = \<lparr>pwm_duty_block_0 = replicate 4 OFF_DUTY_CNT, pwm_regs = [], pwm_loaded = []\<rparr>"

definition start_pwm_sequence :: "pwm \<Rightarrow> pwm" where
  "start_pwm_sequence p = p\<lparr>pwm_regs := pwm_regs p @ [Tasks_seqstart0], pwm_loaded := pwm_duty_block_0 p\<rparr>"

definition helio_pwm_init :: "pwm \<Rightarrow> int \<times> pwm" where
  "helio_pwm_init p =
     (0, start_pwm_sequence (p\<lparr>pwm_regs := pwm_regs p @
        [Psel_out0 BOOST_GATE, Pwm_enable, Mode_up, Prescaler_div_1, Countertop OFF_DUTY_CNT, Loop_disabled,
         Decoder_individual_refresh_count, Seq0_ptr_duty_block, Seq0_cnt (length (pwm_duty_block_0 p)), Seq0_refresh 0,
         Seq0_enddelay 0]\<rparr>))"

definition update_duty_block :: "16 word \<Rightarrow> pwm \<Rightarrow> pwm" where
  "update_duty_block new_duty p = p\<lparr>pwm_duty_block_0 := (pwm_duty_block_0 p)[0 := OFF_DUTY_CNT - new_duty]\<rparr>"

definition turn_off_pwm :: "pwm \<Rightarrow> pwm" where
  "turn_off_pwm p = start_pwm_sequence (p\<lparr>pwm_duty_block_0 := (pwm_duty_block_0 p)[0 := OFF_DUTY_CNT]\<rparr>)"

text \<open>The counts of a period during which the boost gate is driven, of \<open>OFF_DUTY_CNT\<close>.\<close>

definition high_counts :: "pwm \<Rightarrow> int" where
  "high_counts p = int (unat OFF_DUTY_CNT) - int (unat (pwm_loaded p ! 0))"

section \<open>Below the power thread\<close>

text \<open>The two calls the power thread makes, with its own state: \<open>set_duty_cycle\<close> and \<open>transition_to_off\<close>.\<close>

datatype gate_call = Duty int | Turn_off

fun gate :: "gate_call \<Rightarrow> power \<times> pwm \<Rightarrow> power \<times> pwm" where
  "gate (Duty d) (s, p) =
     (let s' = set_duty_cycle d s
      in (s', start_pwm_sequence (update_duty_block (word_of_int (gate_duty_cycle s')) p)))"
| "gate Turn_off (s, p) = (transition_to_off s, turn_off_pwm p)"

text \<open>The duty the thread believes in is the share of the period the gate is driven.\<close>

definition gate_inv :: "power \<times> pwm \<Rightarrow> bool" where
  "gate_inv sp \<longleftrightarrow> (case sp of (s, p) \<Rightarrow>
     length (pwm_duty_block_0 p) = 4 \<and> pwm_loaded p = pwm_duty_block_0 p
     \<and> high_counts p = (if pwm_on s then pwm_duty s else 0) \<and> 0 \<le> high_counts p \<and> high_counts p \<le> MAX_DUTY_CYCLE)"

lemma duty_compare:
  assumes "1 \<le> d" "d \<le> 254"
  shows "int (unat (OFF_DUTY_CNT - word_of_int d)) = 256 - d"
proof -
  have w: "OFF_DUTY_CNT - word_of_int d = (word_of_int (256 - d) :: 16 word)" by (simp add: OFF_DUTY_CNT_def)
  have "(256 - d) mod 2 ^ LENGTH(16) = 256 - d" using assms by simp
  then have "uint (word_of_int (256 - d) :: 16 word) = 256 - d" by (simp only: uint_word_of_int)
  then show ?thesis unfolding w by (simp only: uint_nat)
qed

lemma gate_inv_step: "gate_inv sp \<Longrightarrow> gate_inv (gate c sp)"
proof (cases sp, cases c)
  fix s p d assume i: "gate_inv sp" and sp: "sp = (s, p)" "c = Duty d"
  let ?g = "gate_duty_cycle (set_duty_cycle d s)"
  have g: "1 \<le> ?g" "?g \<le> 254" "pwm_on (set_duty_cycle d s)" "pwm_duty (set_duty_cycle d s) = ?g"
    using set_duty_cycle_range [of d s] by (simp_all add: fw_defs)
  have "length (pwm_duty_block_0 p) = 4" using i sp by (simp add: gate_inv_def)
  then have "gate_inv (set_duty_cycle d s, start_pwm_sequence (update_duty_block (word_of_int ?g) p))"
    using g duty_compare [OF g(1,2)]
    by (simp add: gate_inv_def high_counts_def start_pwm_sequence_def update_duty_block_def MAX_DUTY_CYCLE_def)
      (simp add: OFF_DUTY_CNT_def)
  then show ?thesis by (simp add: sp Let_def)
next
  fix s p assume i: "gate_inv sp" and sp: "sp = (s, p)" "c = Turn_off"
  then show ?thesis
    by (simp add: gate_inv_def high_counts_def turn_off_pwm_def start_pwm_sequence_def transition_to_off_def
        MAX_DUTY_CYCLE_def)
qed

interpretation gates: machine "\<lambda>sp. \<exists>b. sp = (power_boot b, snd (helio_pwm_init pwm_boot))" gate gate_inv
  by unfold_locales (auto simp: gate_inv_step, simp add: gate_inv_def high_counts_def helio_pwm_init_def
      start_pwm_sequence_def pwm_boot_def power_boot_def MAX_DUTY_CYCLE_def)

text \<open>
  Further: the gate follows the thread. After the start of the driver and any calls with any requested duties, the boost
  gate is driven for exactly the share of the period the power thread reports, \<open>pwm_duty\<close> of 256 counts, or not at all
  while the thread takes it for off; the 16-bit subtraction of the driver never wraps, and the gate is never driven
  for a whole period.
\<close>

theorem boost_gate_follows:
  "case fold gate cs (power_boot b, snd (helio_pwm_init pwm_boot)) of (s, p) \<Rightarrow>
     high_counts p = (if pwm_on s then pwm_duty s else 0)
     \<and> 0 \<le> high_counts p \<and> high_counts p \<le> MAX_DUTY_CYCLE"
proof -
  have "gate_inv (fold gate cs (power_boot b, snd (helio_pwm_init pwm_boot)))" by (rule gates.inv_run) blast
  then show ?thesis by (auto simp: gate_inv_def split: prod.splits)
qed

end
