(* ===== verification/Pid.thy ===== *)
theory Pid
  imports Prelude Complex_Main
begin

text \<open>
  The PID controller (src/bsp/helio\_pid.c), which is built but has no caller. Single-precision arithmetic is the
  parameter \<open>flt\<close>, of which nothing is assumed, so that the theorems cover rounding, infinities and NaN; \<open>None\<close> is a
  conversion to an integer type that cannot hold the value, which is undefined.
\<close>

section \<open>The controller\<close>

text \<open>\<open>fl_trunc\<close> is the integer part, \<open>None\<close> for infinities and NaN.\<close>

record 'f flt =
  fl_of_int :: "int \<Rightarrow> 'f"
  fl_add :: "'f \<Rightarrow> 'f \<Rightarrow> 'f"
  fl_sub :: "'f \<Rightarrow> 'f \<Rightarrow> 'f"
  fl_mul :: "'f \<Rightarrow> 'f \<Rightarrow> 'f"
  fl_div :: "'f \<Rightarrow> 'f \<Rightarrow> 'f"
  fl_le :: "'f \<Rightarrow> 'f \<Rightarrow> bool"
  fl_less :: "'f \<Rightarrow> 'f \<Rightarrow> bool"
  fl_trunc :: "'f \<Rightarrow> int option"

record 'f Pid_t =
  Kp :: 'f
  Ki :: 'f
  Kd :: 'f
  T_us :: 'f
  last_error :: 'f
  integral :: 'f
  derivative :: 'f

definition MIN_INTEGRAL :: int where "MIN_INTEGRAL = 0"
definition MAX_INTEGRAL :: int where "MAX_INTEGRAL = 100"
definition MAX_BEMF_INTEGRAL :: int where "MAX_BEMF_INTEGRAL = 16000"

text \<open>Zephyr's \<open>CLAMP\<close> on floats and on integers.\<close>

definition fl_clamp :: "'f flt \<Rightarrow> 'f \<Rightarrow> int \<Rightarrow> int \<Rightarrow> 'f" where
  "fl_clamp F x low high =
     (if fl_le F x (fl_of_int F low) then fl_of_int F low
      else if fl_less F x (fl_of_int F high) then x else fl_of_int F high)"

definition int_clamp :: "int \<Rightarrow> int \<Rightarrow> int \<Rightarrow> int" where
  "int_clamp x low high = (if x \<le> low then low else if x < high then x else high)"

text \<open>\<open>None\<close> is the failed assertion that the interval is positive.\<close>

definition pid_initialize :: "'f flt \<Rightarrow> 'f Pid_t option \<Rightarrow> 'f \<Rightarrow> 'f \<Rightarrow> 'f \<Rightarrow> 'f \<Rightarrow> 'f Pid_t option option" where
  "pid_initialize F pthis kp ki kd t_us =
     (case pthis of
        None \<Rightarrow> Some None
      | Some p \<Rightarrow>
          if fl_less F (fl_of_int F 0) t_us then Some (Some (p\<lparr>Kp := kp, Ki := ki, Kd := kd, T_us := t_us\<rparr>)) else None)"

definition set_loop_interval :: "'f \<Rightarrow> 'f Pid_t \<Rightarrow> 'f Pid_t" where
  "set_loop_interval loop_interval p = p\<lparr>T_us := loop_interval\<rparr>"

definition reset_pid :: "'f flt \<Rightarrow> 'f Pid_t \<Rightarrow> 'f Pid_t" where
  "reset_pid F p = p\<lparr>last_error := fl_of_int F 0, integral := fl_of_int F 0\<rparr>"

definition set_pid_constants :: "'f \<Rightarrow> 'f \<Rightarrow> 'f \<Rightarrow> 'f Pid_t \<Rightarrow> 'f Pid_t" where
  "set_pid_constants kp ki kd p = p\<lparr>Kp := kp, Ki := ki, Kd := kd\<rparr>"

text \<open>The output and the state; the two functions differ in their bounds and in the type they return.\<close>

definition pid_output :: "'f flt \<Rightarrow> int \<Rightarrow> int \<Rightarrow> int \<Rightarrow> 'f Pid_t \<Rightarrow> 'f \<times> 'f Pid_t" where
  "pid_output F low high error p =
     (let e = fl_of_int F error;
          d = fl_div F (fl_sub F e (last_error p)) (T_us p);
          i = fl_clamp F (fl_add F (integral p) (fl_mul F e (T_us p))) low high;
          out = fl_add F (fl_add F (fl_mul F (Kp p) e) (fl_mul F (Ki p) i)) (fl_mul F (Kd p) d)
      in (out, p\<lparr>integral := i, last_error := e\<rparr>))"

definition to_signed :: "'f flt \<Rightarrow> nat \<Rightarrow> 'f \<Rightarrow> int option" where
  "to_signed F bits x =
     Option.bind (fl_trunc F x) (\<lambda>n. if - (2 ^ (bits - 1)) \<le> n \<and> n < 2 ^ (bits - 1) then Some n else None)"

definition calculate_pid :: "'f flt \<Rightarrow> int \<Rightarrow> 'f Pid_t \<Rightarrow> (int \<times> 'f Pid_t) option" where
  "calculate_pid F error p =
     (let (out, p') = pid_output F MIN_INTEGRAL MAX_INTEGRAL error p in map_option (\<lambda>n. (n, p')) (to_signed F 16 out))"

definition calculate_bemf_pid :: "'f flt \<Rightarrow> int \<Rightarrow> 'f Pid_t \<Rightarrow> (int \<times> 'f Pid_t) option" where
  "calculate_bemf_pid F error p =
     (let (out, p') = pid_output F (- MAX_BEMF_INTEGRAL) MAX_BEMF_INTEGRAL error p
      in map_option (\<lambda>n. (n, p')) (to_signed F 32 out))"

text \<open>The value stored through \<open>pcur_val\<close>.\<close>

definition pid_update :: "'f flt \<Rightarrow> int \<Rightarrow> int \<Rightarrow> int \<Rightarrow> 'f Pid_t \<Rightarrow> (int \<times> 'f Pid_t) option" where
  "pid_update F error min_val max_val p =
     map_option (\<lambda>(n, p'). (int_clamp n min_val max_val, p')) (calculate_pid F error p)"

definition pid_update_bemf :: "'f flt \<Rightarrow> int \<Rightarrow> int \<Rightarrow> int \<Rightarrow> 'f Pid_t \<Rightarrow> (int \<times> 'f Pid_t) option" where
  "pid_update_bemf F error min_val max_val p =
     map_option (\<lambda>(n, p'). (int_clamp n min_val max_val, p')) (calculate_bemf_pid F error p)"

datatype 'f pid_step =
    Reset
  | Constants 'f 'f 'f
  | Interval 'f
  | Update int int int

definition pid_do :: "'f flt \<Rightarrow> 'f pid_step \<Rightarrow> 'f Pid_t option \<Rightarrow> 'f Pid_t option" where
  "pid_do F e po =
     Option.bind po (\<lambda>p. case e of
        Reset \<Rightarrow> Some (reset_pid F p)
      | Constants a b c \<Rightarrow> Some (set_pid_constants a b c p)
      | Interval t \<Rightarrow> Some (set_loop_interval t p)
      | Update err low high \<Rightarrow> map_option snd (pid_update F err low high p))"

section \<open>The clamps\<close>

text \<open>A value the clamp may give: a bound, or strictly inside as far as the comparisons tell.\<close>

definition clamped :: "'f flt \<Rightarrow> int \<Rightarrow> int \<Rightarrow> 'f \<Rightarrow> bool" where
  "clamped F low high x \<longleftrightarrow> x = fl_of_int F low \<or> x = fl_of_int F high
     \<or> (\<not> fl_le F x (fl_of_int F low) \<and> fl_less F x (fl_of_int F high))"

lemma fl_clamp_clamped: "clamped F low high (fl_clamp F x low high)"
  by (simp add: clamped_def fl_clamp_def)

definition pid_inv :: "'f flt \<Rightarrow> 'f Pid_t option \<Rightarrow> bool" where
  "pid_inv F po \<longleftrightarrow> (\<forall>p. po = Some p \<longrightarrow> clamped F MIN_INTEGRAL MAX_INTEGRAL (integral p))"

lemma pid_output_clamped: "pid_output F low high error p = (out, p') \<Longrightarrow> clamped F low high (integral p')"
  by (auto simp: pid_output_def Let_def fl_clamp_clamped)

lemma clamped_low: "clamped F low high (fl_of_int F low)"
  by (simp add: clamped_def)

lemma pid_inv_step: "pid_inv F po \<Longrightarrow> pid_inv F (pid_do F e po)"
  by (cases po; cases e)
    (auto simp: pid_inv_def pid_do_def reset_pid_def set_pid_constants_def set_loop_interval_def pid_update_def
      calculate_pid_def clamped_low MIN_INTEGRAL_def dest: pid_output_clamped split: prod.splits)

interpretation pid: machine "\<lambda>po. \<exists>p. po = Some (reset_pid F p)" "pid_do F" "pid_inv F" for F
  by unfold_locales (auto simp: pid_inv_step, simp add: pid_inv_def reset_pid_def clamped_def MIN_INTEGRAL_def)

text \<open>
  Further: from a reset on, whatever the errors, the gains and the interval are and however the arithmetic rounds, the integral
  stays between 0 and 100 (a NaN becomes 100); in particular errors of the other direction never accumulate.
\<close>

theorem pid_integral_clamped:
  assumes "fold (pid_do F) es (Some (reset_pid F p)) = Some q"
  shows "clamped F 0 100 (integral q)"
proof -
  have "pid_inv F (fold (pid_do F) es (Some (reset_pid F p)))" by (rule pid.inv_run) blast
  then show ?thesis using assms by (simp add: pid_inv_def MIN_INTEGRAL_def MAX_INTEGRAL_def)
qed

text \<open>
  Further: the result is clamped after its conversion to 16 bits. An update gives a value between its bounds exactly when the integer
  part of the output fits into 16 bits; a larger output, which the clamp was meant for, is undefined.
\<close>

theorem pid_update_defined_iff:
  "(pid_update F error low high p \<noteq> None
     \<longleftrightarrow> (\<exists>n. fl_trunc F (fst (pid_output F 0 100 error p)) = Some n \<and> - 32768 \<le> n \<and> n \<le> 32767))
   \<and> (low \<le> high \<longrightarrow> (case pid_update F error low high p of None \<Rightarrow> True | Some (v, p') \<Rightarrow> low \<le> v \<and> v \<le> high))"
proof -
  obtain x q where o: "pid_output F 0 100 error p = (x, q)" by fastforce
  show ?thesis
    by (cases "fl_trunc F x")
      (auto simp: pid_update_def calculate_pid_def to_signed_def MIN_INTEGRAL_def MAX_INTEGRAL_def int_clamp_def o)
qed

text \<open>Exact arithmetic as an instance.\<close>

definition exact :: "rat flt" where
  "exact = \<lparr>fl_of_int = of_int, fl_add = (+), fl_sub = (-), fl_mul = (*), fl_div = (/), fl_le = (\<le>), fl_less = (<),
     fl_trunc = \<lambda>x. Some (if 0 \<le> x then \<lfloor>x\<rfloor> else \<lceil>x\<rceil>)\<rparr>"

definition gain :: "int \<Rightarrow> rat Pid_t" where
  "gain k = \<lparr>Kp = of_int k, Ki = 1, Kd = 0, T_us = 1, last_error = 7, integral = 9, derivative = 0\<rparr>"

theorem pid_integral_clamped_witness:
  "\<exists>q. fold (pid_do exact) [Update (- 5) 0 10] (Some (reset_pid exact (gain 2))) = Some q \<and> integral q = 0"
proof -
  let ?r = "fold (pid_do exact) [Update (- 5) 0 10] (Some (reset_pid exact (gain 2)))"
  have "map_option integral ?r = Some 0" by code_simp
  then obtain q where q: "?r = Some q" "integral q = 0" by auto
  from pid_integral_clamped [OF q(1)] q show ?thesis by blast
qed

theorem pid_update_defined_iff_witness:
  "pid_update exact 1000 0 100 (gain 100) = None \<and> (\<exists>p'. pid_update exact 20 0 100 (gain 100) = Some (100, p'))"
proof -
  have 1: "fl_trunc exact (fst (pid_output exact 0 100 1000 (gain 100))) = Some 100100" by code_simp
  have 2: "map_option fst (pid_update exact 20 0 100 (gain 100)) = Some 100" by code_simp
  have "pid_update exact 1000 0 100 (gain 100) = None"
    using pid_update_defined_iff [of exact 1000 0 100 "gain 100"] 1
    by (cases "pid_update exact 1000 0 100 (gain 100)") auto
  then show ?thesis using 2 by auto
qed

end
