(* ===== verification/Spec2Isabelle.thy ===== *)
theory Spec2Isabelle
  imports Ntc Cluster Adc Led AppMain Console Device Server NodeApp Pwm Pid
begin

text \<open>
  \<^bold>\<open>The program.\<close> Two firmware images for boards with an nRF5340 (an application core and a network core) and
  Wi-Fi: a cluster head (cluster\_head\_multi\_image\_fota) and a cluster node
  (cluster\_node\_multi\_image\_fota). The head connects to the access point, holds an MQTT connection to the
  central server, executes the server's commands and broadcasts its RTT command by radio (ESB) to the nodes on
  its channel; every node answers with eight bytes of measurements, which the head publishes. Both images run
  the same application sources except for the few files named under "Node image" below; the network cores
  differ (net\_ipc/src/main.c of each). The paths below are relative to the image, src/ for the application
  core.

  \<^bold>\<open>How the parts interact.\<close> The Wi-Fi thread throws status events; the transport state machine follows them,
  connects the MQTT library, subscribes to the command topics and publishes one queued message at a time. A
  received message is dispatched to a command module, which answers through the transport queue, starts or
  stops publishers, edits files, starts an update or sends the RTT bytes to the network core. The power thread
  charges the battery and starts the Wi-Fi thread; the manager restarts the device when a thread stalls or a
  connection stays down. Failed assertions and fatal errors leave a record in retained memory that the next
  start saves and publishes. The configuration read at start parameterises the Wi-Fi, power and manager parts.

  \<^bold>\<open>Theories, and the code each models.\<close>
  \<^item> Prelude, KernelApi: C integers, C strings, error numbers, calls that stop at the first error, the locale
    \<open>machine\<close> of invariants along runs; the contract \<open>msgq_ok\<close> of the kernel's message queue.
  \<^item> EsbIpc, EsbNode, EsbHead: the two network cores. The node is a machine (\<open>node_step\<close>) whose interrupts,
    messages and three main-loop blocks interleave freely; the head's event and work handlers are functions of
    its state and queue.
  \<^item> HeadApp, AppNet, Cluster: the application core's end of the inter-core messages (src/main.c,
    data/mqtt/rtt\_mqtt.c), the two cores together, and a whole round of a cluster.
  \<^item> TransportQueue, MqttHelper, Transport: src/transport. Network: transport, manager and the Wi-Fi status events
    as one system over the event queue (src/events). Device: this system driven by the passes of the Wi-Fi thread.
  \<^item> WifiThread, Manager, PowerThread, Adc, Ntc, Led: src/threads, src/threads/manager, bsp/helio\_saadc.c,
    bsp/helio\_ntc.c, bsp/led.c. Pwm: bsp/helio\_pwm.c below the power thread.
    Pid: bsp/helio\_pid.c, over a parameter for floating-point arithmetic.
  \<^item> MqttCmds, Pubs, Publishers: data/mqtt, data/json, services/publisher, sys/reset\_cause.c,
    threads/time\_sync.c. Server: a command from the library to the transport queue. NodeApp: the node's table of
    commands. Telemetry: the status, MPPT and update publishers and the last will.
  \<^item> HttpUpdate: services/http\_update. Storage, Cfg, CrashRecord: src/storage, src/cfg and the records of src/sys;
    AppMain: src/main.c, the start of the device over these three. Utils: src/utils.
  \<^item> Shell, Console: the console commands (storage/fs\_shell.c, shell\_cmds, cfg/cfg\_shell.c).

  \<^bold>\<open>State and operations.\<close> A component's static variables are the fields of one record, with the C names where
  they are free; a function is a definition of the same name from state to state, a callback or work item an
  event of a datatype. Calls into code outside the repository are entries of a log in the order made, with
  results chosen by an argument, so that a theorem covers every behaviour of that code, or operations of a
  parameter record with a contract that states its documentation: \<open>msgq_ok\<close> (message queue), \<open>fs_ok\<close>, \<open>readable\<close>,
  \<open>reliable\<close> (file system), \<open>crc_ok\<close> (CRC), \<open>smf_ok\<close> (state machine framework). Each contract is shown
  satisfiable by an instance in memory, and every witness runs on such an instance. An access outside an
  array and other undefined behaviour is \<open>None\<close>; loops that might not end are option-valued and shown to return.

  \<^bold>\<open>What the groups of lemmas show.\<close>
  \<^item> Invariants of every reachable state: radio parameters (EsbNode), work items and timers of the transport,
    ownership of heap blocks (TransportQueue), rings and PWM limits (PowerThread), one download at a time
    (HttpUpdate), never both publishers (MqttCmds), patterns inside their table (Led); each is an interpretation
    of \<open>machine\<close>. Over the composed network: the manager's view of the transport is exact, a device reconnects
    when it can, and restarts when its broker does not accept it (Network); with the Wi-Fi thread in the loop, an
    access point brings it online, and it restarts when the access point stays away (Device).
  \<^item> A server's command runs once, is acknowledged, and adds at most its answer to the queue (Server).
  \<^item> Refinement: the transport's passes against its transition table, the queue against a bounded list, a cluster
    round against the replies the nodes owe, a start's configuration against the files, the driven share of the boost
    gate's period against the power thread's duty.
  \<^item> Equivalence and termination: running sums against means of the last fifty samples, LED timer against the
    listed light, the node's commands against the head's, a counted pattern ends, loops over queues and the console's reading loop return.
  \<^item> Round trips: hexadecimal text, battery value between the cores, files, uploaded configuration, crash records.
  \<^item> Error behaviour and bounds: exactly when a text buffer overruns, which records are lost, what happens to a
    command without an operation, which acknowledgement drops a message.
  Several theorems state defects of the code exactly, with the condition under which they show.

  \<^bold>\<open>Sizes.\<close> Buffer sizes, table sizes, priorities and times are the constants of the code. No theorem bounds the
  number of steps: runs are lists of events of any length. Word arithmetic is 8, 16 or 32 bits wide where the code's
  is; counters kept as \<open>int\<close> or \<open>nat\<close> carry their wrap-around (\<open>s32\<close>, \<open>add_u8\<close>, \<open>add_u16\<close>) in the definition.

  \<^bold>\<open>Node image.\<close> Its application core equals the head's except for the battery messages of main.c (in HeadApp),
  the broker address (\<open>node_mqtt_hn\<close> in Cfg), the passes between two reports of power\_thread.c (\<open>node_report_ticks\<close>) and
  mqtt\_common.c, which leaves the RTT command out of the table (NodeApp); rtt\_mqtt.c is not built into it.

  \<^bold>\<open>Not modelled.\<close> The stepper timer, which no module calls, and the GPIO and flash commands, which only write registers;
  the templates and main\_new.c, which are not built; the console commands that print one value or force a failure; log output; event declarations; the stow
  structure, which has no caller; thread and work-queue creation; TLS set-up and certificate provisioning, which
  the default configuration leaves out; the Python user interface of the central server. Instruction timing is
  outside the model: delays are recorded, not measured.
\<close>

end
